(* ===== verification/Kube_Prelude.thy ===== *)
theory Kube_Prelude
  imports
    Complex_Main
    "HOL-Library.Char_ord"
    "HOL-Library.List_Lexorder"
    "HOL-Library.Product_Lexorder"
    "HOL-Library.Signed_Division"
begin

text \<open>
  What every component of the KubeCron model shares: Go values (instants and durations
  in nanoseconds, 64-bit wrap-around, strings as byte lists), the string functions of Go's
  standard library that the source calls, stable sorting as \<open>ORDER BY\<close> does it, and the
  named collections that the component theories fill.

  Instants (\<open>time.Time\<close>) are integers: nanoseconds since the Unix epoch. The location
  a \<open>time.Time\<close> carries only matters when it is printed, so printing is a parameter of
  the operations that print. \<open>zero_time\<close> is Go's zero value, 1 January of year 1.
\<close>

named_theorems db_simps \<open>effect of each storage operation on each table\<close>
named_theorems wf_intros \<open>preservation of the storage invariant\<close>

section \<open>Instants, durations, 64-bit integers\<close>

type_synonym gotime = int
type_synonym duration = int

definition nanosecond :: duration where "nanosecond = 1"
definition millisecond :: duration where "millisecond = 1000000"
definition second :: duration where "second = 1000000000"
definition minute :: duration where "minute = 60 * 1000000000"
definition hour :: duration where "hour = 3600 * 1000000000"

lemmas duration_defs = nanosecond_def millisecond_def second_def minute_def hour_def

text \<open>\<open>Duration.Seconds\<close>: a float is the rational it stands for.\<close>

definition seconds_of :: "duration \<Rightarrow> rat" where "seconds_of d = of_int d / 1000000000"

definition zero_time :: gotime where "zero_time = - 62135596800000000000"

definition is_zero :: "gotime \<Rightarrow> bool" where "is_zero t \<longleftrightarrow> t = zero_time"

text \<open>Two's complement reduction of an arithmetic result to Go's \<open>int64\<close>.\<close>

definition wrap64 :: "int \<Rightarrow> int" where
  "wrap64 x = (x + 2 ^ 63) mod 2 ^ 64 - 2 ^ 63"

lemma wrap64_id: "- (2 ^ 63) \<le> x \<Longrightarrow> x < 2 ^ 63 \<Longrightarrow> wrap64 x = x"
  by (simp add: wrap64_def)

lemma wrap64_bounds: "- (2 ^ 63) \<le> wrap64 x \<and> wrap64 x < 2 ^ 63"
proof -
  have "0 \<le> (x + 2 ^ 63) mod (2 ^ 64 :: int)" and "(x + 2 ^ 63) mod (2 ^ 64 :: int) < 2 ^ 64"
    by simp_all
  then show ?thesis by (simp add: wrap64_def)
qed

text \<open>\<open>Time.Sub\<close> saturates at the ends of the \<open>int64\<close> range.\<close>

definition time_sub :: "gotime \<Rightarrow> gotime \<Rightarrow> duration" where
  "time_sub a b = max (- (2 ^ 63)) (min (2 ^ 63 - 1) (a - b))"

lemma time_sub_exact: "\<bar>a - b\<bar> < 2 ^ 63 \<Longrightarrow> time_sub a b = a - b"
  by (auto simp: time_sub_def)

lemma time_sub_mono: "a \<le> a' \<Longrightarrow> time_sub a b \<le> time_sub a' b"
  by (auto simp: time_sub_def)

lemma time_sub_le_iff: "0 \<le> d \<Longrightarrow> d < 2 ^ 63 - 1 \<Longrightarrow> time_sub a b \<le> d \<longleftrightarrow> a - b \<le> d"
  by (auto simp: time_sub_def)

text \<open>\<open>Duration.Milliseconds\<close> and \<open>Time.Unix\<close>: Go's integer division truncates; the
  Unix seconds are floored.\<close>

definition milliseconds :: "duration \<Rightarrow> int" where "milliseconds d = d sdiv 1000000"

definition unix_sec :: "gotime \<Rightarrow> int" where "unix_sec t = t div 1000000000"

definition trunc_sec :: "gotime \<Rightarrow> gotime" where "trunc_sec t = t - t mod 1000000000"

lemma milliseconds_nonneg: "0 \<le> d \<Longrightarrow> milliseconds d = d div 1000000"
  by (simp add: milliseconds_def signed_divide_int_def sgn_if)

lemma milliseconds_neg: "d \<le> 0 \<Longrightarrow> milliseconds d \<le> 0"
  by (auto simp: milliseconds_def signed_divide_int_def sgn_if)

text \<open>Floor division, in the two forms the schedule proofs use.\<close>

lemma floor_le: "0 < P \<Longrightarrow> P * (t div P) \<le> (t :: int)"
  by (simp add: minus_mod_eq_mult_div [symmetric])

lemma floor_gt: "0 < P \<Longrightarrow> (t :: int) < P * (t div P) + P"
  using pos_mod_bound[of P t] by (simp add: minus_mod_eq_mult_div [symmetric])

lemma multiple_le_floor:
  assumes "0 < P"
  shows "P * k \<le> t \<longleftrightarrow> k \<le> (t :: int) div P"
proof
  assume "P * k \<le> t"
  also have "t < P * (t div P + 1)" using floor_gt[OF assms, of t] by (simp add: algebra_simps)
  finally show "k \<le> t div P" using assms by (simp add: mult_less_cancel_left_pos)
next
  assume "k \<le> t div P"
  then have "P * k \<le> P * (t div P)" using assms by simp
  also have "\<dots> \<le> t" by (rule floor_le[OF assms])
  finally show "P * k \<le> t" .
qed

lemma floor_less_multiple: "0 < P \<Longrightarrow> t < P * k \<longleftrightarrow> (t :: int) div P < k"
  using multiple_le_floor[of P k t] by linarith

section \<open>Strings\<close>

definition has_prefix :: "string \<Rightarrow> string \<Rightarrow> bool" where
  "has_prefix s p \<longleftrightarrow> take (length p) s = p"

lemma has_prefix_append [simp]: "has_prefix (p @ s) p"
  by (simp add: has_prefix_def)

lemma has_prefix_iff: "has_prefix s p \<longleftrightarrow> (\<exists>t. s = p @ t)"
  by (metis append_eq_conv_conj append_take_drop_id has_prefix_def)

text \<open>\<open>strings.SplitN(s, sep, n)\<close> for a one-byte separator and \<open>n > 0\<close>.\<close>

definition split_at :: "char \<Rightarrow> string \<Rightarrow> string \<times> string option" where
  "split_at c s =
     (takeWhile (\<lambda>x. x \<noteq> c) s,
      case dropWhile (\<lambda>x. x \<noteq> c) s of [] \<Rightarrow> None | _ # rest \<Rightarrow> Some rest)"

fun split_n :: "nat \<Rightarrow> char \<Rightarrow> string \<Rightarrow> string list" where
  "split_n 0 c s = []"
| "split_n (Suc 0) c s = [s]"
| "split_n (Suc (Suc n)) c s =
     (case split_at c s of
        (a, None) \<Rightarrow> [a]
      | (a, Some b) \<Rightarrow> a # split_n (Suc n) c b)"

lemma split_at_hit: "c \<notin> set a \<Longrightarrow> split_at c (a @ c # b) = (a, Some b)"
proof -
  assume c: "c \<notin> set a"
  have "takeWhile (\<lambda>x. x \<noteq> c) (a @ c # b) = a @ takeWhile (\<lambda>x. x \<noteq> c) (c # b)"
    by (rule takeWhile_append2) (use c in auto)
  moreover have "dropWhile (\<lambda>x. x \<noteq> c) (a @ c # b) = dropWhile (\<lambda>x. x \<noteq> c) (c # b)"
    by (rule dropWhile_append2) (use c in auto)
  ultimately show ?thesis by (simp add: split_at_def)
qed

lemma split_at_miss: "c \<notin> set s \<Longrightarrow> split_at c s = (s, None)"
proof -
  assume c: "c \<notin> set s"
  then have *: "takeWhile (\<lambda>x. x \<noteq> c) s = s" "dropWhile (\<lambda>x. x \<noteq> c) s = []"
    unfolding takeWhile_eq_all_conv dropWhile_eq_Nil_conv by auto
  show ?thesis unfolding split_at_def * by simp
qed

lemma split_at_SomeD: "split_at c s = (a, Some b) \<Longrightarrow> s = a @ c # b \<and> c \<notin> set a"
proof -
  assume sp: "split_at c s = (a, Some b)"
  then obtain x where a: "a = takeWhile (\<lambda>x. x \<noteq> c) s" and d: "dropWhile (\<lambda>x. x \<noteq> c) s = x # b"
    by (auto simp: split_at_def split: list.splits)
  from d have "\<not> hd (dropWhile (\<lambda>x. x \<noteq> c) s) \<noteq> c"
    using hd_dropWhile[of "\<lambda>x. x \<noteq> c" s] by auto
  with d have "x = c" by simp
  moreover have "s = a @ x # b"
    using takeWhile_dropWhile_id[of "\<lambda>x. x \<noteq> c" s] a d by simp
  moreover have "c \<notin> set a" using a by (auto dest: set_takeWhileD)
  ultimately show ?thesis by simp
qed

lemma split_at_NoneD: "split_at c s = (a, None) \<Longrightarrow> a = s \<and> c \<notin> set s"
proof -
  assume sp: "split_at c s = (a, None)"
  then have a: "a = takeWhile (\<lambda>x. x \<noteq> c) s" and d: "dropWhile (\<lambda>x. x \<noteq> c) s = []"
    by (auto simp: split_at_def split: list.splits)
  from d have "c \<notin> set s" by (auto simp: dropWhile_eq_Nil_conv)
  moreover have "a = s" using takeWhile_dropWhile_id[of "\<lambda>x. x \<noteq> c" s] a d by simp
  ultimately show ?thesis by simp
qed

text \<open>\<open>strings.ToLower\<close>, \<open>strings.EqualFold\<close> and \<open>strings.TrimSpace\<close> on ASCII bytes.\<close>

definition lower_char :: "char \<Rightarrow> char" where
  "lower_char c = (let n = (of_char c :: nat) in if 65 \<le> n \<and> n \<le> 90 then char_of (n + 32) else c)"

definition to_lower :: "string \<Rightarrow> string" where "to_lower s = map lower_char s"

definition equal_fold :: "string \<Rightarrow> string \<Rightarrow> bool" where
  "equal_fold a b \<longleftrightarrow> to_lower a = to_lower b"

definition is_space :: "char \<Rightarrow> bool" where
  "is_space c \<longleftrightarrow> (let n = (of_char c :: nat) in n = 32 \<or> (9 \<le> n \<and> n \<le> 13))"

definition trim_left :: "string \<Rightarrow> string" where "trim_left s = dropWhile is_space s"

definition trim_space :: "string \<Rightarrow> string" where
  "trim_space s = rev (trim_left (rev (trim_left s)))"

lemma lower_char_idem [simp]: "lower_char (lower_char c) = lower_char c"
  by (auto simp: lower_char_def Let_def)

lemma to_lower_idem [simp]: "to_lower (to_lower s) = to_lower s"
  by (simp add: to_lower_def)

section \<open>ORDER BY: stable sorting, newest first\<close>

text \<open>
  A row \<open>x\<close> that comes earlier in the table goes before the rows with the same key, so
  \<open>sort_desc\<close> is the descending stable sort.
\<close>

fun insort_desc :: "('a \<Rightarrow> 'k::linorder) \<Rightarrow> 'a \<Rightarrow> 'a list \<Rightarrow> 'a list" where
  "insort_desc f x [] = [x]"
| "insort_desc f x (y # ys) = (if f y \<le> f x then x # y # ys else y # insort_desc f x ys)"

fun sort_desc :: "('a \<Rightarrow> 'k::linorder) \<Rightarrow> 'a list \<Rightarrow> 'a list" where
  "sort_desc f [] = []"
| "sort_desc f (x # xs) = insort_desc f x (sort_desc f xs)"

lemma set_insort_desc [simp]: "set (insort_desc f x xs) = insert x (set xs)"
  by (induction xs) auto

lemma set_sort_desc [simp]: "set (sort_desc f xs) = set xs"
  by (induction xs) auto

lemma length_insort_desc [simp]: "length (insort_desc f x xs) = Suc (length xs)"
  by (induction xs) auto

lemma length_sort_desc [simp]: "length (sort_desc f xs) = length xs"
  by (induction xs) auto

lemma distinct_insort_desc: "distinct (insort_desc f x xs) \<longleftrightarrow> x \<notin> set xs \<and> distinct xs"
  by (induction xs) auto

lemma distinct_sort_desc [simp]: "distinct (sort_desc f xs) \<longleftrightarrow> distinct xs"
  by (induction xs) (auto simp: distinct_insort_desc)

lemma sorted_insort_desc:
  "sorted_wrt (\<lambda>a b. f b \<le> f a) xs \<Longrightarrow> sorted_wrt (\<lambda>a b. f b \<le> f a) (insort_desc f x xs)"
  by (induction xs) (auto intro: order_trans)

lemma sorted_sort_desc: "sorted_wrt (\<lambda>a b. f b \<le> f a) (sort_desc f xs)"
  by (induction xs) (auto intro: sorted_insort_desc)

lemma sort_desc_Nil_iff [simp]: "sort_desc f xs = [] \<longleftrightarrow> xs = []"
  by (metis length_0_conv length_sort_desc)

lemma hd_sort_desc:
  assumes "xs \<noteq> []"
  shows "hd (sort_desc f xs) \<in> set xs" and "y \<in> set xs \<Longrightarrow> f y \<le> f (hd (sort_desc f xs))"
proof -
  obtain h t where ht: "sort_desc f xs = h # t"
    using assms by (cases "sort_desc f xs") auto
  then show "hd (sort_desc f xs) \<in> set xs"
    by (metis list.sel(1) list.set_intros(1) set_sort_desc)
  assume "y \<in> set xs"
  then have "y = h \<or> y \<in> set t" by (metis ht set_ConsD set_sort_desc)
  with sorted_sort_desc[of f xs] ht show "f y \<le> f (hd (sort_desc f xs))" by auto
qed

lemma filter_insort_desc_in:
  "sorted_wrt (\<lambda>a b. f b \<le> f a) xs \<Longrightarrow> P x \<Longrightarrow>
   filter P (insort_desc f x xs) = insort_desc f x (filter P xs)"
proof (induction xs)
  case Nil
  then show ?case by simp
next
  case (Cons y ys)
  show ?case
  proof (cases "f y \<le> f x")
    case True
    with Cons.prems have "\<forall>z \<in> set (filter P (y # ys)). f z \<le> f x" by auto
    then have "insort_desc f x (filter P (y # ys)) = x # filter P (y # ys)"
      by (cases "filter P (y # ys)") auto
    with True Cons.prems show ?thesis by simp
  next
    case False
    with Cons show ?thesis by simp
  qed
qed

lemma filter_insort_desc_out: "\<not> P x \<Longrightarrow> filter P (insort_desc f x xs) = filter P xs"
  by (induction xs) auto

lemma filter_sort_desc: "filter P (sort_desc f xs) = sort_desc f (filter P xs)"
  by (induction xs)
    (simp_all add: filter_insort_desc_in filter_insort_desc_out sorted_sort_desc)

section \<open>Tables as lists\<close>

text \<open>\<open>UPDATE ... SET ... WHERE\<close>: rows that match are rewritten in place.\<close>

definition upd_where :: "('a \<Rightarrow> bool) \<Rightarrow> ('a \<Rightarrow> 'a) \<Rightarrow> 'a list \<Rightarrow> 'a list" where
  "upd_where P f xs = map (\<lambda>r. if P r then f r else r) xs"

lemma set_upd_where: "set (upd_where P f xs) = (\<lambda>r. if P r then f r else r) ` set xs"
  by (simp add: upd_where_def)

lemma length_upd_where [simp]: "length (upd_where P f xs) = length xs"
  by (simp add: upd_where_def)

lemma map_upd_where_same:
  "(\<And>r. P r \<Longrightarrow> k (f r) = k r) \<Longrightarrow> map k (upd_where P f xs) = map k xs"
  by (induction xs) (auto simp: upd_where_def)

lemma find_upd_where:
  assumes "\<And>r. P r \<Longrightarrow> k (f r) = k r"
  shows "find (\<lambda>r. k r = i) (upd_where P f xs)
       = map_option (\<lambda>r. if P r then f r else r) (find (\<lambda>r. k r = i) xs)"
  using assms by (induction xs) (auto simp: upd_where_def)

lemma find_append:
  "find P (xs @ ys) = (case find P xs of None \<Rightarrow> find P ys | Some x \<Rightarrow> Some x)"
  by (induction xs) auto

lemma find_Some_in: "find P xs = Some x \<Longrightarrow> x \<in> set xs \<and> P x"
  by (induction xs) (auto split: if_splits)

lemma find_None_all: "find P xs = None \<longleftrightarrow> (\<forall>x \<in> set xs. \<not> P x)"
  by (induction xs) auto

lemma find_distinct_key:
  "distinct (map k xs) \<Longrightarrow> x \<in> set xs \<Longrightarrow> find (\<lambda>r. k r = k x) xs = Some x"
  by (induction xs) (auto simp: image_iff)

lemma distinct_map_filter_key: "distinct (map k xs) \<Longrightarrow> distinct (map k (filter P xs))"
  by (induction xs) auto

text \<open>Results of fallible operations: \<open>Inl\<close> is the error.\<close>

fun keep_on_error :: "'s \<Rightarrow> 'e + 's \<Rightarrow> 's" where
  "keep_on_error s (Inl _) = s"
| "keep_on_error s (Inr s') = s'"

fun is_err :: "'e + 'a \<Rightarrow> bool" where
  "is_err (Inl _) = True"
| "is_err (Inr _) = False"

section \<open>Refinement of events\<close>

text \<open>A sequence of labelled steps.\<close>

fun steps_along :: "('f \<Rightarrow> 'a \<Rightarrow> 'a \<Rightarrow> bool) \<Rightarrow> 'f list \<Rightarrow> 'a \<Rightarrow> 'a \<Rightarrow> bool" where
  "steps_along step [] a c \<longleftrightarrow> c = a"
| "steps_along step (f # fs) a c \<longleftrightarrow> (\<exists>b. step f a b \<and> steps_along step fs b c)"

text \<open>
  A program that handles events, and an abstract machine with an event for each of the
  program's: from the states that are \<open>good\<close>, what \<open>abs\<close> shows of the program makes the step of
  the abstract event.
\<close>

locale event_refinement =
  fixes handle :: "'e \<Rightarrow> 's \<Rightarrow> 's"
    and step :: "'f \<Rightarrow> 'a \<Rightarrow> 'a \<Rightarrow> bool"
    and lab :: "'e \<Rightarrow> 'f"
    and abs :: "'s \<Rightarrow> 'a"
    and good :: "'s \<Rightarrow> bool"
  assumes handle_good: "good s \<Longrightarrow> good (handle e s)"
    and handle_step: "good s \<Longrightarrow> step (lab e) (abs s) (abs (handle e s))"
begin

lemma run_good: "good s \<Longrightarrow> good (fold handle es s)"
  by (induction es arbitrary: s) (simp_all add: handle_good)

lemma run_steps: "good s \<Longrightarrow> steps_along step (map lab es) (abs s) (abs (fold handle es s))"
proof (induction es arbitrary: s)
  case (Cons e es)
  then show ?case using Cons.IH[OF handle_good[OF Cons.prems]] handle_step[OF Cons.prems] by auto
qed simp

text \<open>What the abstract events of a run keep, the program keeps.\<close>

lemma run_keeps:
  assumes "\<And>f a a'. step f a a' \<Longrightarrow> Q f \<Longrightarrow> P a \<Longrightarrow> P a'" and "good s" and "\<forall>e \<in> set es. Q (lab e)" and "P (abs s)"
  shows "P (abs (fold handle es s))"
  using assms(2-4)
proof (induction es arbitrary: s)
  case (Cons e es)
  have "P (abs (handle e s))" using assms(1)[OF handle_step[OF Cons.prems(1)]] Cons.prems by simp
  then show ?case using Cons.IH[OF handle_good[OF Cons.prems(1)]] Cons.prems(2) by simp
qed simp

end

end
