(* ===== verification/Schedule.thy ===== *)
theory Schedule
  imports Kube_Prelude
begin

text \<open>
  The model of \<open>internal/schedule/next.go\<close>: resolving a cron expression in a zone, the
  next and the previous occurrence, and the missed-run verdict.

  The cron parser, the schedule it returns (\<open>cron.Schedule\<close> of \<open>robfig/cron\<close>) and the
  zone database are not code of this repository: they are the fields of \<open>cron_lib\<close>, an
  argument of every definition that uses them. What the code relies on is the documented
  behaviour of \<open>Schedule.Next\<close>, stated once as \<open>next_ok\<close>: the result is the first
  occurrence after its argument, or the zero time when there is none within the horizon
  the library searches.
\<close>

section \<open>The cron library as a parameter\<close>

record ('s, 'l) cron_lib =
  parse_standard :: "string \<Rightarrow> string + 's"
  load_location :: "string \<Rightarrow> string + 'l"
  is_spec :: "'s \<Rightarrow> bool"
  with_location :: "'s \<Rightarrow> 'l \<Rightarrow> 's"
  sched_next :: "'s \<Rightarrow> gotime \<Rightarrow> gotime"

datatype sched_error =
    Bad_Expr string
  | Unknown_Zone string string
  | No_Occurrence string int
  | Diverges \<comment> \<open>stands for a call that does not return\<close>

definition Parse :: "('s, 'l) cron_lib \<Rightarrow> string \<Rightarrow> string \<Rightarrow> sched_error + 's" where
  "Parse lib expr tz =
     (case parse_standard lib expr of
        Inl e \<Rightarrow> Inl (Bad_Expr e)
      | Inr sched \<Rightarrow>
          if tz = [] then Inr sched
          else case load_location lib tz of
                 Inl e \<Rightarrow> Inl (Unknown_Zone tz e)
               | Inr loc \<Rightarrow>
                   Inr (if is_spec lib sched then with_location lib sched loc else sched))"

section \<open>Upcoming occurrences\<close>

fun next_times :: "(gotime \<Rightarrow> gotime) \<Rightarrow> nat \<Rightarrow> gotime \<Rightarrow> gotime list" where
  "next_times nx 0 t = []"
| "next_times nx (Suc n) t = nx t # next_times nx n (nx t)"

definition NextRuns ::
  "('s, 'l) cron_lib \<Rightarrow> string \<Rightarrow> string \<Rightarrow> gotime \<Rightarrow> nat \<Rightarrow> sched_error + gotime list" where
  "NextRuns lib expr tz after n =
     (case Parse lib expr tz of
        Inl e \<Rightarrow> Inl e
      | Inr s \<Rightarrow> Inr (next_times (sched_next lib s) n after))"

definition NextRun ::
  "('s, 'l) cron_lib \<Rightarrow> string \<Rightarrow> string \<Rightarrow> gotime \<Rightarrow> sched_error + gotime" where
  "NextRun lib expr tz after =
     (case NextRuns lib expr tz after 1 of
        Inl e \<Rightarrow> Inl e
      | Inr runs \<Rightarrow> Inr (runs ! 0))"

section \<open>The previous occurrence: a search over growing windows\<close>

definition max_lookback :: duration where "max_lookback = 400 * 24 * hour"

definition max_probes :: nat where "max_probes = 2000"

definition estimate_cadence :: "(gotime \<Rightarrow> gotime) \<Rightarrow> gotime \<Rightarrow> duration" where
  "estimate_cadence nx now =
     (let fst_run = nx now in
      if is_zero fst_run then max_lookback
      else let snd_run = nx fst_run in
           if is_zero snd_run then max_lookback else time_sub snd_run fst_run)"

text \<open>The body of \<open>walk\<close>: at most \<open>k\<close> probes, the last occurrence seen so far in \<open>acc\<close>.\<close>

fun walk_from ::
  "(gotime \<Rightarrow> gotime) \<Rightarrow> nat \<Rightarrow> gotime \<Rightarrow> gotime \<Rightarrow> gotime option \<Rightarrow> gotime option" where
  "walk_from nx 0 t to acc = acc"
| "walk_from nx (Suc k) t to acc =
     (let n = nx t in
      if is_zero n \<or> to < n then acc else walk_from nx k n to (Some n))"

lemma walk_from_step:
  "0 < k \<Longrightarrow> walk_from nx k t to acc =
     (if is_zero (nx t) \<or> to < nx t then acc else walk_from nx (k - 1) (nx t) to (Some (nx t)))"
  by (cases k) (simp_all add: Let_def)

definition walk :: "(gotime \<Rightarrow> gotime) \<Rightarrow> gotime \<Rightarrow> gotime \<Rightarrow> gotime option" where
  "walk nx from to = walk_from nx max_probes from to None"

text \<open>
  The endless \<open>for\<close> of \<open>PrevRun\<close>. \<open>None\<close> is a loop that never ends; the outer \<open>Some\<close>
  carries the result, an inner \<open>None\<close> being the failed search.
\<close>

partial_function (option) prev_search ::
  "(gotime \<Rightarrow> gotime) \<Rightarrow> gotime \<Rightarrow> duration \<Rightarrow> gotime option option" where
  "prev_search nx now window =
     (let w = (if window > max_lookback then max_lookback else window) in
      case walk nx (now - w) now of
        Some prev \<Rightarrow> Some (Some prev)
      | None \<Rightarrow> if w \<ge> max_lookback then Some None else prev_search nx now (wrap64 (w * 4)))"

definition first_window :: "(gotime \<Rightarrow> gotime) \<Rightarrow> gotime \<Rightarrow> duration" where
  "first_window nx now =
     (let w = wrap64 (2 * estimate_cadence nx now) in if w < hour then hour else w)"

definition PrevRun ::
  "('s, 'l) cron_lib \<Rightarrow> string \<Rightarrow> string \<Rightarrow> gotime \<Rightarrow> sched_error + gotime" where
  "PrevRun lib expr tz now =
     (case Parse lib expr tz of
        Inl e \<Rightarrow> Inl e
      | Inr s \<Rightarrow>
          (case prev_search (sched_next lib s) now (first_window (sched_next lib s) now) of
             None \<Rightarrow> Inl Diverges
           | Some None \<Rightarrow> Inl (No_Occurrence expr (max_lookback div hour div 24))
           | Some (Some prev) \<Rightarrow> Inr prev))"

section \<open>The missed-run verdict\<close>

definition missed_grace :: duration where "missed_grace = 5 * minute"

record last_run =
  lr_started :: gotime
  lr_running :: bool

definition IsMissed ::
  "('s, 'l) cron_lib \<Rightarrow> string \<Rightarrow> string \<Rightarrow> bool \<Rightarrow> last_run option \<Rightarrow> gotime \<Rightarrow> bool" where
  "IsMissed lib expr tz suspended lr now =
     (if suspended then False
      else case PrevRun lib expr tz now of
        Inl _ \<Rightarrow> False
      | Inr prev \<Rightarrow>
          if time_sub now prev \<le> missed_grace then
            (case lr of
               None \<Rightarrow> False
             | Some l \<Rightarrow>
                 (case PrevRun lib expr tz (prev - nanosecond) of
                    Inl _ \<Rightarrow> False
                  | Inr earlier \<Rightarrow> \<not> lr_running l \<and> lr_started l < earlier))
          else
            (case lr of
               None \<Rightarrow> True
             | Some l \<Rightarrow> \<not> lr_running l \<and> lr_started l < prev))"

section \<open>What the code relies on\<close>

definition cron_horizon :: duration where "cron_horizon = 5 * 365 * 24 * hour"

definition next_ok :: "(gotime \<Rightarrow> bool) \<Rightarrow> (gotime \<Rightarrow> gotime) \<Rightarrow> bool" where
  "next_ok occ nx \<longleftrightarrow>
     (\<forall>t > zero_time.
        if is_zero (nx t) then \<forall>u. t < u \<and> u \<le> t + cron_horizon \<longrightarrow> \<not> occ u
        else t < nx t \<and> occ (nx t) \<and> (\<forall>u. t < u \<and> u < nx t \<longrightarrow> \<not> occ u))"

definition occs :: "(gotime \<Rightarrow> bool) \<Rightarrow> gotime \<Rightarrow> gotime \<Rightarrow> gotime set" where
  "occs occ from to = {u. from < u \<and> u \<le> to \<and> occ u}"

lemma finite_occs [simp]: "finite (occs occ from to)"
proof (rule finite_subset)
  show "occs occ from to \<subseteq> {from..to}" by (auto simp: occs_def)
qed simp

lemma next_okD:
  assumes "next_ok occ nx" and "zero_time < t"
  shows "is_zero (nx t) \<Longrightarrow> t < u \<Longrightarrow> u \<le> t + cron_horizon \<Longrightarrow> \<not> occ u"
    and "\<not> is_zero (nx t) \<Longrightarrow> t < nx t"
    and "\<not> is_zero (nx t) \<Longrightarrow> occ (nx t)"
    and "\<not> is_zero (nx t) \<Longrightarrow> t < u \<Longrightarrow> u < nx t \<Longrightarrow> \<not> occ u"
  using assms by (auto simp: next_ok_def split: if_splits)

section \<open>The walk inside one window\<close>

lemma occs_stop:
  assumes "next_ok occ nx" "zero_time < t" "to \<le> t + cron_horizon" "is_zero (nx t) \<or> to < nx t"
  shows "occs occ t to = {}"
proof -
  have "\<not> occ u" if "t < u" "u \<le> to" for u
  proof (cases "is_zero (nx t)")
    case True
    then show ?thesis using next_okD(1)[OF assms(1,2)] that assms(3) by auto
  next
    case False
    with assms(4) that have "u < nx t" by auto
    then show ?thesis using next_okD(4)[OF assms(1,2) False] that by auto
  qed
  then show ?thesis by (auto simp: occs_def)
qed

lemma occs_step:
  assumes "next_ok occ nx" "zero_time < t" "\<not> is_zero (nx t)" "nx t \<le> to"
  shows "occs occ t to = insert (nx t) (occs occ (nx t) to)" and "nx t \<notin> occs occ (nx t) to"
    and "t < nx t"
proof -
  note ok = next_okD(2-4)[OF assms(1,2) assms(3)]
  have "nx t < u" if "t < u" "occ u" "u \<noteq> nx t" for u
    using ok(3)[of u] that by (meson linorder_neqE)
  with ok assms(4) show "occs occ t to = insert (nx t) (occs occ (nx t) to)"
    by (auto simp: occs_def)
qed (use next_okD(2)[OF assms(1,2) assms(3)] in \<open>auto simp: occs_def\<close>)

lemma walk_from_spec:
  assumes "next_ok occ nx" "zero_time < t" "to \<le> t + cron_horizon"
  shows "(card (occs occ t to) \<le> k \<longrightarrow>
            walk_from nx k t to acc
              = (if occs occ t to = {} then acc else Some (Max (occs occ t to))))
       \<and> (0 < k \<and> k \<le> card (occs occ t to) \<longrightarrow>
            (\<exists>p \<in> occs occ t to. walk_from nx k t to acc = Some p
               \<and> card {u \<in> occs occ t to. u \<le> p} = k))"
  using assms(2,3)
proof (induction k arbitrary: t acc)
  case 0
  then show ?case by auto
next
  case (Suc k)
  show ?case
  proof (cases "is_zero (nx t) \<or> to < nx t")
    case True
    with occs_stop[OF assms(1) Suc.prems True] show ?thesis by (simp add: Let_def)
  next
    case False
    then have nz: "\<not> is_zero (nx t)" and le: "nx t \<le> to" by auto
    let ?n = "nx t" and ?S = "occs occ t to" and ?R = "occs occ (nx t) to"
    note step = occs_step[OF assms(1) Suc.prems(1) nz le]
    have w: "walk_from nx (Suc k) t to acc = walk_from nx k ?n to (Some ?n)"
      using False by (simp add: Let_def)
    have "zero_time < ?n" "to \<le> ?n + cron_horizon" using step(3) Suc.prems by auto
    note IH = Suc.IH[OF this, of "Some ?n"]
    have card: "card ?S = Suc (card ?R)" using step(1,2) by simp
    have gt: "u \<in> ?R \<Longrightarrow> ?n < u" for u by (simp add: occs_def)
    have ne: "?S \<noteq> {}" using step(1) by auto
    have small: "walk_from nx (Suc k) t to acc = Some (Max ?S)" if "card ?S \<le> Suc k"
    proof (cases "?R = {}")
      case True
      with IH card that have "walk_from nx k ?n to (Some ?n) = Some ?n" by (cases k) auto
      with True step(1) w show ?thesis by simp
    next
      case R: False
      have "Max ?S = max ?n (Max ?R)" using step(1) R by simp
      moreover have "?n < Max ?R" using gt Max_in[OF finite_occs R] by blast
      ultimately show ?thesis using IH card that w R by auto
    qed
    have big: "\<exists>p \<in> ?S. walk_from nx (Suc k) t to acc = Some p \<and> card {u \<in> ?S. u \<le> p} = Suc k"
      if "Suc k \<le> card ?S"
    proof (cases "k = 0")
      case True
      have "{u \<in> ?S. u \<le> ?n} = {?n}" using step(1) gt by force
      with True w step(1) show ?thesis by (intro bexI[of _ ?n]) auto
    next
      case k: False
      with IH that card obtain p where p: "p \<in> ?R" "walk_from nx k ?n to (Some ?n) = Some p"
        "card {u \<in> ?R. u \<le> p} = k" by auto
      have "{u \<in> ?S. u \<le> p} = insert ?n {u \<in> ?R. u \<le> p}"
        using step(1) gt[OF p(1)] by auto
      then have "card {u \<in> ?S. u \<le> p} = Suc k" using p(3) step(2) by simp
      with p w step(1) show ?thesis by auto
    qed
    show ?thesis using small big ne by auto
  qed
qed

lemma walk_complete:
  assumes "next_ok occ nx" "zero_time < t" "to \<le> t + cron_horizon"
    and "card (occs occ t to) \<le> max_probes"
  shows "walk nx t to = (if occs occ t to = {} then None else Some (Max (occs occ t to)))"
  using walk_from_spec[OF assms(1-3), of max_probes None] assms(4) by (simp add: walk_def)

lemma walk_truncated:
  assumes "next_ok occ nx" "zero_time < t" "to \<le> t + cron_horizon"
    and "max_probes < card (occs occ t to)"
  obtains p where "walk nx t to = Some p" and "p \<in> occs occ t to"
    and "card {u \<in> occs occ t to. u \<le> p} = max_probes"
proof -
  have "0 < max_probes \<and> max_probes \<le> card (occs occ t to)"
    using assms(4) by (simp add: max_probes_def)
  with walk_from_spec[OF assms(1-3), of max_probes None]
  have "\<exists>p \<in> occs occ t to. walk_from nx max_probes t to None = Some p
          \<and> card {u \<in> occs occ t to. u \<le> p} = max_probes" by blast
  with that show thesis unfolding walk_def by blast
qed

lemma walk_None_iff:
  assumes "next_ok occ nx" "zero_time < t" "to \<le> t + cron_horizon"
  shows "walk nx t to = None \<longleftrightarrow> occs occ t to = {}"
proof (cases "card (occs occ t to) \<le> max_probes")
  case True
  with walk_complete[OF assms] show ?thesis by simp
next
  case False
  then have "max_probes < card (occs occ t to)" by simp
  then show ?thesis using walk_truncated[OF assms] by (metis emptyE option.discI)
qed

lemma walk_SomeD:
  assumes "next_ok occ nx" "zero_time < t" "to \<le> t + cron_horizon" and "walk nx t to = Some p"
  shows "p \<in> occs occ t to"
    and "occs occ p to = {} \<or> card (occs occ t p) = max_probes"
proof -
  have "p \<in> occs occ t to \<and> (occs occ p to = {} \<or> card (occs occ t p) = max_probes)"
  proof (cases "card (occs occ t to) \<le> max_probes")
    case True
    with walk_complete[OF assms(1-3)] assms(4)
    have ne: "occs occ t to \<noteq> {}" and p: "p = Max (occs occ t to)" by (auto split: if_splits)
    have "p \<in> occs occ t to" using p ne by simp
    moreover have "occs occ p to = {}"
    proof -
      have "u \<le> p" if "u \<in> occs occ t to" for u using p that by simp
      then show ?thesis using \<open>p \<in> occs occ t to\<close> by (fastforce simp: occs_def)
    qed
    ultimately show ?thesis by simp
  next
    case False
    then have "max_probes < card (occs occ t to)" by simp
    then obtain q where q: "walk nx t to = Some q" "q \<in> occs occ t to"
      "card {u \<in> occs occ t to. u \<le> q} = max_probes"
      using walk_truncated[OF assms(1-3)] by blast
    with assms(4) have "q = p" by simp
    moreover have "{u \<in> occs occ t to. u \<le> q} = occs occ t q"
      using q(2) by (auto simp: occs_def)
    ultimately show ?thesis using q by simp
  qed
  then show "p \<in> occs occ t to" "occs occ p to = {} \<or> card (occs occ t p) = max_probes" by auto
qed

end
