(* ===== verification/Schedule_Spec.thy ===== *)
theory Schedule_Spec
  imports Schedule
begin

text \<open>
  What \<open>internal/schedule/next.go\<close> promises: the backward search always ends, its answer is
  an occurrence inside the look-back, it is the latest one unless a window holds more than
  2000 occurrences, and the missed-run verdict for schedules that fire every \<open>P\<close>. Two
  reference schedules are used: \<open>every_tick P\<close> (a spec schedule firing at the multiples of
  \<open>P\<close>, such as \<open>0 * * * *\<close>) and \<open>every_delay d\<close> (an interval schedule, \<open>@every 1h\<close>,
  whose \<open>Next\<close> is documented as the argument plus the delay, rounded to the second).
\<close>

section \<open>The search over windows ends\<close>

lemma lookback_values:
  "max_lookback = 34560000000000000" "hour = 3600000000000" "minute = 60000000000"
  "missed_grace = 300000000000" "cron_horizon = 157680000000000000"
  "zero_time = - 62135596800000000000"
  by (simp_all add: max_lookback_def hour_def minute_def missed_grace_def cron_horizon_def zero_time_def)

lemma next_window_grows:
  assumes "0 < w" "w < max_lookback"
  shows "wrap64 (w * 4) = w * 4" and "nat (max_lookback - w * 4) < nat (max_lookback - w)"
proof -
  show "wrap64 (w * 4) = w * 4"
    by (rule wrap64_id) (use assms in \<open>simp_all add: lookback_values\<close>)
  show "nat (max_lookback - w * 4) < nat (max_lookback - w)" using assms by auto
qed

lemma prev_search_cases:
  assumes "0 < w"
  obtains (found) p where "walk nx (now - min w max_lookback) now = Some p"
      "prev_search nx now w = Some (Some p)"
  | (exhausted) "walk nx (now - max_lookback) now = None" "max_lookback \<le> w"
      "prev_search nx now w = Some None"
  | (widen) "walk nx (now - w) now = None" "w < max_lookback"
      "prev_search nx now w = prev_search nx now (w * 4)"
proof (cases "walk nx (now - min w max_lookback) now")
  case (Some p)
  then have "prev_search nx now w = Some (Some p)"
    by (subst prev_search.simps) (auto simp: Let_def min_def split: if_splits)
  with Some show thesis by (rule found)
next
  case None
  show thesis
  proof (cases "max_lookback \<le> w")
    case True
    with None have "walk nx (now - max_lookback) now = None" by (simp add: min_absorb2)
    moreover from this True have "prev_search nx now w = Some None"
      by (subst prev_search.simps) (auto simp: Let_def)
    ultimately show thesis using True by (intro exhausted)
  next
    case False
    then have "w < max_lookback" by simp
    with None have "walk nx (now - w) now = None" by (simp add: min_absorb1)
    moreover from this \<open>w < max_lookback\<close>
    have "prev_search nx now w = prev_search nx now (w * 4)"
      using next_window_grows(1)[OF assms] by (subst prev_search.simps) (simp add: Let_def)
    ultimately show thesis using \<open>w < max_lookback\<close> by (intro widen)
  qed
qed

lemma prev_search_returns: "0 < w \<Longrightarrow> \<exists>r. prev_search nx now w = Some r"
proof (induction "nat (max_lookback - w)" arbitrary: w rule: less_induct)
  case less
  from less.prems show ?case
  proof (cases rule: prev_search_cases[of w nx now])
    case widen
    have "\<exists>r. prev_search nx now (w * 4) = Some r"
      by (rule less.hyps) (use less.prems widen(2) next_window_grows(2) in auto)
    with widen(3) show ?thesis by simp
  qed auto
qed

lemma first_window_pos: "0 < first_window nx now"
  by (auto simp: first_window_def Let_def hour_def)

lemma prev_run_ends: "PrevRun lib expr tz now \<noteq> Inl Diverges"
proof (cases "Parse lib expr tz")
  case (Inl e)
  then have "e \<noteq> Diverges" by (auto simp: Parse_def split: sum.splits if_splits)
  with Inl show ?thesis by (simp add: PrevRun_def)
next
  case (Inr s)
  obtain r where "prev_search (sched_next lib s) now (first_window (sched_next lib s) now) = Some r"
    using prev_search_returns[OF first_window_pos] by blast
  with Inr show ?thesis by (simp add: PrevRun_def split: option.splits)
qed

text \<open>The library used by the witnesses: every expression parses to the same schedule.\<close>

definition fixed_lib :: "(gotime \<Rightarrow> gotime) \<Rightarrow> (unit, unit) cron_lib" where
  "fixed_lib nx =
     \<lparr>parse_standard = \<lambda>_. Inr (), load_location = \<lambda>_. Inl ''unknown'', is_spec = \<lambda>_. True,
      with_location = \<lambda>s _. s, sched_next = \<lambda>_. nx\<rparr>"

lemma fixed_lib_simps [simp]:
  "Parse (fixed_lib nx) expr [] = Inr ()" "sched_next (fixed_lib nx) s = nx"
  by (simp_all add: fixed_lib_def Parse_def)

section \<open>What the search finds\<close>

lemma occs_mono: "a \<le> b \<Longrightarrow> occs occ b to \<subseteq> occs occ a to"
  by (auto simp: occs_def)

text \<open>An answer is exact, or the probe bound cut the walk short in a window that is the first
  one or whose most recent quarter holds no occurrence.\<close>

definition cut_short :: "(gotime \<Rightarrow> bool) \<Rightarrow> gotime \<Rightarrow> duration \<Rightarrow> gotime \<Rightarrow> bool" where
  "cut_short occ now w p \<longleftrightarrow>
     (\<exists>v > 0. v \<le> max_lookback \<and> card (occs occ (now - v) p) = max_probes
        \<and> (v = min w max_lookback \<or> occs occ (now - v div 4) now = {}))"

lemma prev_search_sound:
  assumes "next_ok occ nx" "zero_time + max_lookback < now"
  shows "0 < w \<Longrightarrow> prev_search nx now w = Some r \<Longrightarrow>
    (case r of
       None \<Rightarrow> occs occ (now - max_lookback) now = {}
     | Some p \<Rightarrow> p \<in> occs occ (now - max_lookback) now
         \<and> (occs occ p now = {} \<or> cut_short occ now w p))"
proof (induction "nat (max_lookback - w)" arbitrary: w rule: less_induct)
  case less
  from less.prems(1) show ?case
  proof (cases rule: prev_search_cases[of w nx now])
    case (found p)
    let ?w = "min w max_lookback"
    have b: "zero_time < now - ?w" "now \<le> now - ?w + cron_horizon"
      using assms(2) by (auto simp: min_def lookback_values)
    from walk_SomeD[OF assms(1) b found(1)] have
      p: "p \<in> occs occ (now - ?w) now" "occs occ p now = {} \<or> card (occs occ (now - ?w) p) = max_probes"
      by auto
    have "occs occ (now - ?w) now \<subseteq> occs occ (now - max_lookback) now" by (rule occs_mono) simp
    then have "p \<in> occs occ (now - max_lookback) now" using p(1) by blast
    moreover have "0 < ?w" "?w \<le> max_lookback" using less.prems(1) by (simp_all add: lookback_values)
    then have "card (occs occ (now - ?w) p) = max_probes \<Longrightarrow> cut_short occ now w p"
      unfolding cut_short_def by (intro exI[of _ ?w]) simp
    ultimately show ?thesis using p(2) found(2) less.prems(2) by auto
  next
    case exhausted
    have "occs occ (now - max_lookback) now = {}"
      using walk_None_iff[OF assms(1)] exhausted(1) assms(2) by (simp add: lookback_values)
    with exhausted(3) less.prems(2) show ?thesis by simp
  next
    case widen
    have "zero_time < now - w" "now \<le> now - w + cron_horizon"
      using assms(2) widen(2) by (auto simp: lookback_values)
    with widen(1) have empty: "occs occ (now - w) now = {}"
      using walk_None_iff[OF assms(1)] by blast
    have "occs occ (now - v div 4) now = {}" if "v \<le> 4 * w" for v
      using occs_mono[of "now - w" "now - v div 4" occ now] that empty by auto
    then have "v = min (w * 4) max_lookback \<Longrightarrow> occs occ (now - v div 4) now = {}" for v
      by simp
    then have cut: "cut_short occ now (w * 4) p \<Longrightarrow> cut_short occ now w p" for p
      unfolding cut_short_def by blast
    have "case r of
       None \<Rightarrow> occs occ (now - max_lookback) now = {}
     | Some p \<Rightarrow> p \<in> occs occ (now - max_lookback) now
         \<and> (occs occ p now = {} \<or> cut_short occ now (w * 4) p)"
      by (rule less.hyps[of "w * 4"])
        (use less.prems widen(2,3) next_window_grows(2) in auto)
    with cut show ?thesis by (auto split: option.splits)
  qed
qed

lemma prev_run_exact:
  assumes "Parse lib expr tz = Inr s" and "next_ok occ (sched_next lib s)"
    and "zero_time + max_lookback < now"
  shows "case PrevRun lib expr tz now of
           Inl e \<Rightarrow> e = No_Occurrence expr 400 \<and> occs occ (now - max_lookback) now = {}
         | Inr p \<Rightarrow> p \<in> occs occ (now - max_lookback) now
             \<and> (occs occ p now = {} \<or> cut_short occ now (first_window (sched_next lib s) now) p)"
proof -
  let ?nx = "sched_next lib s"
  obtain r where r: "prev_search ?nx now (first_window ?nx now) = Some r"
    using prev_search_returns[OF first_window_pos] by blast
  have "max_lookback div hour div 24 = 400" by (simp add: lookback_values)
  with prev_search_sound[OF assms(2,3) first_window_pos r] r assms(1)
  show ?thesis by (cases r) (auto simp: PrevRun_def)
qed

lemma prev_run_occ:
  assumes "Parse lib expr tz = Inr s" and "next_ok occ (sched_next lib s)"
    and "PrevRun lib expr tz t = Inr p" and "zero_time + max_lookback < t"
  shows "occ p \<and> t - max_lookback < p \<and> p \<le> t"
proof -
  let ?nx = "sched_next lib s"
  have "prev_search ?nx t (first_window ?nx t) = Some (Some p)"
    using assms(1,3) by (auto simp: PrevRun_def split: option.splits)
  from prev_search_sound[OF assms(2,4) first_window_pos this]
  show ?thesis by (simp add: occs_def)
qed

section \<open>Schedules that fire at the multiples of a period\<close>

definition every_tick :: "duration \<Rightarrow> gotime \<Rightarrow> gotime" where
  "every_tick P t = (t div P + 1) * P"

lemma every_tick_gt: "0 < P \<Longrightarrow> t < every_tick P t"
  using floor_gt[of P t] by (simp add: every_tick_def algebra_simps)

lemma every_tick_next_ok: "0 < P \<Longrightarrow> next_ok (\<lambda>u. P dvd u) (every_tick P)"
proof -
  assume P: "0 < P"
  have "\<not> P dvd u" if "t < u" "u < every_tick P t" for t u
  proof
    assume "P dvd u"
    then obtain k where k: "u = P * k" ..
    with that P have "t div P < k" and "P * k < P * (t div P + 1)"
      by (simp_all add: floor_less_multiple every_tick_def mult.commute)
    with P show False by simp
  qed
  moreover have "\<not> is_zero (every_tick P t)" if "zero_time < t" for t
    using every_tick_gt[OF P, of t] that by (simp add: is_zero_def)
  ultimately show ?thesis using every_tick_gt[OF P]
    by (auto simp: next_ok_def every_tick_def)
qed

lemma occs_multiples:
  assumes "0 < P"
  shows "occs (\<lambda>u. P dvd u) from to = (\<lambda>k. P * k) ` {from div P <.. to div P}"
  using assms by (auto simp: occs_def floor_less_multiple multiple_le_floor)

lemma card_multiples:
  assumes "0 < P"
  shows "card (occs (\<lambda>u. P dvd u) from to) = nat (to div P - from div P)"
proof -
  have "inj_on (\<lambda>k. P * k) {from div P <.. to div P}" using assms by (auto simp: inj_on_def)
  then show ?thesis by (simp add: occs_multiples[OF assms] card_image)
qed

lemma Max_multiples:
  assumes "0 < P" "from div P < to div P"
  shows "Max (occs (\<lambda>u. P dvd u) from to) = P * (to div P)"
proof (rule Max_eqI)
  show "P * (to div P) \<in> occs (\<lambda>u. P dvd u) from to"
    using assms by (simp add: occs_multiples[OF assms(1)])
  fix y assume "y \<in> occs (\<lambda>u. P dvd u) from to"
  then show "y \<le> P * (to div P)" using assms(1) by (auto simp: occs_multiples)
qed simp

lemma div_window:
  fixes now w P :: int
  assumes "0 < P" "P \<le> w"
  shows "(now - w) div P < now div P" and "now div P - (now - w) div P \<le> w div P + 1"
proof -
  have "(now - w) div P \<le> (now - P) div P" by (rule zdiv_mono1) (use assms in auto)
  also have "(now - P) div P = now div P - 1"
    using assms(1) div_mult_self1[of P now "-1"] by simp
  finally show "(now - w) div P < now div P" by simp
  have "now < P * ((now - w) div P) + P + w" using floor_gt[OF assms(1), of "now - w"] by simp
  also have "\<dots> < P * ((now - w) div P + w div P + 2)"
    using floor_gt[OF assms(1), of w] by (simp add: algebra_simps)
  finally show "now div P - (now - w) div P \<le> w div P + 1"
    using assms(1) by (simp add: floor_less_multiple)
qed

lemma walk_multiples:
  assumes "minute \<le> P" "P \<le> w" "w \<le> max hour (2 * P)" "w \<le> max_lookback"
    and "zero_time + max_lookback < now"
  shows "walk (every_tick P) (now - w) now = Some (P * (now div P))"
proof -
  have P: "0 < P" using assms(1) by (simp add: lookback_values)
  have "w div P \<le> 60"
  proof -
    have "w \<le> P * 60" using assms(1,3) by (auto simp: lookback_values max_def split: if_splits)
    then have "w < P * 61" using P by simp
    then show ?thesis using P by (simp add: floor_less_multiple)
  qed
  with div_window(2)[OF P assms(2), of now]
  have "card (occs (\<lambda>u. P dvd u) (now - w) now) \<le> max_probes"
    by (simp add: card_multiples[OF P] max_probes_def)
  moreover have "zero_time < now - w" "now \<le> now - w + cron_horizon"
    using assms(4,5) by (auto simp: lookback_values)
  ultimately have "walk (every_tick P) (now - w) now =
      (if occs (\<lambda>u. P dvd u) (now - w) now = {} then None
       else Some (Max (occs (\<lambda>u. P dvd u) (now - w) now)))"
    by (intro walk_complete every_tick_next_ok P)
  with Max_multiples[OF P] div_window(1)[OF P assms(2), of now] show ?thesis
    by (simp add: occs_multiples[OF P])
qed

lemma prev_search_hit:
  "0 < w \<Longrightarrow> walk nx (now - min w max_lookback) now = Some p \<Longrightarrow>
   prev_search nx now w = Some (Some p)"
  by (erule prev_search_cases[of w nx now]) (auto simp: min_def split: if_splits)

lemma every_tick_multiple: "0 < P \<Longrightarrow> every_tick P (P * k) = P * (k + 1)"
  by (simp add: every_tick_def mult.commute)

lemma first_window_tick:
  assumes "minute \<le> P" "P \<le> max_lookback" "zero_time < now"
  shows "first_window (every_tick P) now = max hour (2 * P)"
proof -
  have P: "0 < P" using assms(1) by (simp add: lookback_values)
  let ?a = "every_tick P now"
  have a: "?a = P * (now div P + 1)" by (simp add: every_tick_def mult.commute)
  have "now < ?a" "?a < every_tick P ?a" using every_tick_gt[OF P] by auto
  then have nz: "\<not> is_zero ?a" "\<not> is_zero (every_tick P ?a)" using assms(3) by (auto simp: is_zero_def)
  have "every_tick P ?a - ?a = P"
    unfolding a every_tick_multiple[OF P] by (simp add: algebra_simps)
  then have "time_sub (every_tick P ?a) ?a = P"
    using assms(2) P by (subst time_sub_exact) (auto simp: lookback_values)
  with nz have "estimate_cadence (every_tick P) now = P" by (simp add: estimate_cadence_def Let_def)
  moreover have "wrap64 (2 * P) = 2 * P"
    by (rule wrap64_id) (use assms(2) P in \<open>simp_all add: lookback_values\<close>)
  ultimately show ?thesis by (auto simp: first_window_def Let_def max_def)
qed

lemma prev_run_tick:
  assumes "Parse lib expr tz = Inr s" and "sched_next lib s = every_tick P"
    and "minute \<le> P" "P \<le> max_lookback" "zero_time + max_lookback < now"
  shows "PrevRun lib expr tz now = Inr (P * (now div P))"
proof -
  have zt: "zero_time < now" using assms(5) by (simp add: lookback_values)
  let ?w = "max hour (2 * P)"
  have "P \<le> min ?w max_lookback" using assms(3,4) by (simp add: lookback_values)
  then have "walk (every_tick P) (now - min ?w max_lookback) now = Some (P * (now div P))"
    using assms(3-5) by (intro walk_multiples) auto
  then have "prev_search (every_tick P) now ?w = Some (Some (P * (now div P)))"
    by (rule prev_search_hit [rotated]) (simp add: lookback_values)
  with assms(1,2) first_window_tick[OF assms(3,4) zt] show ?thesis by (simp add: PrevRun_def)
qed

lemma tick_before: "0 < P \<Longrightarrow> P * ((P * k - 1) div P) = P * k - (P :: int)"
proof -
  assume P: "0 < P"
  have "(P * k - 1) div P = k - 1"
  proof (rule antisym)
    have "P * k - 1 < P * k" by simp
    with P show "(P * k - 1) div P \<le> k - 1" by (simp add: floor_less_multiple)
    have "P * (k - 1) \<le> P * k - 1" using P by (simp add: algebra_simps)
    then show "k - 1 \<le> (P * k - 1) div P" by (rule multiple_le_floor[OF P, THEN iffD1])
  qed
  then show ?thesis by (simp only: right_diff_distrib mult_1_right)
qed

text \<open>C1. \<open>PrevRun\<close> always returns: whatever the schedule answers, even one whose cadence
  estimate overflows, the loop over growing windows ends. And for a schedule whose \<open>Next\<close>
  behaves as documented it fails exactly when the last 400 days hold no occurrence, however
  sparse the schedule is. Otherwise it answers with an occurrence of the last 400 days, and with
  the most recent one up to the probe bound: an occurrence after the answer can only exist when
  exactly 2000 occurrences precede the answer in a window that is the first one tried or whose
  most recent quarter is empty.\<close>

theorem prev_run_correct:
  "PrevRun lib expr tz now \<noteq> Inl Diverges
   \<and> (\<forall>s occ. Parse lib expr tz = Inr s \<and> next_ok occ (sched_next lib s) \<and> zero_time + max_lookback < now \<longrightarrow>
       (case PrevRun lib expr tz now of
          Inl e \<Rightarrow> e = No_Occurrence expr 400 \<and> occs occ (now - max_lookback) now = {}
        | Inr p \<Rightarrow> p \<in> occs occ (now - max_lookback) now
            \<and> (occs occ p now = {} \<or> cut_short occ now (first_window (sched_next lib s) now) p)))"
  by (intro conjI allI impI prev_run_ends prev_run_exact) auto

theorem prev_run_correct_witness:
  "Parse (fixed_lib (every_tick hour)) ''0 * * * *'' [] = Inr ()
   \<and> next_ok (\<lambda>u. hour dvd u) (every_tick hour)
   \<and> zero_time + max_lookback < 12 * hour + 30 * minute
   \<and> PrevRun (fixed_lib (every_tick hour)) ''0 * * * *'' [] (12 * hour + 30 * minute) = Inr (12 * hour)
   \<and> (occs (\<lambda>u. hour dvd u) (12 * hour) (12 * hour + 30 * minute) = {}
       \<or> cut_short (\<lambda>u. hour dvd u) (12 * hour + 30 * minute)
           (first_window (every_tick hour) (12 * hour + 30 * minute)) (12 * hour))"
proof -
  let ?now = "12 * hour + 30 * minute" and ?lib = "fixed_lib (every_tick hour)"
  have h: "next_ok (\<lambda>u. hour dvd u) (sched_next ?lib ())" "zero_time + max_lookback < ?now"
    by (simp_all add: every_tick_next_ok lookback_values)
  have p: "PrevRun ?lib ''0 * * * *'' [] ?now = Inr (12 * hour)"
    using prev_run_tick[of ?lib "''0 * * * *''" "[]" "()" hour ?now] by (simp add: lookback_values)
  from prev_run_correct[of ?lib "''0 * * * *''" "[]" ?now, THEN conjunct2, rule_format, OF conjI, OF fixed_lib_simps(1) conjI, OF h] h
  show ?thesis unfolding p by simp
qed

section \<open>The missed-run verdict\<close>

text \<open>What the verdict means for a schedule that fires at every multiple of \<open>P\<close>: the
  occurrence that is judged is the latest one, or the one before it while the latest is
  within the grace period.\<close>

definition due_tick :: "duration \<Rightarrow> gotime \<Rightarrow> gotime" where
  "due_tick P now =
     (let p = P * (now div P) in if now - p \<le> missed_grace then p - P else p)"

lemma is_missed_tick:
  assumes "Parse lib expr tz = Inr s" and "sched_next lib s = every_tick P"
    and "minute \<le> P" "P \<le> max_lookback" "zero_time + 2 * max_lookback < now"
  shows "IsMissed lib expr tz suspended lr now \<longleftrightarrow>
    \<not> suspended \<and>
    (case lr of
       None \<Rightarrow> missed_grace < now - P * (now div P)
     | Some l \<Rightarrow> \<not> lr_running l \<and> lr_started l < due_tick P now)"
proof -
  let ?p = "P * (now div P)"
  have P: "0 < P" using assms(3) by (simp add: lookback_values)
  have near: "now < ?p + P" "?p \<le> now" using floor_gt[OF P] floor_le[OF P] by auto
  have prev: "PrevRun lib expr tz now = Inr ?p"
    using assms by (intro prev_run_tick) (auto simp: lookback_values)
  have "PrevRun lib expr tz (?p - 1) = Inr (P * ((?p - 1) div P))"
    using assms near by (intro prev_run_tick) (auto simp: lookback_values)
  then have earlier: "PrevRun lib expr tz (?p - nanosecond) = Inr (?p - P)"
    using tick_before[OF P] by (simp add: nanosecond_def)
  have grace: "time_sub now ?p \<le> missed_grace \<longleftrightarrow> now - ?p \<le> missed_grace"
    by (rule time_sub_le_iff) (simp_all add: lookback_values)
  show ?thesis
    by (auto simp: IsMissed_def prev earlier grace due_tick_def Let_def split: option.splits)
qed

text \<open>C3. The complete verdict for a spec schedule of period \<open>P\<close> between one minute and the
  look-back: suspended CronJobs are never missed; with no run on record the latest
  occurrence must be older than the grace period; otherwise the last run must be finished
  and older than the occurrence that is judged.\<close>

theorem is_missed_periodic:
  assumes "Parse lib expr tz = Inr s" and "sched_next lib s = every_tick P"
    and "minute \<le> P" "P \<le> max_lookback" "zero_time + 2 * max_lookback < now"
  shows "IsMissed lib expr tz suspended lr now \<longleftrightarrow>
    \<not> suspended \<and>
    (case lr of
       None \<Rightarrow> missed_grace < now - P * (now div P)
     | Some l \<Rightarrow> \<not> lr_running l \<and> lr_started l < due_tick P now)"
  by (rule is_missed_tick[OF assms])

theorem is_missed_periodic_witness:
  "minute \<le> hour \<and> hour \<le> max_lookback \<and> zero_time + 2 * max_lookback < 12 * hour + 30 * minute
   \<and> IsMissed (fixed_lib (every_tick hour)) ''0 * * * *'' [] False
       (Some \<lparr>lr_started = 11 * hour + minute, lr_running = False\<rparr>) (12 * hour + 30 * minute)
   \<and> \<not> IsMissed (fixed_lib (every_tick hour)) ''0 * * * *'' [] False
       (Some \<lparr>lr_started = 12 * hour + minute, lr_running = False\<rparr>) (12 * hour + 30 * minute)"
proof -
  let ?now = "12 * hour + 30 * minute"
  have h: "minute \<le> hour" "hour \<le> max_lookback" "zero_time + 2 * max_lookback < ?now"
    by (simp_all add: lookback_values)
  from h show ?thesis
    using is_missed_periodic[OF fixed_lib_simps(1) fixed_lib_simps(2) h]
    by (simp add: due_tick_def Let_def lookback_values)
qed

lemma missed_sound:
  assumes "IsMissed lib expr tz suspended lr now"
    and "Parse lib expr tz = Inr s" and "next_ok occ (sched_next lib s)"
    and "zero_time + 2 * max_lookback < now"
  shows "\<not> suspended \<and>
    (case lr of
       None \<Rightarrow> \<exists>u. occ u \<and> now - max_lookback < u \<and> missed_grace < now - u
     | Some l \<Rightarrow> \<not> lr_running l \<and> (\<exists>u. occ u \<and> lr_started l < u \<and> u \<le> now))"
proof -
  from assms(1) have ns: "\<not> suspended" by (auto simp: IsMissed_def)
  note prev_occ = prev_run_occ[OF assms(2,3)]
  from assms(1) ns obtain p where p: "PrevRun lib expr tz now = Inr p"
    by (auto simp: IsMissed_def split: sum.splits)
  have "zero_time + max_lookback < now" using assms(4) by (simp add: lookback_values)
  from prev_occ[OF p this] have po: "occ p" "now - max_lookback < p" "p \<le> now" by auto
  have grace: "time_sub now p \<le> missed_grace \<longleftrightarrow> now - p \<le> missed_grace"
    by (rule time_sub_le_iff) (simp_all add: lookback_values)
  show ?thesis
  proof (cases lr)
    case None
    with assms(1) ns p grace po show ?thesis by (auto simp: IsMissed_def split: if_splits)
  next
    case (Some l)
    show ?thesis
    proof (cases "now - p \<le> missed_grace")
      case True
      with assms(1) ns p grace Some obtain e where
        e: "PrevRun lib expr tz (p - nanosecond) = Inr e" "\<not> lr_running l" "lr_started l < e"
        by (auto simp: IsMissed_def split: sum.splits)
      have "zero_time + max_lookback < p - nanosecond"
        using True assms(4) by (simp add: lookback_values nanosecond_def)
      from prev_occ[OF e(1) this] e po(3) ns Some show ?thesis
        by (auto simp: nanosecond_def intro!: exI[of _ e])
    next
      case False
      with assms(1) ns p grace Some po show ?thesis by (auto simp: IsMissed_def)
    qed
  qed
qed

section \<open>Interval schedules\<close>

definition every_delay :: "duration \<Rightarrow> gotime \<Rightarrow> gotime" where
  "every_delay d t = t + d - t mod second"

lemma every_delay_eq: "every_delay d t = trunc_sec t + d"
  by (simp add: every_delay_def trunc_sec_def second_def)

lemma trunc_sec_facts:
  "trunc_sec t \<le> t" "t < trunc_sec t + second" "second dvd k \<Longrightarrow> trunc_sec (t + k) = trunc_sec t + k"
  "second dvd k \<Longrightarrow> trunc_sec (t - k) = trunc_sec t - k" "trunc_sec (trunc_sec t) = trunc_sec t"
proof -
  show "trunc_sec t \<le> t" "t < trunc_sec t + second"
    using pos_mod_bound[of 1000000000 t] by (simp_all add: trunc_sec_def second_def)
  show "second dvd k \<Longrightarrow> trunc_sec (t + k) = trunc_sec t + k"
    by (auto simp: trunc_sec_def second_def)
  show "second dvd k \<Longrightarrow> trunc_sec (t - k) = trunc_sec t - k"
    by (auto simp: trunc_sec_def second_def mod_diff_eq [symmetric] elim!: dvdE)
  show "trunc_sec (trunc_sec t) = trunc_sec t"
    by (simp add: trunc_sec_def minus_mod_eq_mult_div)
qed

lemma walk_delay:
  assumes "second dvd d" "second \<le> d" "zero_time + 2 * d + second < now"
  shows "walk (every_delay d) (now - 2 * d) now = Some (trunc_sec now)"
proof -
  let ?nx = "every_delay d"
  have n1: "?nx (now - 2 * d) = trunc_sec now - d"
    using trunc_sec_facts(4)[of "2 * d" now] assms(1) by (simp add: every_delay_eq)
  have n2: "?nx (trunc_sec now - d) = trunc_sec now"
    using trunc_sec_facts(4)[of d "trunc_sec now"] trunc_sec_facts(5)[of now] assms(1) by (simp add: every_delay_eq)
  have n3: "?nx (trunc_sec now) = trunc_sec now + d"
    using trunc_sec_facts(5)[of now] by (simp add: every_delay_eq)
  have b: "trunc_sec now - d \<le> now" "trunc_sec now \<le> now" "now < trunc_sec now + d"
    "zero_time < trunc_sec now - d"
    using trunc_sec_facts(1,2)[of now] assms(2,3) by (auto simp: second_def)
  show ?thesis using b assms(2)
    by (simp add: walk_def max_probes_def walk_from_step n1 n2 n3 is_zero_def second_def)
qed

lemma prev_run_delay:
  assumes "Parse lib expr tz = Inr s" and "sched_next lib s = every_delay d"
    and "second dvd d" "30 * minute \<le> d" "2 * d \<le> max_lookback"
    and "zero_time + 2 * max_lookback < now"
  shows "PrevRun lib expr tz now = Inr (trunc_sec now)"
proof -
  let ?nx = "every_delay d" and ?a = "trunc_sec now + d"
  have a: "?nx now = ?a" by (simp add: every_delay_eq)
  have b: "?nx ?a = ?a + d"
    using trunc_sec_facts(3)[OF assms(3), of "trunc_sec now"] trunc_sec_facts(5)[of now]
    by (simp add: every_delay_eq)
  have "zero_time < ?a" using trunc_sec_facts(2)[of now] assms(4,6) by (simp add: lookback_values second_def)
  moreover have "time_sub (?a + d) ?a = d"
    using assms(4,5) by (subst time_sub_exact) (auto simp: lookback_values)
  ultimately have "estimate_cadence ?nx now = d"
    using assms(4) by (simp add: estimate_cadence_def Let_def a b is_zero_def lookback_values)
  moreover have "wrap64 (2 * d) = 2 * d"
    by (rule wrap64_id) (use assms(4,5) in \<open>simp_all add: lookback_values\<close>)
  ultimately have fw: "first_window ?nx now = 2 * d"
    using assms(4) by (simp add: first_window_def Let_def lookback_values)
  have "walk ?nx (now - min (2 * d) max_lookback) now = Some (trunc_sec now)"
    using assms by (subst min_absorb1) (auto intro!: walk_delay simp: lookback_values second_def)
  then have "prev_search ?nx now (2 * d) = Some (Some (trunc_sec now))"
    using assms(4) by (intro prev_search_hit) (auto simp: lookback_values)
  with assms(1,2) fw show ?thesis by (simp add: PrevRun_def)
qed

lemma missed_interval:
  assumes "Parse lib expr tz = Inr s" and "sched_next lib s = every_delay d"
    and "second dvd d" "30 * minute \<le> d" "2 * d \<le> max_lookback"
    and "zero_time + 2 * max_lookback + second < now"
  shows "IsMissed lib expr tz False (Some l) now
           \<longleftrightarrow> \<not> lr_running l \<and> lr_started l < trunc_sec now - second"
proof -
  have near: "now < trunc_sec now + second" "trunc_sec now \<le> now" using trunc_sec_facts(1,2) by auto
  have prev: "PrevRun lib expr tz now = Inr (trunc_sec now)"
    using assms by (intro prev_run_delay) (auto simp: second_def)
  have "trunc_sec (trunc_sec now - 1) = trunc_sec now - second"
  proof -
    obtain k where k: "trunc_sec now = 1000000000 * k"
      using minus_mod_eq_mult_div[of now 1000000000] by (auto simp: trunc_sec_def)
    have "trunc_sec t = 1000000000 * (t div 1000000000)" for t
      by (simp add: trunc_sec_def minus_mod_eq_mult_div)
    with k show ?thesis using tick_before[of 1000000000 k] by (simp add: second_def)
  qed
  moreover have "PrevRun lib expr tz (trunc_sec now - 1) = Inr (trunc_sec (trunc_sec now - 1))"
    using assms near by (intro prev_run_delay) (auto simp: second_def)
  ultimately have earlier: "PrevRun lib expr tz (trunc_sec now - nanosecond) = Inr (trunc_sec now - second)"
    by (simp add: nanosecond_def)
  have "time_sub now (trunc_sec now) \<le> missed_grace"
    using near by (subst time_sub_le_iff) (auto simp: lookback_values second_def)
  then show ?thesis by (simp add: IsMissed_def prev earlier)
qed

text \<open>C4. What a verdict of missed is worth. For any schedule whose \<open>Next\<close> behaves as documented
  there is no false alarm: the CronJob is not suspended, no run is in flight, and an occurrence
  has passed that the last recorded run does not reach (one older than the grace period when no
  run is recorded at all). For an interval schedule whose interval is a whole number
  of seconds between half an hour and 200 days (\<open>@every 1h\<close>) it is worth nothing: it has no fixed
  occurrences, \<open>Next\<close> counts from its argument, the first window is two intervals long, so the search
  finds an "occurrence" at the current second and then one at the second before, and a CronJob whose
  last run has finished is reported missed as soon as that run started more than two seconds ago.
  (Nothing is said of shorter intervals, where the window is one hour, nor of longer ones.)\<close>

theorem is_missed_sound:
  assumes "Parse lib expr tz = Inr s" and "zero_time + 2 * max_lookback + second < now"
  shows "(\<forall>occ. next_ok occ (sched_next lib s) \<and> IsMissed lib expr tz suspended lr now \<longrightarrow>
       \<not> suspended \<and>
       (case lr of
          None \<Rightarrow> \<exists>u. occ u \<and> now - max_lookback < u \<and> missed_grace < now - u
        | Some l \<Rightarrow> \<not> lr_running l \<and> (\<exists>u. occ u \<and> lr_started l < u \<and> u \<le> now)))
   \<and> (\<forall>d l. sched_next lib s = every_delay d \<and> second dvd d \<and> 30 * minute \<le> d \<and> 2 * d \<le> max_lookback \<longrightarrow>
       (IsMissed lib expr tz False (Some l) now
          \<longleftrightarrow> \<not> lr_running l \<and> lr_started l < trunc_sec now - second))"
proof (intro conjI allI impI)
  have now: "zero_time + 2 * max_lookback < now" using assms(2) by (simp add: second_def)
  fix occ
  assume "next_ok occ (sched_next lib s) \<and> IsMissed lib expr tz suspended lr now"
  with missed_sound[OF _ assms(1) _ now, of suspended lr occ]
  show "\<not> suspended" "case lr of
      None \<Rightarrow> \<exists>u. occ u \<and> now - max_lookback < u \<and> missed_grace < now - u
    | Some l \<Rightarrow> \<not> lr_running l \<and> (\<exists>u. occ u \<and> lr_started l < u \<and> u \<le> now)" by blast+
next
  fix d l
  assume "sched_next lib s = every_delay d \<and> second dvd d \<and> 30 * minute \<le> d \<and> 2 * d \<le> max_lookback"
  with missed_interval[OF assms(1), of d now l] assms(2)
  show "IsMissed lib expr tz False (Some l) now \<longleftrightarrow> \<not> lr_running l \<and> lr_started l < trunc_sec now - second" by blast
qed

theorem is_missed_sound_witness:
  "(\<exists>u. hour dvd u \<and> 12 * hour + 30 * minute - max_lookback < u \<and> missed_grace < 12 * hour + 30 * minute - u)
   \<and> IsMissed (fixed_lib (every_delay hour)) ''@every 1h'' [] False
       (Some \<lparr>lr_started = 12 * hour - 3 * second, lr_running = False\<rparr>) (12 * hour)"
proof
  let ?now = "12 * hour + 30 * minute" and ?lib = "fixed_lib (every_tick hour)"
  have h: "minute \<le> hour" "hour \<le> max_lookback" "zero_time + 2 * max_lookback < ?now"
    "zero_time + 2 * max_lookback + second < ?now"
    by (simp_all add: lookback_values second_def)
  have m: "IsMissed ?lib ''0 * * * *'' [] False None ?now"
    using is_missed_tick[OF fixed_lib_simps(1) fixed_lib_simps(2) h(1-3)] by (simp add: lookback_values)
  have "next_ok (\<lambda>u. hour dvd u) (sched_next ?lib ())"
    by (simp add: every_tick_next_ok lookback_values)
  note sound = is_missed_sound[where lib = ?lib and expr = "''0 * * * *''" and tz = "[]" and lr = None and suspended = False,
      OF fixed_lib_simps(1) h(4), THEN conjunct1, rule_format, OF conjI, OF this m]
  from sound[THEN conjunct2] show "\<exists>u. hour dvd u \<and> ?now - max_lookback < u \<and> missed_grace < ?now - u"
    by (simp only: option.case(1))
next
  have h: "second dvd hour" "30 * minute \<le> hour" "2 * hour \<le> max_lookback"
    "zero_time + 2 * max_lookback + second < 12 * hour"
    by (simp_all add: lookback_values second_def)
  from h is_missed_sound[where lib = "fixed_lib (every_delay hour)" and expr = "''@every 1h''" and tz = "[]",
      OF fixed_lib_simps(1) h(4)]
  show "IsMissed (fixed_lib (every_delay hour)) ''@every 1h'' [] False
      (Some \<lparr>lr_started = 12 * hour - 3 * second, lr_running = False\<rparr>) (12 * hour)"
    by (simp add: lookback_values second_def trunc_sec_def)
qed

end
