(* ===== verification/Broadcaster.thy ===== *)
theory Broadcaster
  imports Kube_Prelude
begin

text \<open>
  The model of \<open>internal/streamer/broadcaster.go\<close>. Channels live in a heap (a list indexed
  by address) because a channel is shared: the subscriber holds the same channel as the
  table of subscribers. Every operation holds the mutex for its whole body, so a concurrent
  execution is a sequence of whole operations. Go's two channel panics, a send on a closed
  channel and a close of a closed channel, are the error values.

  \<open>fanout\<close> is the interface the log streamer relies on; it is interpreted on this model at
  the end of the theory.
\<close>

section \<open>Channels and the table of subscribers\<close>

definition chan_buffer_size :: nat where "chan_buffer_size = 64"

record channel =
  ch_buf :: "string list"
  ch_closed :: bool

record broadcaster =
  bc_chans :: "channel list"
  bc_subs :: "string \<rightharpoonup> nat list"

datatype chan_panic = Send_On_Closed nat | Close_Of_Closed nat

definition new_broadcaster :: broadcaster where
  "new_broadcaster = \<lparr>bc_chans = [], bc_subs = Map.empty\<rparr>"

text \<open>Reading a missing key of a Go map of slices gives the nil slice.\<close>

definition subs_of :: "broadcaster \<Rightarrow> string \<Rightarrow> nat list" where
  "subs_of b r = (case bc_subs b r of None \<Rightarrow> [] | Some l \<Rightarrow> l)"

definition close_chan :: "channel list \<Rightarrow> nat \<Rightarrow> chan_panic + channel list" where
  "close_chan cs a =
     (if ch_closed (cs ! a) then Inl (Close_Of_Closed a)
      else Inr (cs[a := (cs ! a)\<lparr>ch_closed := True\<rparr>]))"

text \<open>\<open>select { case ch <- line: default: }\<close>: the line is dropped when the buffer is full.\<close>

definition try_send :: "channel list \<Rightarrow> nat \<Rightarrow> string \<Rightarrow> chan_panic + channel list" where
  "try_send cs a line =
     (if ch_closed (cs ! a) then Inl (Send_On_Closed a)
      else if length (ch_buf (cs ! a)) < chan_buffer_size
      then Inr (cs[a := (cs ! a)\<lparr>ch_buf := ch_buf (cs ! a) @ [line]\<rparr>])
      else Inr cs)"

section \<open>Operations\<close>

text \<open>\<open>Subscribe\<close> returns the new channel; its address, with the run, is also what the
  \<open>unsub\<close> closure captures.\<close>

definition Subscribe :: "broadcaster \<Rightarrow> string \<Rightarrow> broadcaster \<times> nat" where
  "Subscribe b r =
     (let a = length (bc_chans b) in
      (\<lparr>bc_chans = bc_chans b @ [\<lparr>ch_buf = [], ch_closed = False\<rparr>],
        bc_subs = (bc_subs b)(r \<mapsto> subs_of b r @ [a])\<rparr>, a))"

definition drop_empty :: "broadcaster \<Rightarrow> string \<Rightarrow> broadcaster" where
  "drop_empty b r = (if subs_of b r = [] then b\<lparr>bc_subs := (bc_subs b)(r := None)\<rparr> else b)"

definition unsub :: "broadcaster \<Rightarrow> string \<Rightarrow> nat \<Rightarrow> chan_panic + broadcaster" where
  "unsub b r a =
     (if a \<in> set (subs_of b r) then
        case close_chan (bc_chans b) a of
          Inl e \<Rightarrow> Inl e
        | Inr cs \<Rightarrow>
            Inr (drop_empty (b\<lparr>bc_subs := (bc_subs b)(r \<mapsto> remove1 a (subs_of b r)), bc_chans := cs\<rparr>) r)
      else Inr (drop_empty b r))"

fun send_all :: "channel list \<Rightarrow> nat list \<Rightarrow> string \<Rightarrow> chan_panic + channel list" where
  "send_all cs [] line = Inr cs"
| "send_all cs (a # as) line =
     (case try_send cs a line of Inl e \<Rightarrow> Inl e | Inr cs' \<Rightarrow> send_all cs' as line)"

definition Publish :: "broadcaster \<Rightarrow> string \<Rightarrow> string \<Rightarrow> chan_panic + broadcaster" where
  "Publish b r line =
     (case send_all (bc_chans b) (subs_of b r) line of
        Inl e \<Rightarrow> Inl e
      | Inr cs \<Rightarrow> Inr (b\<lparr>bc_chans := cs\<rparr>))"

fun close_all :: "channel list \<Rightarrow> nat list \<Rightarrow> chan_panic + channel list" where
  "close_all cs [] = Inr cs"
| "close_all cs (a # as) =
     (case close_chan cs a of Inl e \<Rightarrow> Inl e | Inr cs' \<Rightarrow> close_all cs' as)"

definition Close_run :: "broadcaster \<Rightarrow> string \<Rightarrow> chan_panic + broadcaster" where
  "Close_run b r =
     (case close_all (bc_chans b) (subs_of b r) of
        Inl e \<Rightarrow> Inl e
      | Inr cs \<Rightarrow> Inr \<lparr>bc_chans = cs, bc_subs = (bc_subs b)(r := None)\<rparr>)"

definition IsActive :: "broadcaster \<Rightarrow> string \<Rightarrow> bool" where
  "IsActive b r \<longleftrightarrow> 0 < length (subs_of b r)"

text \<open>A receive by the subscriber: a buffered line, or the news that the channel is closed;
  otherwise it blocks and the state does not change.\<close>

datatype received = Line string | Closed | Blocked

definition receive :: "broadcaster \<Rightarrow> nat \<Rightarrow> broadcaster \<times> received" where
  "receive b a =
     (case ch_buf (bc_chans b ! a) of
        l # ls \<Rightarrow> (b\<lparr>bc_chans := (bc_chans b)[a := (bc_chans b ! a)\<lparr>ch_buf := ls\<rparr>]\<rparr>, Line l)
      | [] \<Rightarrow> (b, if ch_closed (bc_chans b ! a) then Closed else Blocked))"

section \<open>Invariant\<close>

definition bc_ok :: "broadcaster \<Rightarrow> bool" where
  "bc_ok b \<longleftrightarrow>
     (\<forall>r. distinct (subs_of b r)) \<and>
     (\<forall>r. \<forall>a \<in> set (subs_of b r). a < length (bc_chans b) \<and> \<not> ch_closed (bc_chans b ! a)) \<and>
     (\<forall>r r' a. a \<in> set (subs_of b r) \<longrightarrow> a \<in> set (subs_of b r') \<longrightarrow> r = r') \<and>
     (\<forall>c \<in> set (bc_chans b). length (ch_buf c) \<le> chan_buffer_size)"

lemma bc_ok_new: "bc_ok new_broadcaster"
  by (simp add: bc_ok_def new_broadcaster_def subs_of_def)

lemma subs_of_upd [simp]:
  "subs_of (b\<lparr>bc_chans := cs\<rparr>) r = subs_of b r"
  "subs_of \<lparr>bc_chans = cs, bc_subs = m(r' \<mapsto> l)\<rparr> r
     = (if r = r' then l else subs_of \<lparr>bc_chans = cs, bc_subs = m\<rparr> r)"
  "subs_of \<lparr>bc_chans = cs, bc_subs = m(r' := None)\<rparr> r
     = (if r = r' then [] else subs_of \<lparr>bc_chans = cs, bc_subs = m\<rparr> r)"
  "subs_of \<lparr>bc_chans = cs, bc_subs = bc_subs b\<rparr> r = subs_of b r"
  by (simp_all add: subs_of_def)

lemma subs_of_upd2 [simp]:
  "subs_of (b\<lparr>bc_subs := (bc_subs b)(r' \<mapsto> l)\<rparr>) r = (if r = r' then l else subs_of b r)"
  "subs_of (b\<lparr>bc_subs := (bc_subs b)(r' := None)\<rparr>) r = (if r = r' then [] else subs_of b r)"
  "subs_of (b\<lparr>bc_chans := cs, bc_subs := (bc_subs b)(r' \<mapsto> l)\<rparr>) r
     = (if r = r' then l else subs_of b r)"
  by (simp_all add: subs_of_def)

lemma drop_empty_simps [simp]:
  "bc_chans (drop_empty b r) = bc_chans b" "subs_of (drop_empty b r) r' = subs_of b r'"
  by (auto simp: drop_empty_def)

lemma bc_ok_cong:
  "bc_chans b = bc_chans b' \<Longrightarrow> (\<And>r. subs_of b r = subs_of b' r) \<Longrightarrow> bc_ok b = bc_ok b'"
  by (simp add: bc_ok_def)

lemma bc_ok_drop_empty [simp]: "bc_ok (drop_empty b r) = bc_ok b"
  by (rule bc_ok_cong) simp_all

lemma bc_ok_Subscribe: "bc_ok b \<Longrightarrow> bc_ok (fst (Subscribe b r))"
  by (auto simp: bc_ok_def Subscribe_def Let_def nth_append intro: less_SucI)

text \<open>The sends of one \<open>Publish\<close>: nothing panics while the subscribers are open and
  distinct, and each subscriber with room gets the line.\<close>

definition deliver :: "channel \<Rightarrow> string \<Rightarrow> channel" where
  "deliver c line =
     (if length (ch_buf c) < chan_buffer_size then c\<lparr>ch_buf := ch_buf c @ [line]\<rparr> else c)"

lemma deliver_closed [simp]: "ch_closed (deliver c line) = ch_closed c"
  by (simp add: deliver_def)

lemma send_all_effect:
  assumes "distinct as" "\<forall>a \<in> set as. a < length cs \<and> \<not> ch_closed (cs ! a)"
  shows "\<exists>cs'. send_all cs as line = Inr cs' \<and> length cs' = length cs
    \<and> (\<forall>i < length cs. cs' ! i = (if i \<in> set as then deliver (cs ! i) line else cs ! i))"
  using assms
proof (induction as arbitrary: cs)
  case Nil
  then show ?case by simp
next
  case (Cons a as)
  let ?cs = "cs[a := deliver (cs ! a) line]"
  have t: "try_send cs a line = Inr ?cs"
    using Cons.prems by (auto simp: try_send_def deliver_def)
  have "\<forall>x \<in> set as. x < length ?cs \<and> \<not> ch_closed (?cs ! x)"
    using Cons.prems by (auto simp: nth_list_update)
  with Cons.IH[of ?cs] Cons.prems(1) obtain cs' where
    "send_all ?cs as line = Inr cs'" "length cs' = length ?cs"
    "\<forall>i < length ?cs. cs' ! i = (if i \<in> set as then deliver (?cs ! i) line else ?cs ! i)" by auto
  with t Cons.prems show ?case by (auto simp: nth_list_update)
qed

lemma close_all_effect:
  assumes "distinct as" "\<forall>a \<in> set as. a < length cs \<and> \<not> ch_closed (cs ! a)"
  shows "\<exists>cs'. close_all cs as = Inr cs' \<and> length cs' = length cs
    \<and> (\<forall>i < length cs. cs' ! i = (if i \<in> set as then (cs ! i)\<lparr>ch_closed := True\<rparr> else cs ! i))"
  using assms
proof (induction as arbitrary: cs)
  case Nil
  then show ?case by simp
next
  case (Cons a as)
  let ?cs = "cs[a := (cs ! a)\<lparr>ch_closed := True\<rparr>]"
  have t: "close_chan cs a = Inr ?cs" using Cons.prems by (simp add: close_chan_def)
  have "\<forall>x \<in> set as. x < length ?cs \<and> \<not> ch_closed (?cs ! x)"
    using Cons.prems by (auto simp: nth_list_update)
  with Cons.IH[of ?cs] Cons.prems(1) obtain cs' where
    "close_all ?cs as = Inr cs'" "length cs' = length ?cs"
    "\<forall>i < length ?cs. cs' ! i = (if i \<in> set as then (?cs ! i)\<lparr>ch_closed := True\<rparr> else ?cs ! i)"
    by auto
  with t Cons.prems show ?case by (auto simp: nth_list_update)
qed

lemma bc_okD:
  assumes "bc_ok b"
  shows "distinct (subs_of b r)"
    and "a \<in> set (subs_of b r) \<Longrightarrow> a < length (bc_chans b)"
    and "a \<in> set (subs_of b r) \<Longrightarrow> \<not> ch_closed (bc_chans b ! a)"
    and "a \<in> set (subs_of b r) \<Longrightarrow> a \<in> set (subs_of b r') \<Longrightarrow> r = r'"
    and "a < length (bc_chans b) \<Longrightarrow> length (ch_buf (bc_chans b ! a)) \<le> chan_buffer_size"
  using assms by (auto simp: bc_ok_def)

text \<open>Updating channels in place keeps the invariant when buffers stay bounded and the
  channels that remain subscribed stay open.\<close>

lemma bc_ok_chans:
  assumes "bc_ok b" "length cs = length (bc_chans b)"
    and "\<And>i. i < length cs \<Longrightarrow> length (ch_buf (cs ! i)) \<le> chan_buffer_size"
    and "bc_chans b' = cs"
    and "\<And>r. set (subs_of b' r) \<subseteq> set (subs_of b r)" "\<And>r. distinct (subs_of b' r)"
    and "\<And>r i. i \<in> set (subs_of b' r) \<Longrightarrow> \<not> ch_closed (cs ! i)"
  shows "bc_ok b'"
proof -
  have "\<forall>c \<in> set cs. length (ch_buf c) \<le> chan_buffer_size"
    using assms(3) by (auto simp: in_set_conv_nth)
  moreover have "a \<in> set (subs_of b' r) \<Longrightarrow> a < length cs" for a r
    using bc_okD(2)[OF assms(1)] assms(2,5) by (metis subsetD)
  moreover have "a \<in> set (subs_of b' r) \<Longrightarrow> a \<in> set (subs_of b' r') \<Longrightarrow> r = r'" for a r r'
    using bc_okD(4)[OF assms(1)] assms(5) by (meson subsetD)
  ultimately show ?thesis using assms(4,6,7) by (auto simp: bc_ok_def)
qed

lemma Publish_effect:
  assumes "bc_ok b"
  shows "\<exists>b'. Publish b r line = Inr b' \<and> bc_ok b' \<and> bc_subs b' = bc_subs b
    \<and> length (bc_chans b') = length (bc_chans b)
    \<and> (\<forall>i < length (bc_chans b). bc_chans b' ! i =
         (if i \<in> set (subs_of b r) then deliver (bc_chans b ! i) line else bc_chans b ! i))"
proof -
  obtain cs where cs: "send_all (bc_chans b) (subs_of b r) line = Inr cs"
    "length cs = length (bc_chans b)"
    "\<forall>i < length (bc_chans b). cs ! i =
       (if i \<in> set (subs_of b r) then deliver (bc_chans b ! i) line else bc_chans b ! i)"
    using send_all_effect[of "subs_of b r" "bc_chans b" line] bc_okD[OF assms] by blast
  let ?b = "b\<lparr>bc_chans := cs\<rparr>"
  have bound: "length (ch_buf (cs ! i)) \<le> chan_buffer_size" if "i < length cs" for i
    using cs that bc_okD(5)[OF assms, of i] by (auto simp: deliver_def)
  have "bc_ok ?b"
    by (rule bc_ok_chans[OF assms cs(2) bound])
      (use cs bc_okD[OF assms] in \<open>auto\<close>)
  with cs show ?thesis by (simp add: Publish_def)
qed

lemma Close_run_effect:
  assumes "bc_ok b"
  shows "\<exists>b'. Close_run b r = Inr b' \<and> bc_ok b' \<and> \<not> IsActive b' r
    \<and> (\<forall>r'. r' \<noteq> r \<longrightarrow> subs_of b' r' = subs_of b r')
    \<and> (\<forall>i < length (bc_chans b). bc_chans b' ! i =
         (if i \<in> set (subs_of b r) then (bc_chans b ! i)\<lparr>ch_closed := True\<rparr> else bc_chans b ! i))"
proof -
  obtain cs where cs: "close_all (bc_chans b) (subs_of b r) = Inr cs"
    "length cs = length (bc_chans b)"
    "\<forall>i < length (bc_chans b). cs ! i =
       (if i \<in> set (subs_of b r) then (bc_chans b ! i)\<lparr>ch_closed := True\<rparr> else bc_chans b ! i)"
    using close_all_effect[of "subs_of b r" "bc_chans b"] bc_okD[OF assms] by blast
  let ?b = "\<lparr>bc_chans = cs, bc_subs = (bc_subs b)(r := None)\<rparr>"
  have bound: "length (ch_buf (cs ! i)) \<le> chan_buffer_size" if "i < length cs" for i
    using cs that bc_okD(5)[OF assms, of i] by auto
  have "bc_ok ?b"
    by (rule bc_ok_chans[OF assms cs(2) bound])
      (use cs bc_okD[OF assms] in \<open>auto split: if_splits\<close>)
  with cs show ?thesis by (simp add: Close_run_def IsActive_def)
qed

lemma unsub_effect:
  assumes "bc_ok b"
  shows "\<exists>b'. unsub b r a = Inr b' \<and> bc_ok b' \<and> a \<notin> set (subs_of b' r)
    \<and> (\<forall>r'. r' \<noteq> r \<longrightarrow> subs_of b' r' = subs_of b r')
    \<and> subs_of b' r = remove1 a (subs_of b r)"
proof (cases "a \<in> set (subs_of b r)")
  case False
  then show ?thesis using assms by (simp add: unsub_def remove1_idem)
next
  case True
  note ok = bc_okD[OF assms]
  let ?cs = "(bc_chans b)[a := (bc_chans b ! a)\<lparr>ch_closed := True\<rparr>]"
  let ?b = "b\<lparr>bc_subs := (bc_subs b)(r \<mapsto> remove1 a (subs_of b r)), bc_chans := ?cs\<rparr>"
  have a: "a < length (bc_chans b)" using True ok(2) by blast
  have bound: "length (ch_buf (?cs ! i)) \<le> chan_buffer_size" if "i < length ?cs" for i
    using that ok(5)[of i] a by (auto simp: nth_list_update)
  have gone: "a \<notin> set (remove1 a (subs_of b r))" using ok(1) by (simp add: set_remove1_eq)
  have "bc_ok ?b"
  proof (rule bc_ok_chans[OF assms _ bound])
    fix r' i assume i: "i \<in> set (subs_of ?b r')"
    have "i \<noteq> a"
    proof (cases "r' = r")
      case True
      with i gone show ?thesis by auto
    next
      case False
      with i have "i \<in> set (subs_of b r')" by simp
      with False ok(4)[OF True, of r'] show ?thesis by auto
    qed
    moreover have "i \<in> set (subs_of b r')"
      using i set_remove1_subset[of a "subs_of b r"] by (cases "r' = r") auto
    ultimately show "\<not> ch_closed (?cs ! i)" using ok(3) by simp
  next
    fix r' show "set (subs_of ?b r') \<subseteq> set (subs_of b r')" by (simp add: set_remove1_subset)
    show "distinct (subs_of ?b r')" using ok(1) by (simp add: distinct_remove1)
  qed simp_all
  moreover have "unsub b r a = Inr (drop_empty ?b r)"
    using True ok(3) by (simp add: unsub_def close_chan_def)
  ultimately show ?thesis using gone by simp
qed

lemma receive_ok: "bc_ok b \<Longrightarrow> a < length (bc_chans b) \<Longrightarrow> bc_ok (fst (receive b a))"
proof -
  assume b: "bc_ok b" and a: "a < length (bc_chans b)"
  show ?thesis
  proof (cases "ch_buf (bc_chans b ! a)")
    case Nil
    with b show ?thesis by (simp add: receive_def)
  next
    case (Cons l ls)
    let ?cs = "(bc_chans b)[a := (bc_chans b ! a)\<lparr>ch_buf := ls\<rparr>]"
    have bound: "length (ch_buf (?cs ! i)) \<le> chan_buffer_size" if "i < length ?cs" for i
      using that bc_okD(5)[OF b, of i] a Cons by (auto simp: nth_list_update)
    have "bc_ok (b\<lparr>bc_chans := ?cs\<rparr>)"
      by (rule bc_ok_chans[OF b _ bound])
        (use bc_okD[OF b] a in \<open>auto simp: nth_list_update\<close>)
    with Cons show ?thesis by (simp add: receive_def)
  qed
qed

section \<open>The interface of the log streamer, and its interpretation\<close>

text \<open>What the log streamer needs to know of a fan-out: publishing a line to a run never
  fails, and appends the line to the inbox of each subscriber that has room.\<close>

locale fanout =
  fixes ok :: "'b \<Rightarrow> bool"
    and subscribed :: "'b \<Rightarrow> string \<Rightarrow> nat set"
    and inbox :: "'b \<Rightarrow> nat \<Rightarrow> string list"
    and publish :: "'b \<Rightarrow> string \<Rightarrow> string \<Rightarrow> 'p + 'b"
    and cap :: nat
  assumes publish_total: "ok b \<Longrightarrow> \<exists>b'. publish b r l = Inr b'"
    and publish_ok: "ok b \<Longrightarrow> publish b r l = Inr b' \<Longrightarrow> ok b'"
    and publish_subs: "ok b \<Longrightarrow> publish b r l = Inr b' \<Longrightarrow> subscribed b' q = subscribed b q"
    and publish_inbox: "ok b \<Longrightarrow> publish b r l = Inr b' \<Longrightarrow>
      inbox b' a = (if a \<in> subscribed b r \<and> length (inbox b a) < cap
                    then inbox b a @ [l] else inbox b a)"

text \<open>The loop that publishes a flushed batch, over any fan-out.\<close>

fun publish_lines :: "('b \<Rightarrow> string \<Rightarrow> string \<Rightarrow> 'p + 'b) \<Rightarrow> 'b \<Rightarrow> string \<Rightarrow> string list \<Rightarrow> 'p + 'b" where
  "publish_lines pub b r [] = Inr b"
| "publish_lines pub b r (l # ls) =
     (case pub b r l of Inl e \<Rightarrow> Inl e | Inr b' \<Rightarrow> publish_lines pub b' r ls)"

context fanout begin

lemma publish_lines_effect:
  "ok b \<Longrightarrow> \<exists>b'. publish_lines publish b r ls = Inr b' \<and> ok b'
     \<and> (\<forall>q. subscribed b' q = subscribed b q)
     \<and> (\<forall>a. inbox b' a = (if a \<in> subscribed b r
                        then inbox b a @ take (cap - length (inbox b a)) ls else inbox b a))"
proof (induction ls arbitrary: b)
  case Nil
  then show ?case by simp
next
  case (Cons l ls)
  obtain b1 where b1: "publish b r l = Inr b1" using publish_total[OF Cons.prems] by blast
  note e = publish_ok[OF Cons.prems b1] publish_subs[OF Cons.prems b1] publish_inbox[OF Cons.prems b1]
  from Cons.IH[OF e(1)] obtain b' where
    b': "publish_lines publish b1 r ls = Inr b'" "ok b'" "\<forall>q. subscribed b' q = subscribed b1 q"
    "\<forall>a. inbox b' a = (if a \<in> subscribed b1 r
       then inbox b1 a @ take (cap - length (inbox b1 a)) ls else inbox b1 a)" by blast
  have "inbox b' a = (if a \<in> subscribed b r
      then inbox b a @ take (cap - length (inbox b a)) (l # ls) else inbox b a)" for a
  proof (cases "length (inbox b a) < cap")
    case True
    then have "cap - length (inbox b a) = Suc (cap - Suc (length (inbox b a)))" by simp
    with True b'(4) e(2,3) show ?thesis by simp
  next
    case False
    with b'(4) e(2,3) show ?thesis by simp
  qed
  with b1 b' e(2) show ?case by simp
qed

end

definition inbox_of :: "broadcaster \<Rightarrow> nat \<Rightarrow> string list" where
  "inbox_of b a = (if a < length (bc_chans b) then ch_buf (bc_chans b ! a) else [])"

lemma Publish_InrD:
  assumes "bc_ok b" "Publish b r line = Inr b'"
  shows "bc_ok b'" and "bc_subs b' = bc_subs b" and "length (bc_chans b') = length (bc_chans b)"
    and "i < length (bc_chans b) \<Longrightarrow> bc_chans b' ! i =
         (if i \<in> set (subs_of b r) then deliver (bc_chans b ! i) line else bc_chans b ! i)"
  using Publish_effect[OF assms(1), of r line] assms(2) by auto

interpretation bc: fanout bc_ok "\<lambda>b r. set (subs_of b r)" inbox_of Publish chan_buffer_size
proof unfold_locales
  fix b r l assume "bc_ok b"
  then show "\<exists>b'. Publish b r l = Inr b'" using Publish_effect by blast
next
  fix b r l b' assume a: "bc_ok b" "Publish b r l = Inr b'"
  note e = Publish_InrD[OF a]
  show "bc_ok b'" by (rule e(1))
  show "set (subs_of b' q) = set (subs_of b q)" for q using e(2) by (simp add: subs_of_def)
  show "inbox_of b' x = (if x \<in> set (subs_of b r) \<and> length (inbox_of b x) < chan_buffer_size
      then inbox_of b x @ [l] else inbox_of b x)" for x
    using e(3,4) bc_okD(2)[OF a(1)] by (auto simp: inbox_of_def deliver_def)
qed

section \<open>Executions\<close>

text \<open>Everything a program can do with a broadcaster: \<open>handed\<close> is the set of \<open>unsub\<close>
  closures given out so far, each usable any number of times, before or after the run has
  been closed.\<close>

datatype bc_event =
    Ev_Subscribe string
  | Ev_Unsub string nat
  | Ev_Publish string string
  | Ev_Close string
  | Ev_Receive nat

fun bc_exec :: "broadcaster \<Rightarrow> bc_event \<Rightarrow> chan_panic + broadcaster" where
  "bc_exec b (Ev_Subscribe r) = Inr (fst (Subscribe b r))"
| "bc_exec b (Ev_Unsub r a) = unsub b r a"
| "bc_exec b (Ev_Publish r l) = Publish b r l"
| "bc_exec b (Ev_Close r) = Close_run b r"
| "bc_exec b (Ev_Receive a) = Inr (fst (receive b a))"

definition enabled :: "broadcaster \<Rightarrow> bc_event \<Rightarrow> bool" where
  "enabled b e = (case e of
       Ev_Unsub r a \<Rightarrow> a < length (bc_chans b)
     | Ev_Receive a \<Rightarrow> a < length (bc_chans b)
     | _ \<Rightarrow> True)"

inductive bc_reachable :: "broadcaster \<Rightarrow> bool" where
  bc_start: "bc_reachable new_broadcaster"
| bc_step: "bc_reachable b \<Longrightarrow> enabled b e \<Longrightarrow> bc_exec b e = Inr b' \<Longrightarrow> bc_reachable b'"

lemma bc_exec_ok:
  assumes "bc_ok b" "enabled b e"
  shows "\<exists>b'. bc_exec b e = Inr b' \<and> bc_ok b'"
proof (cases e)
  case (Ev_Subscribe r)
  then show ?thesis using bc_ok_Subscribe[OF assms(1)] by simp
next
  case (Ev_Unsub r a)
  then show ?thesis using unsub_effect[OF assms(1), of r a] by auto
next
  case (Ev_Publish r l)
  then show ?thesis using Publish_effect[OF assms(1), of r l] by auto
next
  case (Ev_Close r)
  then show ?thesis using Close_run_effect[OF assms(1), of r] by auto
next
  case (Ev_Receive a)
  then show ?thesis using receive_ok[OF assms(1)] assms(2) by (simp add: enabled_def)
qed

lemma bc_reachable_ok: "bc_reachable b \<Longrightarrow> bc_ok b"
proof (induction rule: bc_reachable.induct)
  case bc_start
  show ?case by (rule bc_ok_new)
next
  case (bc_step b e b')
  then show ?case using bc_exec_ok by fastforce
qed

text \<open>C6. No execution of subscribes, unsubscribes (repeated ones and ones after \<open>Close\<close>
  included), publishes, closes and receives ever panics: no send on a closed channel, no
  channel closed twice.\<close>

theorem broadcaster_never_panics:
  assumes "bc_reachable b" and "enabled b e"
  shows "\<exists>b'. bc_exec b e = Inr b' \<and> bc_reachable b'"
  using bc_exec_ok[OF bc_reachable_ok[OF assms(1)] assms(2)] bc_step[OF assms] by blast

lemma burst_delivered:
  assumes "bc_reachable b"
  shows "\<exists>b'. publish_lines Publish b r ls = Inr b'
     \<and> (\<forall>q. set (subs_of b' q) = set (subs_of b q))
     \<and> (\<forall>a. inbox_of b' a =
           (if a \<in> set (subs_of b r) then inbox_of b a @ take (64 - length (inbox_of b a)) ls
            else inbox_of b a))"
  using bc.publish_lines_effect[OF bc_reachable_ok[OF assms], of r ls]
  by (auto simp: chan_buffer_size_def)

lemma close_ends_run:
  assumes "bc_reachable b"
  shows "\<exists>b'. Close_run b r = Inr b' \<and> \<not> IsActive b' r
     \<and> Publish b' r line = Inr b'
     \<and> (\<forall>q. q \<noteq> r \<longrightarrow> subs_of b' q = subs_of b q)
     \<and> (\<forall>a \<in> set (subs_of b r). bc_chans b' ! a = (bc_chans b ! a)\<lparr>ch_closed := True\<rparr>)"
proof -
  note ok = bc_reachable_ok[OF assms]
  from Close_run_effect[OF ok, of r] obtain b' where b': "Close_run b r = Inr b'" "\<not> IsActive b' r"
    "\<forall>r'. r' \<noteq> r \<longrightarrow> subs_of b' r' = subs_of b r'"
    "\<forall>i < length (bc_chans b). bc_chans b' ! i =
       (if i \<in> set (subs_of b r) then (bc_chans b ! i)\<lparr>ch_closed := True\<rparr> else bc_chans b ! i)"
    by blast
  from b'(2) have "Publish b' r line = Inr b'" by (simp add: Publish_def IsActive_def)
  with b' bc_okD(2)[OF ok] show ?thesis by auto
qed

text \<open>C7. What a burst of lines and a close do to a reachable broadcaster: every subscriber of
  the run gets, in order, as many of the lines as its 64-line buffer has room for, everybody
  else's buffer is untouched and nobody is unsubscribed; closing the run closes its
  subscribers' channels with their unread lines kept, later publishes to the run change
  nothing, and other runs are untouched.\<close>

theorem lines_until_closed:
  assumes "bc_reachable b"
  shows "(\<exists>b'. publish_lines Publish b r ls = Inr b'
      \<and> (\<forall>q. set (subs_of b' q) = set (subs_of b q))
      \<and> (\<forall>a. inbox_of b' a =
            (if a \<in> set (subs_of b r) then inbox_of b a @ take (64 - length (inbox_of b a)) ls
             else inbox_of b a)))
    \<and> (\<exists>b'. Close_run b r = Inr b' \<and> \<not> IsActive b' r
      \<and> Publish b' r line = Inr b'
      \<and> (\<forall>q. q \<noteq> r \<longrightarrow> subs_of b' q = subs_of b q)
      \<and> (\<forall>a \<in> set (subs_of b r). bc_chans b' ! a = (bc_chans b ! a)\<lparr>ch_closed := True\<rparr>))"
  by (rule conjI[OF burst_delivered[OF assms] close_ends_run[OF assms]])

text \<open>Witnesses: one run, one subscriber, then a publish.\<close>

lemma one_subscriber: "bc_reachable (fst (Subscribe new_broadcaster ''r1''))"
  by (rule bc_step[OF bc_start, of "Ev_Subscribe ''r1''"]) (simp_all add: enabled_def)

lemma one_subscriber_state:
  "fst (Subscribe new_broadcaster ''r1'')
     = \<lparr>bc_chans = [\<lparr>ch_buf = [], ch_closed = False\<rparr>], bc_subs = [''r1'' \<mapsto> [0]]\<rparr>"
  by (simp add: Subscribe_def new_broadcaster_def subs_of_def Let_def)

theorem broadcaster_never_panics_witness:
  "\<exists>b'. bc_exec (fst (Subscribe new_broadcaster ''r1'')) (Ev_Unsub ''r1'' 0) = Inr b' \<and> bc_reachable b'"
  by (rule broadcaster_never_panics[OF one_subscriber]) (simp add: enabled_def one_subscriber_state)

theorem lines_until_closed_witness:
  "(\<exists>b'. publish_lines Publish (fst (Subscribe new_broadcaster ''r1'')) ''r1'' [''a'', ''b''] = Inr b'
      \<and> inbox_of b' 0 = [''a'', ''b''])
   \<and> (\<exists>b'. Close_run (fst (Subscribe new_broadcaster ''r1'')) ''r1'' = Inr b'
      \<and> \<not> IsActive b' ''r1'' \<and> ch_closed (bc_chans b' ! 0))"
proof -
  let ?b = "fst (Subscribe new_broadcaster ''r1'')"
  have s: "inbox_of ?b 0 = []" "0 \<in> set (subs_of ?b ''r1'')"
    by (simp_all add: one_subscriber_state subs_of_def inbox_of_def)
  note r = lines_until_closed[OF one_subscriber, of "''r1''" "[''a'', ''b'']" "''x''"]
  show ?thesis
  proof
    show "\<exists>b'. publish_lines Publish ?b ''r1'' [''a'', ''b''] = Inr b' \<and> inbox_of b' 0 = [''a'', ''b'']"
      using r[THEN conjunct1] s by (fastforce simp del: publish_lines.simps)
    show "\<exists>b'. Close_run ?b ''r1'' = Inr b' \<and> \<not> IsActive b' ''r1'' \<and> ch_closed (bc_chans b' ! 0)"
      using r[THEN conjunct2] s by auto
  qed
qed

end
