(* ===== verification/Store_Types.thy ===== *)
theory Store_Types
  imports Kube_Prelude
begin

text \<open>
  The data of \<open>internal/storage/models.go\<close> and the tables of \<open>migrations/\<close>.

  A record field of type \<open>option\<close> is a Go pointer, \<open>None\<close> being \<open>nil\<close>; in a table row it is
  a nullable column. The records are at once the Go structs and the rows of the tables
  (the columns are scanned into the fields one by one). The columns a struct does not
  have keep their place in the row: \<open>cl_deleted\<close> is never scanned by \<open>ListClusters\<close>.
\<close>

section \<open>Rows\<close>

record cluster =
  cl_id :: string
  cl_name :: string
  cl_metrics :: bool
  cl_created :: gotime
  cl_deleted :: "gotime option"

record cronjob =
  cj_id :: string
  cj_cluster :: string
  cj_ns :: string
  cj_name :: string
  cj_schedule :: string
  cj_zone :: "string option"
  cj_suspended :: bool
  cj_cpu_request :: "string option"
  cj_cpu_limit :: "string option"
  cj_mem_request :: "string option"
  cj_mem_limit :: "string option"
  cj_last_success :: "gotime option"
  cj_updated :: gotime
  cj_deleted :: "gotime option"

definition TZ :: "cronjob \<Rightarrow> string" where
  "TZ c = (case cj_zone c of None \<Rightarrow> [] | Some z \<Rightarrow> z)"

record job_run =
  jr_id :: string
  jr_cronjob :: string
  jr_pod :: string
  jr_node :: "string option"
  jr_image :: "string option"
  jr_trigger :: string
  jr_started :: gotime
  jr_finished :: "gotime option"
  jr_status :: string
  jr_exit :: "int option"
  jr_retry :: int
  jr_log_size :: int
  jr_duration :: "int option"
  jr_avg_cpu :: "int option"
  jr_max_cpu :: "int option"
  jr_avg_mem :: "int option"
  jr_max_mem :: "int option"

record resource_sample =
  rs_id :: int
  rs_run :: string
  rs_at :: gotime
  rs_cpu :: int
  rs_mem :: int

record log_line =
  ll_id :: int
  ll_run :: string
  ll_ts :: gotime
  ll_line :: string

section \<open>The database\<close>

text \<open>
  Tables are lists in rowid order. The two \<open>AUTOINCREMENT\<close> sequences are explicit. What the
  driver does outside the code's control (disk errors, cancelled contexts) is \<open>db_down\<close>: the
  failure, if any, of each named statement.
\<close>

record db =
  db_clusters :: "cluster list"
  db_cronjobs :: "cronjob list"
  db_runs :: "job_run list"
  db_samples :: "resource_sample list"
  db_logs :: "log_line list"
  db_sample_seq :: int
  db_log_seq :: int
  db_down :: "string \<Rightarrow> string option"

type_synonym 'a result = "string + 'a"

definition empty_db :: db where
  "empty_db = \<lparr>db_clusters = [], db_cronjobs = [], db_runs = [], db_samples = [], db_logs = [],
     db_sample_seq = 0, db_log_seq = 0, db_down = (\<lambda>_. None)\<rparr>"

fun wrapErr :: "string \<Rightarrow> 'a result \<Rightarrow> 'a result" where
  "wrapErr op (Inl err) = Inl (''storage.'' @ op @ '': '' @ err)"
| "wrapErr op (Inr x) = Inr x"

text \<open>One statement: the driver's failure comes before anything the statement does.\<close>

definition exec_sql :: "string \<Rightarrow> db \<Rightarrow> 'a result \<Rightarrow> 'a result" where
  "exec_sql op db r = (case db_down db op of Some e \<Rightarrow> Inl e | None \<Rightarrow> r)"

lemma wrapErr_Inr [simp]: "wrapErr op r = Inr x \<longleftrightarrow> r = Inr x"
  by (cases r) auto

lemma exec_sql_Inr [simp]: "exec_sql op db r = Inr x \<longleftrightarrow> db_down db op = None \<and> r = Inr x"
  by (simp add: exec_sql_def split: option.splits)

lemma exec_sql_up: "db_down db op = None \<Longrightarrow> exec_sql op db r = r"
  by (simp add: exec_sql_def)

definition cl_ids :: "db \<Rightarrow> string list" where "cl_ids db = map cl_id (db_clusters db)"
definition cj_ids :: "db \<Rightarrow> string list" where "cj_ids db = map cj_id (db_cronjobs db)"
definition jr_ids :: "db \<Rightarrow> string list" where "jr_ids db = map jr_id (db_runs db)"

definition cj_key :: "cronjob \<Rightarrow> string \<times> string \<times> string" where
  "cj_key c = (cj_cluster c, cj_ns c, cj_name c)"

text \<open>The \<open>CHECK\<close> constraints of \<open>job_runs\<close>.\<close>

definition trigger_ok :: "string \<Rightarrow> bool" where
  "trigger_ok s \<longleftrightarrow> s \<in> {''scheduled'', ''manual''}"

definition status_ok :: "string \<Rightarrow> bool" where
  "status_ok s \<longleftrightarrow> s \<in> {''running'', ''succeeded'', ''failed''}"

section \<open>The storage invariant\<close>

definition run_ok :: "job_run \<Rightarrow> bool" where
  "run_ok r \<longleftrightarrow> trigger_ok (jr_trigger r) \<and> status_ok (jr_status r)
     \<and> (\<forall>d. jr_duration r = Some d \<longrightarrow> 0 \<le> d)"

definition wf_clusters :: "db \<Rightarrow> bool" where
  "wf_clusters db \<longleftrightarrow> distinct (cl_ids db)"

definition wf_cronjobs :: "db \<Rightarrow> bool" where
  "wf_cronjobs db \<longleftrightarrow> distinct (cj_ids db) \<and> distinct (map cj_key (db_cronjobs db))
     \<and> (\<forall>c \<in> set (db_cronjobs db). cj_cluster c \<in> set (cl_ids db))"

definition wf_runs :: "db \<Rightarrow> bool" where
  "wf_runs db \<longleftrightarrow> distinct (jr_ids db)
     \<and> (\<forall>r \<in> set (db_runs db). run_ok r \<and> jr_cronjob r \<in> set (cj_ids db))"

definition wf_samples :: "db \<Rightarrow> bool" where
  "wf_samples db \<longleftrightarrow> sorted_wrt (<) (map rs_id (db_samples db))
     \<and> (\<forall>s \<in> set (db_samples db). rs_id s \<le> db_sample_seq db \<and> rs_run s \<in> set (jr_ids db))"

definition wf_logs :: "db \<Rightarrow> bool" where
  "wf_logs db \<longleftrightarrow> sorted_wrt (<) (map ll_id (db_logs db))
     \<and> (\<forall>l \<in> set (db_logs db). ll_id l \<le> db_log_seq db \<and> ll_run l \<in> set (jr_ids db))"

definition db_wf :: "db \<Rightarrow> bool" where
  "db_wf db \<longleftrightarrow> wf_clusters db \<and> wf_cronjobs db \<and> wf_runs db \<and> wf_samples db \<and> wf_logs db"

lemmas wf_defs = wf_clusters_def wf_cronjobs_def wf_runs_def wf_samples_def wf_logs_def

lemma empty_db_wf [wf_intros]: "db_wf empty_db"
  by (simp add: db_wf_def wf_defs empty_db_def cl_ids_def cj_ids_def jr_ids_def)

lemma db_wfD:
  assumes "db_wf db"
  shows "distinct (cl_ids db)" "distinct (cj_ids db)" "distinct (map cj_key (db_cronjobs db))"
    "distinct (jr_ids db)"
    "c \<in> set (db_cronjobs db) \<Longrightarrow> cj_cluster c \<in> set (cl_ids db)"
    "r \<in> set (db_runs db) \<Longrightarrow> run_ok r \<and> jr_cronjob r \<in> set (cj_ids db)"
    "sorted_wrt (<) (map ll_id (db_logs db))"
    "l \<in> set (db_logs db) \<Longrightarrow> ll_id l \<le> db_log_seq db \<and> ll_run l \<in> set (jr_ids db)"
  using assms by (auto simp: db_wf_def wf_defs)

text \<open>The three ways the operations change a table of parents: rewriting rows in place,
  appending a row, rewriting without touching keys. Each keeps the invariant.\<close>

definition set_runs :: "(job_run \<Rightarrow> bool) \<Rightarrow> (job_run \<Rightarrow> job_run) \<Rightarrow> db \<Rightarrow> db" where
  "set_runs P f db = db\<lparr>db_runs := upd_where P f (db_runs db)\<rparr>"

lemma set_runs_ids [simp]:
  "(\<And>r. P r \<Longrightarrow> jr_id (f r) = jr_id r) \<Longrightarrow> jr_ids (set_runs P f db) = jr_ids db"
  by (simp add: set_runs_def jr_ids_def map_upd_where_same)

lemma set_runs_tables [simp]:
  "db_clusters (set_runs P f db) = db_clusters db" "db_cronjobs (set_runs P f db) = db_cronjobs db"
  "db_samples (set_runs P f db) = db_samples db" "db_logs (set_runs P f db) = db_logs db"
  "db_sample_seq (set_runs P f db) = db_sample_seq db" "db_log_seq (set_runs P f db) = db_log_seq db"
  "db_runs (set_runs P f db) = upd_where P f (db_runs db)"
  "cl_ids (set_runs P f db) = cl_ids db" "cj_ids (set_runs P f db) = cj_ids db"
  by (simp_all add: set_runs_def cl_ids_def cj_ids_def)

lemma set_runs_wf:
  assumes "db_wf db" and "\<And>r. P r \<Longrightarrow> jr_id (f r) = jr_id r"
    and "\<And>r. r \<in> set (db_runs db) \<Longrightarrow> P r \<Longrightarrow> run_ok (f r) \<and> jr_cronjob (f r) \<in> set (cj_ids db)"
  shows "db_wf (set_runs P f db)"
  using assms by (auto simp: db_wf_def wf_defs set_upd_where)

definition set_cronjobs :: "(cronjob \<Rightarrow> bool) \<Rightarrow> (cronjob \<Rightarrow> cronjob) \<Rightarrow> db \<Rightarrow> db" where
  "set_cronjobs P f db = db\<lparr>db_cronjobs := upd_where P f (db_cronjobs db)\<rparr>"

lemma set_cronjobs_ids [simp]:
  "(\<And>r. P r \<Longrightarrow> cj_id (f r) = cj_id r) \<Longrightarrow> cj_ids (set_cronjobs P f db) = cj_ids db"
  by (simp add: set_cronjobs_def cj_ids_def map_upd_where_same)

lemma set_cronjobs_tables [simp]:
  "db_clusters (set_cronjobs P f db) = db_clusters db" "db_runs (set_cronjobs P f db) = db_runs db"
  "db_samples (set_cronjobs P f db) = db_samples db" "db_logs (set_cronjobs P f db) = db_logs db"
  "db_sample_seq (set_cronjobs P f db) = db_sample_seq db"
  "db_log_seq (set_cronjobs P f db) = db_log_seq db"
  "db_cronjobs (set_cronjobs P f db) = upd_where P f (db_cronjobs db)"
  "cl_ids (set_cronjobs P f db) = cl_ids db" "jr_ids (set_cronjobs P f db) = jr_ids db"
  by (simp_all add: set_cronjobs_def cl_ids_def jr_ids_def)

lemma set_cronjobs_wf:
  assumes "db_wf db" and "\<And>r. P r \<Longrightarrow> cj_id (f r) = cj_id r \<and> cj_key (f r) = cj_key r"
  shows "db_wf (set_cronjobs P f db)"
proof -
  have "cj_cluster (f r) = cj_cluster r" if "P r" for r using assms(2)[OF that] by (simp add: cj_key_def)
  then show ?thesis using assms
    by (auto simp: db_wf_def wf_defs set_upd_where map_upd_where_same)
qed

definition set_clusters :: "(cluster \<Rightarrow> bool) \<Rightarrow> (cluster \<Rightarrow> cluster) \<Rightarrow> db \<Rightarrow> db" where
  "set_clusters P f db = db\<lparr>db_clusters := upd_where P f (db_clusters db)\<rparr>"

lemma set_clusters_ids [simp]:
  "(\<And>r. P r \<Longrightarrow> cl_id (f r) = cl_id r) \<Longrightarrow> cl_ids (set_clusters P f db) = cl_ids db"
  by (simp add: set_clusters_def cl_ids_def map_upd_where_same)

lemma set_clusters_tables [simp]:
  "db_cronjobs (set_clusters P f db) = db_cronjobs db" "db_runs (set_clusters P f db) = db_runs db"
  "db_samples (set_clusters P f db) = db_samples db" "db_logs (set_clusters P f db) = db_logs db"
  "db_sample_seq (set_clusters P f db) = db_sample_seq db"
  "db_log_seq (set_clusters P f db) = db_log_seq db"
  "db_clusters (set_clusters P f db) = upd_where P f (db_clusters db)"
  "cj_ids (set_clusters P f db) = cj_ids db" "jr_ids (set_clusters P f db) = jr_ids db"
  by (simp_all add: set_clusters_def cj_ids_def jr_ids_def)

lemma set_clusters_wf:
  "db_wf db \<Longrightarrow> (\<And>r. P r \<Longrightarrow> cl_id (f r) = cl_id r) \<Longrightarrow> db_wf (set_clusters P f db)"
  by (auto simp: db_wf_def wf_defs)

end
