(* ===== verification/Migrations.thy ===== *)
theory Migrations
  imports Store_Types
begin

text \<open>
  \<open>runMigrations\<close> of \<open>internal/storage/db.go\<close>. The embedded directory is the list of its
  entries; what the SQL text of a migration does to the schema is not code of the program,
  so executing it is the parameter \<open>ex\<close> (it fails or gives the new schema). The statements
  can also fail for reasons outside the program: \<open>md_fault\<close> names the failing step.
\<close>

record dir_entry =
  de_name :: string
  de_dir :: bool
  de_data :: string

record 's mig_db =
  md_schema :: 's
  md_applied :: "string list"
  md_fault :: "string \<Rightarrow> string \<Rightarrow> string option"

definition has_suffix :: "string \<Rightarrow> string \<Rightarrow> bool" where
  "has_suffix s x \<longleftrightarrow> has_prefix (rev s) (rev x)"

definition up_files :: "dir_entry list \<Rightarrow> dir_entry list" where
  "up_files es = sort_key de_name (filter (\<lambda>e. \<not> de_dir e \<and> has_suffix (de_name e) ''.up.sql'') es)"

definition placeholder :: "string \<Rightarrow> bool" where
  "placeholder data \<longleftrightarrow> trim_space data = [] \<or> trim_space data = ''-- placeholder''"

definition record_migration :: "string \<Rightarrow> 's mig_db \<Rightarrow> 's mig_db" where
  "record_migration nm db = db\<lparr>md_applied := md_applied db @ [nm]\<rparr>"

text \<open>The body of the loop: the state after the iteration and the error that ends the run.\<close>

definition migrate_one ::
  "(string \<Rightarrow> 's \<Rightarrow> 's result) \<Rightarrow> 's mig_db \<Rightarrow> dir_entry \<Rightarrow> 's mig_db \<times> string option" where
  "migrate_one ex db e =
     (let nm = de_name e; fault = (\<lambda>step. md_fault db step nm) in
      case fault ''check'' of Some x \<Rightarrow> (db, Some (''check migration '' @ nm @ '': '' @ x)) | None \<Rightarrow>
      if nm \<in> set (md_applied db) then (db, None) else
      case fault ''read'' of Some x \<Rightarrow> (db, Some (''read migration '' @ nm @ '': '' @ x)) | None \<Rightarrow>
      if placeholder (de_data e) then
        (case fault ''record'' of
           Some x \<Rightarrow> (db, Some (''record placeholder migration '' @ nm @ '': '' @ x))
         | None \<Rightarrow> (record_migration nm db, None))
      else
      case fault ''begin'' of Some x \<Rightarrow> (db, Some (''begin tx for migration '' @ nm @ '': '' @ x)) | None \<Rightarrow>
      (case ex (trim_space (de_data e)) (md_schema db) of
         Inl x \<Rightarrow> (db, Some (''exec migration '' @ nm @ '': '' @ x))
       | Inr s \<Rightarrow>
           (case fault ''record'' of Some x \<Rightarrow> (db, Some (''record migration '' @ nm @ '': '' @ x)) | None \<Rightarrow>
            case fault ''commit'' of Some x \<Rightarrow> (db, Some (''commit migration '' @ nm @ '': '' @ x)) | None \<Rightarrow>
              (record_migration nm (db\<lparr>md_schema := s\<rparr>), None))))"

fun migrate_all ::
  "(string \<Rightarrow> 's \<Rightarrow> 's result) \<Rightarrow> 's mig_db \<Rightarrow> dir_entry list \<Rightarrow> 's mig_db \<times> string option" where
  "migrate_all ex db [] = (db, None)"
| "migrate_all ex db (e # es) =
     (case migrate_one ex db e of
        (db', Some err) \<Rightarrow> (db', Some err)
      | (db', None) \<Rightarrow> migrate_all ex db' es)"

definition runMigrations ::
  "(string \<Rightarrow> 's \<Rightarrow> 's result) \<Rightarrow> 's mig_db \<Rightarrow> dir_entry list \<Rightarrow> 's mig_db \<times> string option" where
  "runMigrations ex db entries =
     (case md_fault db ''create'' [] of
        Some x \<Rightarrow> (db, Some (''create _migrations table: '' @ x))
      | None \<Rightarrow>
          (case md_fault db ''readdir'' [] of
             Some x \<Rightarrow> (db, Some (''read migrations dir: '' @ x))
           | None \<Rightarrow> migrate_all ex db (up_files entries)))"

section \<open>What one iteration can do\<close>

lemma migrate_one_split:
  "(\<exists>err. migrate_one ex db e = (db, Some err))
   \<or> (migrate_one ex db e = (db, None) \<and> de_name e \<in> set (md_applied db))
   \<or> (migrate_one ex db e = (record_migration (de_name e) db, None)
      \<and> de_name e \<notin> set (md_applied db) \<and> placeholder (de_data e))
   \<or> (\<exists>s. migrate_one ex db e = (record_migration (de_name e) (db\<lparr>md_schema := s\<rparr>), None)
      \<and> de_name e \<notin> set (md_applied db) \<and> \<not> placeholder (de_data e)
      \<and> ex (trim_space (de_data e)) (md_schema db) = Inr s)"
  by (auto simp: migrate_one_def Let_def split: option.splits sum.splits)

lemma migrate_one_cases [case_names fail skip empty applied]:
  assumes "\<And>err. migrate_one ex db e = (db, Some err) \<Longrightarrow> P"
    and "migrate_one ex db e = (db, None) \<Longrightarrow> de_name e \<in> set (md_applied db) \<Longrightarrow> P"
    and "migrate_one ex db e = (record_migration (de_name e) db, None) \<Longrightarrow>
      de_name e \<notin> set (md_applied db) \<Longrightarrow> placeholder (de_data e) \<Longrightarrow> P"
    and "\<And>s. migrate_one ex db e = (record_migration (de_name e) (db\<lparr>md_schema := s\<rparr>), None) \<Longrightarrow>
      de_name e \<notin> set (md_applied db) \<Longrightarrow> \<not> placeholder (de_data e) \<Longrightarrow>
      ex (trim_space (de_data e)) (md_schema db) = Inr s \<Longrightarrow> P"
  shows P
  using migrate_one_split[of ex db e] assms by blast

lemma record_migration_simps [simp]:
  "md_schema (record_migration nm db) = md_schema db"
  "md_applied (record_migration nm db) = md_applied db @ [nm]"
  "md_fault (record_migration nm db) = md_fault db"
  by (simp_all add: record_migration_def)

lemma migrate_one_fault [simp]: "md_fault (fst (migrate_one ex db e)) = md_fault db"
  by (cases rule: migrate_one_cases[where ex=ex and db=db and e=e]) auto

lemma migrate_all_fault [simp]: "md_fault (fst (migrate_all ex db es)) = md_fault db"
proof (induction es arbitrary: db)
  case (Cons e es)
  have "md_fault (fst (migrate_one ex db e)) = md_fault db" by simp
  then show ?case using Cons by (cases "migrate_one ex db e") (auto split: option.splits)
qed simp

text \<open>The reference: apply what is pending, in order, ignoring what is recorded.\<close>

fun apply_pending ::
  "(string \<Rightarrow> 's \<Rightarrow> 's result) \<Rightarrow> 's \<Rightarrow> string list \<Rightarrow> dir_entry list \<Rightarrow> ('s \<times> string list) option" where
  "apply_pending ex s done [] = Some (s, done)"
| "apply_pending ex s done (e # es) =
     (if de_name e \<in> set done then apply_pending ex s done es
      else if placeholder (de_data e) then apply_pending ex s (done @ [de_name e]) es
      else case ex (trim_space (de_data e)) s of
             Inl _ \<Rightarrow> None
           | Inr s' \<Rightarrow> apply_pending ex s' (done @ [de_name e]) es)"

lemma migrate_all_ok:
  "migrate_all ex db es = (db', None) \<Longrightarrow>
   apply_pending ex (md_schema db) (md_applied db) es = Some (md_schema db', md_applied db')"
proof (induction es arbitrary: db)
  case Nil
  then show ?case by simp
next
  case (Cons e es)
  show ?case
  proof (cases rule: migrate_one_cases[where ex=ex and db=db and e=e])
    case empty
    then show ?thesis using Cons.prems Cons.IH[of "record_migration (de_name e) db"] by simp
  next
    case (applied s)
    then show ?thesis
      using Cons.prems Cons.IH[of "record_migration (de_name e) (db\<lparr>md_schema := s\<rparr>)"] by simp
  qed (use Cons in simp_all)
qed

lemma migrate_all_grows: "migrate_all ex db es = (db', r) \<Longrightarrow> set (md_applied db) \<subseteq> set (md_applied db')"
proof (induction es arbitrary: db)
  case Nil
  then show ?case by simp
next
  case (Cons e es)
  show ?case
  proof (cases rule: migrate_one_cases[where ex=ex and db=db and e=e])
    case empty
    then show ?thesis using Cons.prems Cons.IH[of "record_migration (de_name e) db"] by simp
  next
    case (applied s)
    then show ?thesis
      using Cons.prems Cons.IH[of "record_migration (de_name e) (db\<lparr>md_schema := s\<rparr>)"] by simp
  qed (use Cons in simp_all)
qed

text \<open>However far a failed run got, a complete run afterwards ends where a run that had not
  failed would have ended.\<close>

lemma migrate_all_resume:
  "migrate_all ex db es = (db', Some err) \<Longrightarrow>
   apply_pending ex (md_schema db') (md_applied db') es = apply_pending ex (md_schema db) (md_applied db) es"
proof (induction es arbitrary: db)
  case Nil
  then show ?case by simp
next
  case (Cons e es)
  show ?case
  proof (cases rule: migrate_one_cases[where ex=ex and db=db and e=e])
    case (fail err')
    then show ?thesis using Cons.prems by simp
  next
    case skip
    with Cons.prems have r: "migrate_all ex db es = (db', Some err)" by simp
    from migrate_all_grows[OF r] skip(2) have "de_name e \<in> set (md_applied db')" by auto
    with skip Cons.IH[OF r] show ?thesis by simp
  next
    case empty
    with Cons.prems have r: "migrate_all ex (record_migration (de_name e) db) es = (db', Some err)" by simp
    from migrate_all_grows[OF r] have "de_name e \<in> set (md_applied db')" by auto
    with empty Cons.IH[OF r] show ?thesis by simp
  next
    case (applied s)
    with Cons.prems have r: "migrate_all ex (record_migration (de_name e) (db\<lparr>md_schema := s\<rparr>)) es = (db', Some err)"
      by simp
    from migrate_all_grows[OF r] have "de_name e \<in> set (md_applied db')" by auto
    with applied Cons.IH[OF r] show ?thesis by simp
  qed
qed

lemma apply_pending_done:
  "apply_pending ex s done es = Some (s', done') \<Longrightarrow>
   set done' = set done \<union> de_name ` set es"
  by (induction ex s "done" es rule: apply_pending.induct) (auto split: if_splits sum.splits)

lemma apply_pending_all_done:
  "de_name ` set es \<subseteq> set done \<Longrightarrow> apply_pending ex s done es = Some (s, done)"
  by (induction es) auto

lemma apply_pending_names:
  assumes "distinct (map de_name es)" and "apply_pending ex s d es = Some (s', d')"
  shows "d' = d @ map de_name (filter (\<lambda>e. de_name e \<notin> set d) es)"
  using assms
proof (induction ex s d es rule: apply_pending.induct)
  case (2 ex s d e es)
  from 2(4) have "de_name e \<notin> de_name ` set es" by simp
  then have "filter (\<lambda>x. de_name x \<notin> set (d @ [de_name e])) es = filter (\<lambda>x. de_name x \<notin> set d) es"
    by (intro filter_cong) (auto simp: image_iff)
  with 2 show ?case by (auto split: if_splits sum.splits)
qed simp

lemma up_files_sorted: "sorted (map de_name (up_files es))"
  by (simp add: up_files_def)

lemma up_files_distinct: "distinct (map de_name es) \<Longrightarrow> distinct (map de_name (up_files es))"
  by (auto simp: up_files_def distinct_map_filter_key distinct_map inj_on_def)

lemma runMigrations_all:
  "runMigrations ex db entries = (db', None) \<Longrightarrow> migrate_all ex db (up_files entries) = (db', None)"
  by (auto simp: runMigrations_def split: option.splits)

definition no_fault :: "string \<Rightarrow> string \<Rightarrow> string option" where
  "no_fault = (\<lambda>_ _. None)"

lemma migrate_all_idle:
  "md_fault db = no_fault \<Longrightarrow> de_name ` set es \<subseteq> set (md_applied db) \<Longrightarrow> migrate_all ex db es = (db, None)"
proof (induction es)
  case (Cons e es)
  then have "migrate_one ex db e = (db, None)" by (simp add: migrate_one_def no_fault_def)
  with Cons show ?case by simp
qed simp

lemma migrate_all_names:
  assumes "distinct (map de_name es)" and "migrate_all ex db es = (db', None)"
  shows "md_applied db' = md_applied db @ map de_name (filter (\<lambda>e. de_name e \<notin> set (md_applied db)) es)"
  by (rule apply_pending_names[OF assms(1) migrate_all_ok[OF assms(2)]])

section \<open>The property\<close>

text \<open>C12. Start-ups of the program, the first of which may die half-way at any step: the run
  that completes has applied exactly the migrations that were pending, each once and in the
  order of their names, with the schema an uninterrupted run gives; and the next start finds
  nothing to do.\<close>

theorem migrations_once_in_order:
  assumes "distinct (map de_name entries)"
    and "runMigrations ex db entries = (db1, r)"
    and "runMigrations ex (db1\<lparr>md_fault := f\<rparr>) entries = (db2, None)"
  shows "apply_pending ex (md_schema db) (md_applied db) (up_files entries) = Some (md_schema db2, md_applied db2)
     \<and> md_applied db2 = md_applied db @ map de_name (filter (\<lambda>e. de_name e \<notin> set (md_applied db)) (up_files entries))
     \<and> sorted (map de_name (up_files entries))
     \<and> runMigrations ex (db2\<lparr>md_fault := no_fault\<rparr>) entries = (db2\<lparr>md_fault := no_fault\<rparr>, None)"
proof (intro conjI)
  let ?es = "up_files entries"
  have d: "distinct (map de_name ?es)" by (rule up_files_distinct[OF assms(1)])
  note two = migrate_all_ok[OF runMigrations_all[OF assms(3)]]
  have same: "apply_pending ex (md_schema db1) (md_applied db1) ?es
      = apply_pending ex (md_schema db) (md_applied db) ?es"
  proof (cases r)
    case None
    with assms(2) have m: "migrate_all ex db ?es = (db1, None)" by (intro runMigrations_all) simp
    from apply_pending_done[OF migrate_all_ok[OF m]] migrate_all_ok[OF m] show ?thesis
      by (simp add: apply_pending_all_done)
  next
    case (Some err)
    with assms(2) have "db1 = db \<or> migrate_all ex db ?es = (db1, Some err)"
      by (auto simp: runMigrations_def split: option.splits)
    then show ?thesis using migrate_all_resume by blast
  qed
  with two show all: "apply_pending ex (md_schema db) (md_applied db) ?es = Some (md_schema db2, md_applied db2)"
    by simp
  show "md_applied db2 = md_applied db @ map de_name (filter (\<lambda>e. de_name e \<notin> set (md_applied db)) ?es)"
    by (rule apply_pending_names[OF d all])
  show "sorted (map de_name ?es)" by (rule up_files_sorted)
  have "de_name ` set ?es \<subseteq> set (md_applied db2)" using apply_pending_done[OF two] by auto
  then show "runMigrations ex (db2\<lparr>md_fault := no_fault\<rparr>) entries = (db2\<lparr>md_fault := no_fault\<rparr>, None)"
    using migrate_all_idle[of "db2\<lparr>md_fault := no_fault\<rparr>" ?es ex] by (simp add: runMigrations_def no_fault_def)
qed

text \<open>Witness: three entries, the second migration fails at its first execution because the
  disk is full, and the start after it completes. The schema is the list of the statements
  executed.\<close>

definition ex_entries :: "dir_entry list" where
  "ex_entries =
     [\<lparr>de_name = ''2.up.sql'', de_dir = False, de_data = ''B''\<rparr>,
      \<lparr>de_name = ''1.up.sql'', de_dir = False, de_data = ''A ''\<rparr>,
      \<lparr>de_name = ''1.down.sql'', de_dir = False, de_data = ''C''\<rparr>]"

definition ex_fault :: "string \<Rightarrow> string \<Rightarrow> string option" where
  "ex_fault step nm = (if step = ''commit'' \<and> nm = ''2.up.sql'' then Some ''disk full'' else None)"

definition ex_exec :: "string \<Rightarrow> string list \<Rightarrow> string list result" where
  "ex_exec q s = Inr (s @ [q])"

lemma ex_up_files:
  "up_files ex_entries =
     [\<lparr>de_name = ''1.up.sql'', de_dir = False, de_data = ''A ''\<rparr>,
      \<lparr>de_name = ''2.up.sql'', de_dir = False, de_data = ''B''\<rparr>]"
  by code_simp

lemma ex_trim: "trim_space ''A '' = ''A''" "trim_space ''B'' = ''B''"
  by code_simp+

lemmas ex_run = runMigrations_def ex_up_files migrate_one_def placeholder_def ex_trim record_migration_def
  ex_exec_def ex_fault_def no_fault_def

lemma ex_first:
  "runMigrations ex_exec \<lparr>md_schema = [], md_applied = [], md_fault = ex_fault\<rparr> ex_entries
   = (\<lparr>md_schema = [''A''], md_applied = [''1.up.sql''], md_fault = ex_fault\<rparr>,
      Some ''commit migration 2.up.sql: disk full'')"
  by (simp add: ex_run)

lemma ex_second:
  "runMigrations ex_exec (\<lparr>md_schema = [''A''], md_applied = [''1.up.sql''], md_fault = ex_fault\<rparr>\<lparr>md_fault := no_fault\<rparr>)
     ex_entries
   = (\<lparr>md_schema = [''A'', ''B''], md_applied = [''1.up.sql'', ''2.up.sql''], md_fault = no_fault\<rparr>, None)"
  by (simp add: ex_run)

lemma ex_distinct: "distinct (map de_name ex_entries)"
  by (simp add: ex_entries_def)

theorem migrations_once_in_order_witness:
  "apply_pending ex_exec [] [] (up_files ex_entries) = Some ([''A'', ''B''], [''1.up.sql'', ''2.up.sql''])"
  using migrations_once_in_order[OF ex_distinct ex_first ex_second] by simp

end
