(* ===== verification/Store_Write.thy ===== *)
theory Store_Write
  imports Store_Types
begin

text \<open>
  The statements of \<open>internal/storage/queries.go\<close> that change the database. Each returns the
  error or the new database: a failing statement changes nothing. \<open>now\<close> is the clock the
  operation reads (\<open>time.Now()\<close>, or \<open>datetime('now')\<close> inside SQLite); \<open>tx\<close> is the text the
  driver writes for an instant, on which SQLite compares instants.
\<close>

definition fk_failed :: string where "fk_failed = ''FOREIGN KEY constraint failed''"
definition unique_failed :: string where "unique_failed = ''UNIQUE constraint failed''"
definition check_failed :: string where "check_failed = ''CHECK constraint failed''"

section \<open>Clusters\<close>

definition UpsertCluster :: "db \<Rightarrow> cluster \<Rightarrow> db result" where
  "UpsertCluster db c = wrapErr ''UpsertCluster'' (exec_sql ''UpsertCluster'' db (Inr (
     if cl_id c \<in> set (cl_ids db)
     then set_clusters (\<lambda>r. cl_id r = cl_id c) (\<lambda>r. r\<lparr>cl_name := cl_name c, cl_deleted := None\<rparr>) db
     else db\<lparr>db_clusters := db_clusters db @ [c\<lparr>cl_deleted := None\<rparr>]\<rparr>)))"

definition MarkClustersDeletedExcept :: "gotime \<Rightarrow> db \<Rightarrow> string list \<Rightarrow> db result" where
  "MarkClustersDeletedExcept now db keep =
     (if keep = [] then Inr db
      else wrapErr ''MarkClustersDeletedExcept'' (exec_sql ''MarkClustersDeletedExcept'' db (Inr (
        set_clusters (\<lambda>r. cl_deleted r = None \<and> cl_id r \<notin> set keep)
          (\<lambda>r. r\<lparr>cl_deleted := Some now\<rparr>) db))))"

definition SetClusterMetricsEnabled :: "db \<Rightarrow> string \<Rightarrow> bool \<Rightarrow> db result" where
  "SetClusterMetricsEnabled db i enabled =
     wrapErr ''SetClusterMetricsEnabled'' (exec_sql ''SetClusterMetricsEnabled'' db (Inr (
       set_clusters (\<lambda>r. cl_id r = i) (\<lambda>r. r\<lparr>cl_metrics := enabled\<rparr>) db)))"

section \<open>CronJobs\<close>

text \<open>The \<open>DO UPDATE SET\<close> list: the key columns of the stored row stay.\<close>

definition refresh_cronjob :: "cronjob \<Rightarrow> cronjob \<Rightarrow> cronjob" where
  "refresh_cronjob c r =
     r\<lparr>cj_schedule := cj_schedule c, cj_zone := cj_zone c, cj_suspended := cj_suspended c,
       cj_cpu_request := cj_cpu_request c, cj_cpu_limit := cj_cpu_limit c,
       cj_mem_request := cj_mem_request c, cj_mem_limit := cj_mem_limit c,
       cj_last_success := cj_last_success c, cj_updated := cj_updated c, cj_deleted := None\<rparr>"

text \<open>A row of that id is updated in place: the conflict on the id is resolved first, and the update
  leaves the key columns alone, so the uniqueness of the key is checked for a new row only.\<close>

definition UpsertCronJob :: "db \<Rightarrow> cronjob \<Rightarrow> db result" where
  "UpsertCronJob db c = wrapErr ''UpsertCronJob'' (exec_sql ''UpsertCronJob'' db (
     if cj_id c \<in> set (cj_ids db)
     then Inr (set_cronjobs (\<lambda>r. cj_id r = cj_id c) (refresh_cronjob c) db)
     else if cj_key c \<in> set (map cj_key (db_cronjobs db)) then Inl unique_failed
     else if cj_cluster c \<notin> set (cl_ids db) then Inl fk_failed
     else Inr (db\<lparr>db_cronjobs := db_cronjobs db @ [c\<lparr>cj_deleted := None\<rparr>]\<rparr>)))"

definition MarkCronJobDeleted :: "gotime \<Rightarrow> db \<Rightarrow> string \<Rightarrow> db result" where
  "MarkCronJobDeleted now db i = wrapErr ''MarkCronJobDeleted'' (exec_sql ''MarkCronJobDeleted'' db (Inr (
     set_cronjobs (\<lambda>r. cj_id r = i \<and> cj_deleted r = None) (\<lambda>r. r\<lparr>cj_deleted := Some now\<rparr>) db)))"

section \<open>Runs\<close>

text \<open>The inserted row has the columns of the statement and the defaults of the table.\<close>

definition new_run :: "job_run \<Rightarrow> job_run" where
  "new_run r = \<lparr>jr_id = jr_id r, jr_cronjob = jr_cronjob r, jr_pod = jr_pod r, jr_node = None,
     jr_image = None, jr_trigger = jr_trigger r, jr_started = jr_started r, jr_finished = None,
     jr_status = jr_status r, jr_exit = None, jr_retry = 0, jr_log_size = 0, jr_duration = None,
     jr_avg_cpu = None, jr_max_cpu = None, jr_avg_mem = None, jr_max_mem = None\<rparr>"

definition refresh_run :: "job_run \<Rightarrow> job_run \<Rightarrow> job_run" where
  "refresh_run r old = old\<lparr>jr_cronjob := jr_cronjob r, jr_pod := jr_pod r,
     jr_trigger := jr_trigger r, jr_started := jr_started r, jr_status := jr_status r\<rparr>"

definition UpsertJobRun :: "db \<Rightarrow> job_run \<Rightarrow> db result" where
  "UpsertJobRun db r = wrapErr ''UpsertJobRun'' (exec_sql ''UpsertJobRun'' db (
     if \<not> trigger_ok (jr_trigger r) \<or> \<not> status_ok (jr_status r) then Inl check_failed
     else if jr_cronjob r \<notin> set (cj_ids db) then Inl fk_failed
     else if jr_id r \<in> set (jr_ids db)
     then Inr (set_runs (\<lambda>o'. jr_id o' = jr_id r) (refresh_run r) db)
     else Inr (db\<lparr>db_runs := db_runs db @ [new_run r]\<rparr>)))"

text \<open>\<open>durationFromStart\<close>: \<open>None\<close> when there is no end, no row, or the read fails.\<close>

definition elapsed_ms :: "gotime \<Rightarrow> gotime \<Rightarrow> int" where
  "elapsed_ms finished started = (let ms = milliseconds (time_sub finished started) in
     if ms < 0 then 0 else ms)"

definition durationFromStart :: "db \<Rightarrow> string \<Rightarrow> gotime option \<Rightarrow> int option" where
  "durationFromStart db i finished =
     (case finished of
        None \<Rightarrow> None
      | Some f \<Rightarrow>
          (if db_down db ''durationFromStart'' \<noteq> None then None
           else case find (\<lambda>r. jr_id r = i) (db_runs db) of
                  None \<Rightarrow> None
                | Some r \<Rightarrow> Some (elapsed_ms f (jr_started r))))"

fun coalesce :: "'a option \<Rightarrow> 'a option \<Rightarrow> 'a option" where
  "coalesce None y = y"
| "coalesce (Some x) y = Some x"

definition UpdateJobRunStatus ::
  "db \<Rightarrow> string \<Rightarrow> string \<Rightarrow> gotime option \<Rightarrow> int \<Rightarrow> int \<Rightarrow> db result" where
  "UpdateJobRunStatus db i status finished exit retry =
     (let d = durationFromStart db i finished in
      wrapErr ''UpdateJobRunStatus'' (exec_sql ''UpdateJobRunStatus'' db (
        if i \<in> set (jr_ids db) \<and> \<not> status_ok status then Inl check_failed
        else Inr (set_runs (\<lambda>r. jr_id r = i)
          (\<lambda>r. r\<lparr>jr_status := status, jr_finished := finished, jr_exit := Some exit,
                 jr_retry := retry, jr_duration := coalesce d (jr_duration r)\<rparr>) db))))"

definition UpdateJobRunNode :: "db \<Rightarrow> string \<Rightarrow> string \<Rightarrow> string \<Rightarrow> db result" where
  "UpdateJobRunNode db i node img = wrapErr ''UpdateJobRunNode'' (exec_sql ''UpdateJobRunNode'' db (Inr (
     set_runs (\<lambda>r. jr_id r = i) (\<lambda>r. r\<lparr>jr_node := Some node, jr_image := Some img\<rparr>) db)))"

definition MarkRunFailed :: "gotime \<Rightarrow> db \<Rightarrow> string \<Rightarrow> db result" where
  "MarkRunFailed now db i =
     (let d = durationFromStart db i (Some now) in
      wrapErr ''MarkRunFailed'' (exec_sql ''MarkRunFailed'' db (Inr (
        set_runs (\<lambda>r. jr_id r = i)
          (\<lambda>r. r\<lparr>jr_status := ''failed'', jr_exit := Some (- 1), jr_finished := Some now,
                 jr_duration := coalesce d (jr_duration r)\<rparr>) db))))"

definition AddLogSize :: "db \<Rightarrow> string \<Rightarrow> int \<Rightarrow> db result" where
  "AddLogSize db i bytes = wrapErr ''AddLogSize'' (exec_sql ''AddLogSize'' db (Inr (
     set_runs (\<lambda>r. jr_id r = i) (\<lambda>r. r\<lparr>jr_log_size := jr_log_size r + bytes\<rparr>) db)))"

text \<open>SQL aggregates over a column: \<open>NULL\<close> on no rows; \<open>CAST(AVG(x) AS INTEGER)\<close> truncates.\<close>

definition sql_avg :: "int list \<Rightarrow> int option" where
  "sql_avg xs = (if xs = [] then None else Some (sum_list xs sdiv int (length xs)))"

definition sql_max :: "int list \<Rightarrow> int option" where
  "sql_max xs = (case xs of [] \<Rightarrow> None | y # ys \<Rightarrow> Some (fold max ys y))"

definition samples_of :: "db \<Rightarrow> string \<Rightarrow> resource_sample list" where
  "samples_of db i = filter (\<lambda>s. rs_run s = i) (db_samples db)"

definition FinalizeResourceUsage :: "db \<Rightarrow> string \<Rightarrow> db result" where
  "FinalizeResourceUsage db i =
     wrapErr ''FinalizeResourceUsage'' (exec_sql ''FinalizeResourceUsage'' db (Inr (
       let cpu = map rs_cpu (samples_of db i); mem = map rs_mem (samples_of db i) in
       set_runs (\<lambda>r. jr_id r = i)
         (\<lambda>r. r\<lparr>jr_avg_cpu := sql_avg cpu, jr_max_cpu := sql_max cpu,
                jr_avg_mem := sql_avg mem, jr_max_mem := sql_max mem\<rparr>) db)))"

section \<open>Log lines and samples\<close>

text \<open>The stamp of a line is the column's default, \<open>datetime('now')\<close>: whole seconds.\<close>

definition insert_log_line :: "gotime \<Rightarrow> string \<Rightarrow> string \<Rightarrow> db \<Rightarrow> db" where
  "insert_log_line now i line db =
     db\<lparr>db_logs := db_logs db @ [\<lparr>ll_id = db_log_seq db + 1, ll_run = i, ll_ts = trunc_sec now, ll_line = line\<rparr>],
        db_log_seq := db_log_seq db + 1\<rparr>"

text \<open>The loop over the lines inside the transaction; the caller rolls back on an error.\<close>

fun insert_lines :: "gotime \<Rightarrow> string \<Rightarrow> string list \<Rightarrow> db \<Rightarrow> db result" where
  "insert_lines now i [] db = Inr db"
| "insert_lines now i (line # rest) db =
     (case exec_sql ''BatchInsertLogLines exec'' db
        (if i \<in> set (jr_ids db) then Inr (insert_log_line now i line db) else Inl fk_failed) of
        Inl e \<Rightarrow> wrapErr ''BatchInsertLogLines exec'' (Inl e)
      | Inr db' \<Rightarrow> insert_lines now i rest db')"

definition BatchInsertLogLines :: "gotime \<Rightarrow> db \<Rightarrow> string \<Rightarrow> string list \<Rightarrow> db result" where
  "BatchInsertLogLines now db i lines =
     (if lines = [] then Inr db
      else case exec_sql ''BatchInsertLogLines begin'' db (Inr ()) of
        Inl e \<Rightarrow> wrapErr ''BatchInsertLogLines begin'' (Inl e)
      | Inr _ \<Rightarrow>
        (case exec_sql ''BatchInsertLogLines prepare'' db (Inr ()) of
           Inl e \<Rightarrow> wrapErr ''BatchInsertLogLines prepare'' (Inl e)
         | Inr _ \<Rightarrow>
           (case insert_lines now i lines db of
              Inl e \<Rightarrow> Inl e
            | Inr db' \<Rightarrow>
                wrapErr ''BatchInsertLogLines commit'' (exec_sql ''BatchInsertLogLines commit'' db (Inr db')))))"

definition InsertResourceSample :: "gotime \<Rightarrow> db \<Rightarrow> string \<Rightarrow> int \<Rightarrow> int \<Rightarrow> db result" where
  "InsertResourceSample now db i cpu mem =
     wrapErr ''InsertResourceSample'' (exec_sql ''InsertResourceSample'' db (
       if i \<notin> set (jr_ids db) then Inl fk_failed
       else Inr (db\<lparr>db_samples := db_samples db @
              [\<lparr>rs_id = db_sample_seq db + 1, rs_run = i, rs_at = trunc_sec now, rs_cpu = cpu, rs_mem = mem\<rparr>],
            db_sample_seq := db_sample_seq db + 1\<rparr>)))"

section \<open>Maintenance\<close>

text \<open>\<open>DELETE FROM job_runs\<close> cascades to the samples and the log lines of the run.\<close>

definition drop_runs :: "(job_run \<Rightarrow> bool) \<Rightarrow> db \<Rightarrow> db" where
  "drop_runs P db =
     (let gone = map jr_id (filter P (db_runs db)) in
      db\<lparr>db_runs := filter (\<lambda>r. \<not> P r) (db_runs db),
         db_samples := filter (\<lambda>s. rs_run s \<notin> set gone) (db_samples db),
         db_logs := filter (\<lambda>l. ll_run l \<notin> set gone) (db_logs db)\<rparr>)"

definition DeleteOldData :: "(gotime \<Rightarrow> string) \<Rightarrow> db \<Rightarrow> gotime \<Rightarrow> db result" where
  "DeleteOldData tx db before = wrapErr ''DeleteOldData'' (exec_sql ''DeleteOldData'' db (Inr (
     drop_runs (\<lambda>r. tx (jr_started r) < tx before) db)))"

definition DeleteOldLogLines :: "(gotime \<Rightarrow> string) \<Rightarrow> db \<Rightarrow> gotime \<Rightarrow> db result" where
  "DeleteOldLogLines tx db before = wrapErr ''DeleteOldLogLines'' (exec_sql ''DeleteOldLogLines'' db (Inr (
     let old = map jr_id (filter (\<lambda>r. tx (jr_started r) < tx before) (db_runs db)) in
     db\<lparr>db_logs := filter (\<lambda>l. ll_run l \<notin> set old) (db_logs db)\<rparr>)))"

text \<open>\<open>PurgeDeletedCronJobs\<close>; the \<open>NOT EXISTS\<close> guard leaves nothing for the cascade.\<close>

definition purgeable :: "(gotime \<Rightarrow> string) \<Rightarrow> db \<Rightarrow> gotime \<Rightarrow> cronjob \<Rightarrow> bool" where
  "purgeable tx db before c \<longleftrightarrow>
     (case cj_deleted c of None \<Rightarrow> False | Some d \<Rightarrow> tx d < tx before)
     \<and> cj_id c \<notin> set (map jr_cronjob (db_runs db))"

definition drop_cronjobs :: "(cronjob \<Rightarrow> bool) \<Rightarrow> db \<Rightarrow> db" where
  "drop_cronjobs P db =
     (let gone = map cj_id (filter P (db_cronjobs db)) in
      drop_runs (\<lambda>r. jr_cronjob r \<in> set gone)
        (db\<lparr>db_cronjobs := filter (\<lambda>c. \<not> P c) (db_cronjobs db)\<rparr>))"

definition PurgeDeletedCronJobs :: "(gotime \<Rightarrow> string) \<Rightarrow> db \<Rightarrow> gotime \<Rightarrow> db result" where
  "PurgeDeletedCronJobs tx db before = wrapErr ''PurgeDeletedCronJobs'' (exec_sql ''PurgeDeletedCronJobs'' db (Inr (
     drop_cronjobs (purgeable tx db before) db)))"

end
