(* ===== verification/Store_Inv.thy ===== *)
theory Store_Inv
  imports Store_Write
begin

text \<open>
  Every statement of the store keeps the storage invariant \<open>db_wf\<close>: keys stay unique,
  no foreign key dangles, \<open>CHECK\<close> constraints hold, durations are not negative and the ids of
  log lines and samples grow in insertion order. The statements are then collected in a
  datatype \<open>db_op\<close>, and the reachable databases are those any sequence of them leads to.
\<close>

section \<open>Each statement keeps the invariant\<close>

lemma elapsed_ms_nonneg [simp]: "0 \<le> elapsed_ms f s"
  by (simp add: elapsed_ms_def Let_def)

lemma durationFromStart_nonneg: "durationFromStart db i f = Some d \<Longrightarrow> 0 \<le> d"
  by (auto simp: durationFromStart_def split: option.splits if_splits)

lemma coalesce_nonneg:
  "(\<And>x. d = Some x \<Longrightarrow> 0 \<le> x) \<Longrightarrow> (\<And>x. e = Some x \<Longrightarrow> 0 \<le> x) \<Longrightarrow> coalesce d e = Some (y :: int) \<Longrightarrow> 0 \<le> y"
  by (cases d) auto

lemma UpsertCluster_wf [wf_intros]: "db_wf db \<Longrightarrow> UpsertCluster db c = Inr db' \<Longrightarrow> db_wf db'"
  by (auto simp: UpsertCluster_def intro!: set_clusters_wf split: if_splits)
    (auto simp: db_wf_def wf_defs cl_ids_def cj_ids_def jr_ids_def)

lemma MarkClustersDeletedExcept_wf [wf_intros]:
  "db_wf db \<Longrightarrow> MarkClustersDeletedExcept now db keep = Inr db' \<Longrightarrow> db_wf db'"
  by (auto simp: MarkClustersDeletedExcept_def intro!: set_clusters_wf split: if_splits)

lemma SetClusterMetricsEnabled_wf [wf_intros]:
  "db_wf db \<Longrightarrow> SetClusterMetricsEnabled db i b = Inr db' \<Longrightarrow> db_wf db'"
  by (auto simp: SetClusterMetricsEnabled_def intro!: set_clusters_wf)

lemma refresh_cronjob_key [simp]:
  "cj_id (refresh_cronjob c r) = cj_id r" "cj_key (refresh_cronjob c r) = cj_key r"
  by (simp_all add: refresh_cronjob_def cj_key_def)

lemma UpsertCronJob_wf [wf_intros]: "db_wf db \<Longrightarrow> UpsertCronJob db c = Inr db' \<Longrightarrow> db_wf db'"
  by (auto simp: UpsertCronJob_def intro!: set_cronjobs_wf split: if_splits)
    (auto simp: db_wf_def wf_defs cl_ids_def cj_ids_def jr_ids_def cj_key_def)

lemma MarkCronJobDeleted_wf [wf_intros]:
  "db_wf db \<Longrightarrow> MarkCronJobDeleted now db i = Inr db' \<Longrightarrow> db_wf db'"
  by (auto simp: MarkCronJobDeleted_def cj_key_def intro!: set_cronjobs_wf)

lemma refresh_run_simps [simp]:
  "jr_id (refresh_run r o') = jr_id o'" "jr_cronjob (refresh_run r o') = jr_cronjob r"
  "jr_trigger (refresh_run r o') = jr_trigger r" "jr_status (refresh_run r o') = jr_status r"
  "jr_duration (refresh_run r o') = jr_duration o'" "jr_started (refresh_run r o') = jr_started r"
  by (simp_all add: refresh_run_def)

lemma new_run_simps [simp]:
  "jr_id (new_run r) = jr_id r" "jr_cronjob (new_run r) = jr_cronjob r"
  "jr_trigger (new_run r) = jr_trigger r" "jr_status (new_run r) = jr_status r"
  "jr_duration (new_run r) = None" "jr_started (new_run r) = jr_started r"
  by (simp_all add: new_run_def)

lemma add_run_wf:
  assumes "db_wf db" "jr_id r \<notin> set (jr_ids db)" "jr_cronjob r \<in> set (cj_ids db)" "run_ok r"
  shows "db_wf (db\<lparr>db_runs := db_runs db @ [r]\<rparr>)"
  using assms by (auto simp: db_wf_def wf_defs cl_ids_def cj_ids_def jr_ids_def)

lemma UpsertJobRun_wf [wf_intros]:
  assumes "db_wf db" and "UpsertJobRun db r = Inr db'"
  shows "db_wf db'"
proof -
  from assms(2) have ok: "trigger_ok (jr_trigger r)" "status_ok (jr_status r)" "jr_cronjob r \<in> set (cj_ids db)"
    and db': "db' = (if jr_id r \<in> set (jr_ids db)
      then set_runs (\<lambda>o'. jr_id o' = jr_id r) (refresh_run r) db
      else db\<lparr>db_runs := db_runs db @ [new_run r]\<rparr>)"
    by (auto simp: UpsertJobRun_def split: if_splits)
  show ?thesis
  proof (cases "jr_id r \<in> set (jr_ids db)")
    case True
    have "db_wf (set_runs (\<lambda>o'. jr_id o' = jr_id r) (refresh_run r) db)"
      by (rule set_runs_wf[OF assms(1)]) (use ok db_wfD(6)[OF assms(1)] in \<open>auto simp: run_ok_def\<close>)
    with True db' show ?thesis by simp
  next
    case False
    have "db_wf (db\<lparr>db_runs := db_runs db @ [new_run r]\<rparr>)"
      by (rule add_run_wf[OF assms(1)]) (use False ok in \<open>auto simp: run_ok_def\<close>)
    with False db' show ?thesis by simp
  qed
qed

lemma UpdateJobRunStatus_wf [wf_intros]:
  assumes "db_wf db" and "UpdateJobRunStatus db i st fin ex retry = Inr db'"
  shows "db_wf db'"
proof -
  note ok = db_wfD(6)[OF assms(1)]
  have st: "i \<in> set (jr_ids db) \<Longrightarrow> status_ok st"
    using assms(2) by (auto simp: UpdateJobRunStatus_def Let_def split: if_splits)
  from assms(2) have db': "db' = set_runs (\<lambda>r. jr_id r = i)
      (\<lambda>r. r\<lparr>jr_status := st, jr_finished := fin, jr_exit := Some ex, jr_retry := retry,
             jr_duration := coalesce (durationFromStart db i fin) (jr_duration r)\<rparr>) db"
    by (auto simp: UpdateJobRunStatus_def Let_def split: if_splits)
  have dur: "0 \<le> y" if "r \<in> set (db_runs db)"
    "coalesce (durationFromStart db i fin) (jr_duration r) = Some y" for r y
    by (rule coalesce_nonneg[OF durationFromStart_nonneg _ that(2)])
      (use ok[OF that(1)] in \<open>auto simp: run_ok_def\<close>)
  show ?thesis unfolding db'
  proof (rule set_runs_wf[OF assms(1)])
    fix r assume r: "r \<in> set (db_runs db)" "jr_id r = i"
    then have "status_ok st" by (intro st) (auto simp: jr_ids_def)
    with dur[OF r(1)] ok[OF r(1)]
    show "run_ok (r\<lparr>jr_status := st, jr_finished := fin, jr_exit := Some ex, jr_retry := retry,
             jr_duration := coalesce (durationFromStart db i fin) (jr_duration r)\<rparr>)
        \<and> jr_cronjob (r\<lparr>jr_status := st, jr_finished := fin, jr_exit := Some ex, jr_retry := retry,
             jr_duration := coalesce (durationFromStart db i fin) (jr_duration r)\<rparr>) \<in> set (cj_ids db)"
      by (auto simp: run_ok_def)
  qed simp
qed

lemma MarkRunFailed_wf [wf_intros]:
  assumes "db_wf db" and "MarkRunFailed now db i = Inr db'"
  shows "db_wf db'"
proof -
  note ok = db_wfD(6)[OF assms(1)]
  from assms(2) have db': "db' = set_runs (\<lambda>r. jr_id r = i)
      (\<lambda>r. r\<lparr>jr_status := ''failed'', jr_exit := Some (- 1), jr_finished := Some now,
             jr_duration := coalesce (durationFromStart db i (Some now)) (jr_duration r)\<rparr>) db"
    by (auto simp: MarkRunFailed_def Let_def)
  have dur: "0 \<le> y" if "r \<in> set (db_runs db)"
    "coalesce (durationFromStart db i (Some now)) (jr_duration r) = Some y" for r y
    by (rule coalesce_nonneg[OF durationFromStart_nonneg _ that(2)])
      (use ok[OF that(1)] in \<open>auto simp: run_ok_def\<close>)
  show ?thesis unfolding db'
    by (rule set_runs_wf[OF assms(1)]) (use dur ok in \<open>auto simp: run_ok_def status_ok_def\<close>)
qed

lemma UpdateJobRunNode_wf [wf_intros]:
  "db_wf db \<Longrightarrow> UpdateJobRunNode db i n im = Inr db' \<Longrightarrow> db_wf db'"
  by (auto simp: UpdateJobRunNode_def run_ok_def dest: db_wfD(6) intro!: set_runs_wf)

lemma AddLogSize_wf [wf_intros]: "db_wf db \<Longrightarrow> AddLogSize db i n = Inr db' \<Longrightarrow> db_wf db'"
  by (auto simp: AddLogSize_def run_ok_def dest: db_wfD(6) intro!: set_runs_wf)

lemma FinalizeResourceUsage_wf [wf_intros]:
  "db_wf db \<Longrightarrow> FinalizeResourceUsage db i = Inr db' \<Longrightarrow> db_wf db'"
  by (auto simp: FinalizeResourceUsage_def Let_def run_ok_def dest: db_wfD(6) intro!: set_runs_wf)

lemma insert_log_line_wf:
  "db_wf db \<Longrightarrow> i \<in> set (jr_ids db) \<Longrightarrow> db_wf (insert_log_line now i line db)"
  by (force simp: db_wf_def wf_defs insert_log_line_def cl_ids_def cj_ids_def jr_ids_def sorted_wrt_append)

lemma insert_log_line_tables [simp]:
  "db_clusters (insert_log_line now i line db) = db_clusters db"
  "db_cronjobs (insert_log_line now i line db) = db_cronjobs db"
  "db_runs (insert_log_line now i line db) = db_runs db"
  "db_samples (insert_log_line now i line db) = db_samples db"
  "db_down (insert_log_line now i line db) = db_down db"
  "db_sample_seq (insert_log_line now i line db) = db_sample_seq db"
  "jr_ids (insert_log_line now i line db) = jr_ids db"
  by (simp_all add: insert_log_line_def jr_ids_def)

lemma insert_lines_wf: "db_wf db \<Longrightarrow> insert_lines now i ls db = Inr db' \<Longrightarrow> db_wf db'"
proof (induction ls arbitrary: db)
  case Nil
  then show ?case by simp
next
  case (Cons l ls)
  from Cons.prems(2) have "i \<in> set (jr_ids db)" "insert_lines now i ls (insert_log_line now i l db) = Inr db'"
    by (auto split: sum.splits if_splits)
  with Cons.IH[OF insert_log_line_wf[OF Cons.prems(1)]] show ?case by simp
qed

lemma BatchInsertLogLines_Inr:
  "BatchInsertLogLines now db i ls = Inr db' \<Longrightarrow> insert_lines now i ls db = Inr db'"
  by (auto simp: BatchInsertLogLines_def split: if_splits sum.splits)

lemma BatchInsertLogLines_wf [wf_intros]:
  "db_wf db \<Longrightarrow> BatchInsertLogLines now db i ls = Inr db' \<Longrightarrow> db_wf db'"
  by (blast intro: insert_lines_wf dest: BatchInsertLogLines_Inr)

lemma InsertResourceSample_wf [wf_intros]:
  "db_wf db \<Longrightarrow> InsertResourceSample now db i c m = Inr db' \<Longrightarrow> db_wf db'"
  by (force simp: InsertResourceSample_def db_wf_def wf_defs cl_ids_def cj_ids_def jr_ids_def
      sorted_wrt_append split: if_splits)

lemma sorted_wrt_map_filter: "sorted_wrt (<) (map f xs) \<Longrightarrow> sorted_wrt (<) (map f (filter P xs))"
  by (induction xs) auto

lemma drop_runs_wf:
  assumes "distinct (jr_ids db)" and "wf_clusters db" and "wf_cronjobs db" and "wf_samples db" and "wf_logs db"
    and "\<forall>r \<in> set (db_runs db). \<not> P r \<longrightarrow> run_ok r \<and> jr_cronjob r \<in> set (cj_ids db)"
  shows "db_wf (drop_runs P db)"
proof -
  let ?kept = "filter (\<lambda>r. \<not> P r) (db_runs db)"
  let ?gone = "map jr_id (filter P (db_runs db))"
  have part: "i \<in> set (map jr_id ?kept)" if "i \<in> set (jr_ids db)" "i \<notin> set ?gone" for i
    using that by (auto simp: jr_ids_def)
  have "wf_runs (drop_runs P db)"
    using assms(1,6) by (auto simp: wf_runs_def drop_runs_def Let_def jr_ids_def cj_ids_def distinct_map_filter_key)
  moreover have "wf_samples (drop_runs P db)" "wf_logs (drop_runs P db)"
    using assms(4,5) part
    by (auto simp: wf_samples_def wf_logs_def drop_runs_def Let_def jr_ids_def sorted_wrt_map_filter)
  ultimately show ?thesis
    using assms(2,3) by (simp add: db_wf_def wf_clusters_def wf_cronjobs_def drop_runs_def Let_def cl_ids_def cj_ids_def)
qed

lemma DeleteOldData_wf [wf_intros]: "db_wf db \<Longrightarrow> DeleteOldData tx db t = Inr db' \<Longrightarrow> db_wf db'"
proof -
  have "db_wf (drop_runs P db)" if "db_wf db" for P
    by (rule drop_runs_wf) (use that in \<open>auto simp: db_wf_def wf_runs_def\<close>)
  then show "db_wf db \<Longrightarrow> DeleteOldData tx db t = Inr db' \<Longrightarrow> db_wf db'"
    by (auto simp: DeleteOldData_def)
qed

lemma DeleteOldLogLines_wf [wf_intros]: "db_wf db \<Longrightarrow> DeleteOldLogLines tx db t = Inr db' \<Longrightarrow> db_wf db'"
  by (auto simp: DeleteOldLogLines_def Let_def db_wf_def wf_defs cl_ids_def cj_ids_def jr_ids_def
      sorted_wrt_map_filter)

lemma drop_cronjobs_wf:
  assumes "db_wf db"
  shows "db_wf (drop_cronjobs P db)"
proof -
  let ?db = "db\<lparr>db_cronjobs := filter (\<lambda>c. \<not> P c) (db_cronjobs db)\<rparr>"
  let ?gone = "map cj_id (filter P (db_cronjobs db))"
  have "distinct (map cj_id (filter (\<lambda>c. \<not> P c) (db_cronjobs db)))"
    "distinct (map cj_key (filter (\<lambda>c. \<not> P c) (db_cronjobs db)))"
    using db_wfD(2,3)[OF assms] by (simp_all add: distinct_map_filter_key cj_ids_def)
  moreover have "\<forall>r \<in> set (db_runs db). jr_cronjob r \<notin> set ?gone
      \<longrightarrow> run_ok r \<and> jr_cronjob r \<in> set (map cj_id (filter (\<lambda>c. \<not> P c) (db_cronjobs db)))"
    using db_wfD(6)[OF assms] by (force simp: cj_ids_def)
  ultimately show ?thesis
    unfolding drop_cronjobs_def Let_def using assms
    by (intro drop_runs_wf) (auto simp: db_wf_def wf_defs cl_ids_def cj_ids_def jr_ids_def)
qed

lemma PurgeDeletedCronJobs_wf [wf_intros]:
  "db_wf db \<Longrightarrow> PurgeDeletedCronJobs tx db t = Inr db' \<Longrightarrow> db_wf db'"
  by (auto simp: PurgeDeletedCronJobs_def intro: drop_cronjobs_wf)

section \<open>Sequences of statements\<close>

text \<open>
  One constructor per statement of the \<open>Store\<close> interface that writes, with the clock reading
  and the text order where the statement uses them. \<open>Op_Driver\<close> is the outside world: from
  then on the driver fails the statements its argument names.
\<close>

datatype db_op =
    Op_UpsertCluster cluster
  | Op_MarkClusters gotime "string list"
  | Op_SetMetrics string bool
  | Op_UpsertCronJob cronjob
  | Op_MarkCronJobDeleted gotime string
  | Op_UpsertJobRun job_run
  | Op_UpdateStatus string string "gotime option" int int
  | Op_UpdateNode string string string
  | Op_MarkRunFailed gotime string
  | Op_AddLogSize string int
  | Op_Finalize string
  | Op_InsertLogs gotime string "string list"
  | Op_InsertSample gotime string int int
  | Op_DeleteOldData "gotime \<Rightarrow> string" gotime
  | Op_DeleteOldLogs "gotime \<Rightarrow> string" gotime
  | Op_Purge "gotime \<Rightarrow> string" gotime
  | Op_Driver "string \<Rightarrow> string option"

fun exec_op :: "db \<Rightarrow> db_op \<Rightarrow> db result" where
  "exec_op db (Op_UpsertCluster c) = UpsertCluster db c"
| "exec_op db (Op_MarkClusters now keep) = MarkClustersDeletedExcept now db keep"
| "exec_op db (Op_SetMetrics i b) = SetClusterMetricsEnabled db i b"
| "exec_op db (Op_UpsertCronJob c) = UpsertCronJob db c"
| "exec_op db (Op_MarkCronJobDeleted now i) = MarkCronJobDeleted now db i"
| "exec_op db (Op_UpsertJobRun r) = UpsertJobRun db r"
| "exec_op db (Op_UpdateStatus i st fin ex retry) = UpdateJobRunStatus db i st fin ex retry"
| "exec_op db (Op_UpdateNode i n im) = UpdateJobRunNode db i n im"
| "exec_op db (Op_MarkRunFailed now i) = MarkRunFailed now db i"
| "exec_op db (Op_AddLogSize i n) = AddLogSize db i n"
| "exec_op db (Op_Finalize i) = FinalizeResourceUsage db i"
| "exec_op db (Op_InsertLogs now i ls) = BatchInsertLogLines now db i ls"
| "exec_op db (Op_InsertSample now i c m) = InsertResourceSample now db i c m"
| "exec_op db (Op_DeleteOldData tx t) = DeleteOldData tx db t"
| "exec_op db (Op_DeleteOldLogs tx t) = DeleteOldLogLines tx db t"
| "exec_op db (Op_Purge tx t) = PurgeDeletedCronJobs tx db t"
| "exec_op db (Op_Driver f) = Inr (db\<lparr>db_down := f\<rparr>)"

definition run_op :: "db \<Rightarrow> db_op \<Rightarrow> db" where
  "run_op db e = keep_on_error db (exec_op db e)"

definition run_ops :: "db \<Rightarrow> db_op list \<Rightarrow> db" where
  "run_ops db es = foldl run_op db es"

lemma run_ops_simps [simp]:
  "run_ops db [] = db" "run_ops db (e # es) = run_ops (run_op db e) es"
  "run_ops db (es @ fs) = run_ops (run_ops db es) fs"
  by (simp_all add: run_ops_def)

lemma driver_wf: "db_wf db \<Longrightarrow> db_wf (db\<lparr>db_down := f\<rparr>)"
  by (simp add: db_wf_def wf_defs cl_ids_def cj_ids_def jr_ids_def)

lemma exec_op_wf: "db_wf db \<Longrightarrow> exec_op db e = Inr db' \<Longrightarrow> db_wf db'"
  by (cases e; simp; ((erule (1) wf_intros) | (erule subst, rule driver_wf, assumption)))

lemma run_op_cases [consumes 0, case_names error ok]:
  assumes "\<And>x. exec_op db e = Inl x \<Longrightarrow> P db" and "\<And>db'. exec_op db e = Inr db' \<Longrightarrow> P db'"
  shows "P (run_op db e)"
  using assms by (cases "exec_op db e") (auto simp: run_op_def)

lemma run_ops_wf: "db_wf db \<Longrightarrow> db_wf (run_ops db es)"
proof (induction es arbitrary: db)
  case Nil
  then show ?case by simp
next
  case (Cons e es)
  have "db_wf (run_op db e)" by (rule run_op_cases) (use Cons.prems exec_op_wf in auto)
  with Cons.IH show ?case by simp
qed

end
