(* ===== verification/Store_Query.thy ===== *)
theory Store_Query
  imports Store_Inv
begin

text \<open>
  The reads of \<open>internal/storage/queries.go\<close> that concern clusters, CronJobs, runs, log lines
  and samples. \<open>tx\<close> is the text the driver writes for an instant; \<open>dn n\<close> is the text of
  \<open>datetime('now', '-n days')\<close>, computed inside SQLite. Instants are compared as these texts.
  Maps that the code builds from a \<open>GROUP BY\<close> are maps.
\<close>

definition sql_rows :: "string \<Rightarrow> db \<Rightarrow> 'a \<Rightarrow> 'a result" where
  "sql_rows op db x = wrapErr op (exec_sql op db (Inr x))"

lemma sql_rows_Inr [simp]: "sql_rows op db x = Inr y \<longleftrightarrow> db_down db op = None \<and> x = y"
  by (simp add: sql_rows_def)

text \<open>\<open>LIMIT n\<close>: a negative bound is no bound.\<close>

definition sql_limit :: "int \<Rightarrow> 'a list \<Rightarrow> 'a list" where
  "sql_limit n xs = (if n < 0 then xs else take (nat n) xs)"

lemma sql_limit_nonneg: "0 \<le> n \<Longrightarrow> sql_limit n xs = take (nat n) xs"
  by (simp add: sql_limit_def)

section \<open>Clusters and CronJobs\<close>

definition ListClusters :: "db \<Rightarrow> cluster list result" where
  "ListClusters db = sql_rows ''ListClusters'' db
     (sort_key cl_name (filter (\<lambda>c. cl_deleted c = None) (db_clusters db)))"

definition live_cronjobs :: "db \<Rightarrow> string \<Rightarrow> cronjob list" where
  "live_cronjobs db cl = sort_key (\<lambda>c. (cj_ns c, cj_name c))
     (filter (\<lambda>c. cj_cluster c = cl \<and> cj_deleted c = None) (db_cronjobs db))"

definition ListCronJobs :: "db \<Rightarrow> string \<Rightarrow> cronjob list result" where
  "ListCronJobs db cl = sql_rows ''ListCronJobs'' db (live_cronjobs db cl)"

definition liveCronJobIDs :: "db \<Rightarrow> string \<Rightarrow> string list result" where
  "liveCronJobIDs db cl = sql_rows ''liveCronJobIDs'' db (map cj_id (live_cronjobs db cl))"

definition GetCronJobByName :: "db \<Rightarrow> string \<Rightarrow> string \<Rightarrow> string \<Rightarrow> cronjob option result" where
  "GetCronJobByName db cl ns nm = sql_rows ''GetCronJobByName'' db
     (find (\<lambda>c. cj_key c = (cl, ns, nm)) (db_cronjobs db))"

section \<open>Runs\<close>

text \<open>\<open>scanJobRun\<close>: a missing duration is computed from the two instants.\<close>

definition scanJobRun :: "job_run \<Rightarrow> job_run" where
  "scanJobRun r =
     (case jr_duration r of
        Some _ \<Rightarrow> r
      | None \<Rightarrow>
          (case jr_finished r of
             None \<Rightarrow> r
           | Some f \<Rightarrow> r\<lparr>jr_duration := Some (elapsed_ms f (jr_started r))\<rparr>))"

lemma scanJobRun_simps [simp]:
  "jr_id (scanJobRun r) = jr_id r" "jr_cronjob (scanJobRun r) = jr_cronjob r"
  "jr_started (scanJobRun r) = jr_started r" "jr_status (scanJobRun r) = jr_status r"
  "jr_finished (scanJobRun r) = jr_finished r" "jr_log_size (scanJobRun r) = jr_log_size r"
  by (simp_all add: scanJobRun_def split: option.splits)

definition runs_of :: "db \<Rightarrow> string \<Rightarrow> job_run list" where
  "runs_of db i = filter (\<lambda>r. jr_cronjob r = i) (db_runs db)"

definition newest_first :: "(gotime \<Rightarrow> string) \<Rightarrow> job_run list \<Rightarrow> job_run list" where
  "newest_first tx rs = sort_desc (\<lambda>r. tx (jr_started r)) rs"

definition GetJobRun :: "db \<Rightarrow> string \<Rightarrow> job_run option result" where
  "GetJobRun db i = sql_rows ''GetJobRun'' db
     (map_option scanJobRun (find (\<lambda>r. jr_id r = i) (db_runs db)))"

definition ListJobRuns :: "(gotime \<Rightarrow> string) \<Rightarrow> db \<Rightarrow> string \<Rightarrow> job_run list result" where
  "ListJobRuns tx db i = sql_rows ''ListJobRuns'' db (map scanJobRun (newest_first tx (runs_of db i)))"

definition GetLastJobRun :: "(gotime \<Rightarrow> string) \<Rightarrow> db \<Rightarrow> string \<Rightarrow> job_run option result" where
  "GetLastJobRun tx db i = sql_rows ''GetLastJobRun'' db
     (case newest_first tx (runs_of db i) of [] \<Rightarrow> None | r # _ \<Rightarrow> Some (scanJobRun r))"

definition ListJobRunsPaged ::
  "(gotime \<Rightarrow> string) \<Rightarrow> db \<Rightarrow> string \<Rightarrow> gotime \<Rightarrow> int \<Rightarrow> job_run list result" where
  "ListJobRunsPaged tx db i before limit =
     sql_rows ''ListJobRunsPaged'' db
       (map scanJobRun (sql_limit limit
         (if is_zero before then newest_first tx (runs_of db i)
          else newest_first tx (filter (\<lambda>r. tx (jr_started r) < tx before) (runs_of db i)))))"

definition day_of :: "(gotime \<Rightarrow> string) \<Rightarrow> job_run \<Rightarrow> string" where
  "day_of tx r = take 10 (tx (jr_started r))"

definition ListJobRunsByDay ::
  "(gotime \<Rightarrow> string) \<Rightarrow> db \<Rightarrow> string \<Rightarrow> string \<Rightarrow> job_run list result" where
  "ListJobRunsByDay tx db i day = sql_rows ''ListJobRunsByDay'' db
     (map scanJobRun (newest_first tx (filter (\<lambda>r. day_of tx r = day) (runs_of db i))))"

definition GetRunningRuns :: "db \<Rightarrow> job_run list result" where
  "GetRunningRuns db = sql_rows ''GetRunningRuns'' db
     (map scanJobRun (filter (\<lambda>r. jr_status r = ''running'') (db_runs db)))"

definition CountRunningRuns :: "db \<Rightarrow> (string \<Rightarrow> int option) result" where
  "CountRunningRuns db =
     (let running = filter (\<lambda>r. jr_status r = ''running'') (db_runs db) in
      sql_rows ''CountRunningRuns'' db
        (map_of (map (\<lambda>i. (i, int (length (filter (\<lambda>r. jr_cronjob r = i) running))))
           (remdups (map jr_cronjob running)))))"

section \<open>Statistics of one CronJob\<close>

record run_stats =
  st_total :: int
  st_succeeded :: int
  st_failed :: int
  st_avg_duration :: "int option"
  st_max_duration :: "int option"
  st_avg_cpu :: "int option"
  st_avg_mem :: "int option"

definition count_status :: "string \<Rightarrow> job_run list \<Rightarrow> int" where
  "count_status st rs = int (length (filter (\<lambda>r. jr_status r = st) rs))"

definition runs_since :: "(gotime \<Rightarrow> string) \<Rightarrow> string \<Rightarrow> job_run list \<Rightarrow> job_run list" where
  "runs_since tx cutoff rs = filter (\<lambda>r. cutoff < tx (jr_started r)) rs"

definition GetRunStats7d ::
  "(gotime \<Rightarrow> string) \<Rightarrow> (int \<Rightarrow> string) \<Rightarrow> db \<Rightarrow> string \<Rightarrow> run_stats result" where
  "GetRunStats7d tx dn db i = sql_rows ''GetRunStats7d'' db
     (let rs = runs_since tx (dn 7) (runs_of db i) in
      \<lparr>st_total = int (length rs), st_succeeded = count_status ''succeeded'' rs,
       st_failed = count_status ''failed'' rs,
       st_avg_duration = sql_avg (List.map_filter jr_duration rs),
       st_max_duration = sql_max (List.map_filter jr_duration rs),
       st_avg_cpu = sql_avg (List.map_filter jr_avg_cpu rs),
       st_avg_mem = sql_avg (List.map_filter jr_avg_mem rs)\<rparr>)"

definition GetRecentDurations ::
  "(gotime \<Rightarrow> string) \<Rightarrow> db \<Rightarrow> string \<Rightarrow> int \<Rightarrow> int list result" where
  "GetRecentDurations tx db i limit = sql_rows ''GetRecentDurations'' db
     (List.map_filter jr_duration (sql_limit limit (newest_first tx
       (filter (\<lambda>r. jr_duration r \<noteq> None \<and> jr_status r \<in> {''succeeded'', ''failed''}) (runs_of db i)))))"

record daily_stat =
  dy_day :: string
  dy_total :: int
  dy_succeeded :: int
  dy_running :: int

definition GetDailyRunStats ::
  "(gotime \<Rightarrow> string) \<Rightarrow> (int \<Rightarrow> string) \<Rightarrow> db \<Rightarrow> string \<Rightarrow> int \<Rightarrow> daily_stat list result" where
  "GetDailyRunStats tx dn db i days = sql_rows ''GetDailyRunStats'' db
     (let rs = runs_since tx (dn days) (runs_of db i) in
      map (\<lambda>d. let g = filter (\<lambda>r. day_of tx r = d) rs in
             \<lparr>dy_day = d, dy_total = int (length g), dy_succeeded = count_status ''succeeded'' g,
              dy_running = count_status ''running'' g\<rparr>)
        (sort (remdups (map (day_of tx) rs))))"

record cj_summary =
  sm_last :: job_run
  sm_stats :: run_stats
  sm_durations :: "int list"

text \<open>\<open>GetCronJobSummaries\<close>: the loop over the live CronJobs; the first error ends it.\<close>

fun summaries ::
  "(gotime \<Rightarrow> string) \<Rightarrow> (int \<Rightarrow> string) \<Rightarrow> db \<Rightarrow> int \<Rightarrow> string list
   \<Rightarrow> (string \<Rightarrow> cj_summary option) \<Rightarrow> (string \<Rightarrow> cj_summary option) result" where
  "summaries tx dn db limit [] out = Inr out"
| "summaries tx dn db limit (i # is) out =
     (case GetLastJobRun tx db i of
        Inl e \<Rightarrow> Inl e
      | Inr None \<Rightarrow> summaries tx dn db limit is out
      | Inr (Some r) \<Rightarrow>
          (case GetRunStats7d tx dn db i of
             Inl e \<Rightarrow> Inl e
           | Inr st \<Rightarrow>
               (case GetRecentDurations tx db i limit of
                  Inl e \<Rightarrow> Inl e
                | Inr ds \<Rightarrow> summaries tx dn db limit is
                    (out(i \<mapsto> \<lparr>sm_last = r, sm_stats = st, sm_durations = ds\<rparr>)))))"

definition GetCronJobSummaries ::
  "(gotime \<Rightarrow> string) \<Rightarrow> (int \<Rightarrow> string) \<Rightarrow> db \<Rightarrow> string \<Rightarrow> int
   \<Rightarrow> (string \<Rightarrow> cj_summary option) result" where
  "GetCronJobSummaries tx dn db cl limit =
     (case liveCronJobIDs db cl of
        Inl e \<Rightarrow> Inl e
      | Inr is \<Rightarrow> summaries tx dn db limit is Map.empty)"

section \<open>Log lines and samples\<close>

definition logs_of :: "db \<Rightarrow> string \<Rightarrow> log_line list" where
  "logs_of db i = filter (\<lambda>l. ll_run l = i) (db_logs db)"

definition GetLogLines :: "db \<Rightarrow> string \<Rightarrow> log_line list result" where
  "GetLogLines db i = sql_rows ''GetLogLines'' db (sort_key ll_id (logs_of db i))"

definition GetLogLinesTail :: "db \<Rightarrow> string \<Rightarrow> int \<Rightarrow> log_line list result" where
  "GetLogLinesTail db i limit =
     (if limit \<le> 0 then GetLogLines db i
      else sql_rows ''GetLogLinesTail'' db
             (sort_key ll_id (take (nat limit) (sort_desc ll_id (logs_of db i)))))"

definition GetResourceSamples :: "db \<Rightarrow> string \<Rightarrow> resource_sample list result" where
  "GetResourceSamples db i = sql_rows ''GetResourceSamples'' db (sort_key rs_id (samples_of db i))"

section \<open>Order lemmas\<close>

lemma sort_key_sorted_id: "sorted_wrt (<) (map f xs) \<Longrightarrow> sort_key f xs = xs"
proof (induction xs)
  case Nil
  then show ?case by simp
next
  case (Cons x xs)
  from Cons have "sort_key f xs = xs" by simp
  moreover have "insort_key f x xs = x # xs" using Cons.prems by (cases xs) auto
  ultimately show ?case by simp
qed

lemma insort_desc_snoc: "\<forall>y \<in> set xs. f x < f y \<Longrightarrow> insort_desc f x xs = xs @ [x]"
  by (induction xs) auto

lemma sort_desc_sorted_rev: "sorted_wrt (<) (map f xs) \<Longrightarrow> sort_desc f xs = rev xs"
proof (induction xs)
  case Nil
  then show ?case by simp
next
  case (Cons x xs)
  then have "sort_desc f xs = rev xs" by simp
  then show ?case using Cons.prems by (auto simp: insort_desc_snoc)
qed

lemma take_rev_drop: "take n (rev xs) = rev (drop (length xs - n) xs)"
  by (simp add: take_rev)

lemma sorted_wrt_map_drop: "sorted_wrt (<) (map f xs) \<Longrightarrow> sorted_wrt (<) (map f (drop n xs))"
  by (metis drop_map sorted_wrt_drop)

lemma sort_key_rev_sorted:
  fixes f :: "'a \<Rightarrow> 'k::linorder"
  assumes "sorted_wrt (<) (map f xs)"
  shows "sort_key f (rev xs) = xs"
proof (rule map_sorted_distinct_set_unique[of f])
  from assms have d: "distinct (map f xs)" "sorted (map f xs)"
    by (simp_all add: strict_sorted_iff)
  then show "inj_on f (set (sort_key f (rev xs)) \<union> set xs)" by (simp add: distinct_map)
  show "sorted (map f (sort_key f (rev xs)))" by simp
  show "distinct (map f (sort_key f (rev xs)))"
    using d by (simp add: distinct_map)
  show "sorted (map f xs)" "distinct (map f xs)" using d by simp_all
  show "set (sort_key f (rev xs)) = set xs" by simp
qed

lemma logs_sorted: "db_wf db \<Longrightarrow> sorted_wrt (<) (map ll_id (logs_of db i))"
  unfolding logs_of_def by (rule sorted_wrt_map_filter[OF db_wfD(7)])

lemma GetLogLines_eq [db_simps]:
  "db_wf db \<Longrightarrow> GetLogLines db i = sql_rows ''GetLogLines'' db (logs_of db i)"
  by (simp add: GetLogLines_def sort_key_sorted_id[OF logs_sorted])

lemma GetLogLinesTail_eq [db_simps]:
  "db_wf db \<Longrightarrow> 0 < n \<Longrightarrow> GetLogLinesTail db i n =
     sql_rows ''GetLogLinesTail'' db (drop (length (logs_of db i) - nat n) (logs_of db i))"
  by (simp add: GetLogLinesTail_def sort_desc_sorted_rev[OF logs_sorted] take_rev_drop
      sort_key_rev_sorted[OF sorted_wrt_map_drop[OF logs_sorted]])

section \<open>Paging\<close>

text \<open>
  With pairwise different start texts the newest-first list is strictly descending, and
  asking for what is older than the last run of a page gives the rest of the list.
\<close>

definition distinct_starts :: "(gotime \<Rightarrow> string) \<Rightarrow> job_run list \<Rightarrow> bool" where
  "distinct_starts tx rs \<longleftrightarrow> distinct (map (\<lambda>r. tx (jr_started r)) rs)"

lemma sorted_distinct_strict:
  "sorted_wrt (\<lambda>a b. f b \<le> f a) xs \<Longrightarrow> distinct (map f xs)
   \<Longrightarrow> sorted_wrt (\<lambda>a b. f b < (f a :: 'k::linorder)) xs"
  by (induction xs) (auto simp: less_le image_iff)

lemma newest_first_strict:
  "distinct_starts tx rs \<Longrightarrow>
   sorted_wrt (\<lambda>a b. tx (jr_started b) < tx (jr_started a)) (newest_first tx rs)"
  unfolding newest_first_def
  by (rule sorted_distinct_strict[OF sorted_sort_desc]) (simp add: distinct_starts_def distinct_map)

lemma filter_below_strict:
  assumes "sorted_wrt (\<lambda>a b. f b < f a) (xs @ p # ys)"
  shows "filter (\<lambda>r. f r < (f p :: 'k::linorder)) (xs @ p # ys) = ys"
proof -
  have "\<forall>x \<in> set xs. \<not> f x < f p" "\<forall>y \<in> set ys. f y < f p"
    using assms by (auto simp: sorted_wrt_append)
  then show ?thesis by (auto simp: filter_empty_conv)
qed

lemma page_rest:
  assumes "distinct_starts tx rs" and "newest_first tx rs = xs @ p # ys"
  shows "newest_first tx (filter (\<lambda>r. tx (jr_started r) < tx (jr_started p)) rs) = ys"
proof -
  have "newest_first tx (filter (\<lambda>r. tx (jr_started r) < tx (jr_started p)) rs)
      = filter (\<lambda>r. tx (jr_started r) < tx (jr_started p)) (xs @ p # ys)"
    by (simp add: newest_first_def filter_sort_desc[symmetric] assms(2)[unfolded newest_first_def])
  also have "\<dots> = ys"
    by (rule filter_below_strict) (use newest_first_strict[OF assms(1)] assms(2) in simp)
  finally show ?thesis .
qed

end
