(* ===== verification/Store_Fleet.thy ===== *)
theory Store_Fleet
  imports Complex_Main Store_Query
begin

text \<open>
  The fleet-wide aggregates of \<open>internal/storage/queries.go\<close> (\<open>GetFleetStats\<close>,
  \<open>GetTopCronJobs\<close>) and \<open>FleetStats.SuccessRate\<close> of \<open>internal/storage/models.go\<close>. A floating
  point number is the rational it stands for; rounding is not modelled.
\<close>

record fleet_stats =
  fs_clusters :: int
  fs_namespaces :: int
  fs_cronjobs :: int
  fs_suspended :: int
  fs_runs :: int
  fs_succeeded :: int
  fs_failed :: int
  fs_running :: int
  fs_failing :: int

definition SuccessRate :: "fleet_stats \<Rightarrow> rat" where
  "SuccessRate f =
     (let finished = fs_succeeded f + fs_failed f in
      if finished = 0 then 0 else of_int (fs_succeeded f) / of_int finished * 100)"

text \<open>\<open>AND (? = '' OR c.cluster_id = ?)\<close>\<close>

definition in_scope :: "string \<Rightarrow> cronjob \<Rightarrow> bool" where
  "in_scope cl c \<longleftrightarrow> cj_deleted c = None \<and> (cl = [] \<or> cj_cluster c = cl)"

definition scope_cronjobs :: "db \<Rightarrow> string \<Rightarrow> cronjob list" where
  "scope_cronjobs db cl = filter (in_scope cl) (db_cronjobs db)"

text \<open>\<open>job_runs r JOIN cronjobs c ON c.id = r.cronjob_id WHERE\<close> live, in scope and recent.\<close>

definition live_join ::
  "(gotime \<Rightarrow> string) \<Rightarrow> string \<Rightarrow> db \<Rightarrow> string \<Rightarrow> (job_run \<times> cronjob) list" where
  "live_join tx cutoff db cl =
     concat (map (\<lambda>r. map (Pair r) (filter (\<lambda>c. cj_id c = jr_cronjob r \<and> in_scope cl c) (db_cronjobs db)))
       (runs_since tx cutoff (db_runs db)))"

definition GetFleetStats ::
  "(gotime \<Rightarrow> string) \<Rightarrow> (int \<Rightarrow> string) \<Rightarrow> db \<Rightarrow> string \<Rightarrow> int \<Rightarrow> fleet_stats result" where
  "GetFleetStats tx dn db cl days =
     (case sql_rows ''GetFleetStats inventory'' db () of
        Inl e \<Rightarrow> Inl e
      | Inr _ \<Rightarrow>
          (let cjs = scope_cronjobs db cl; rs = map fst (live_join tx (dn days) db cl) in
           sql_rows ''GetFleetStats runs'' db
             \<lparr>fs_clusters = int (length (filter (\<lambda>c. cl_deleted c = None \<and> (cl = [] \<or> cl_id c = cl)) (db_clusters db))),
              fs_namespaces = int (length (remdups (map cj_ns cjs))),
              fs_cronjobs = int (length cjs),
              fs_suspended = int (length (filter cj_suspended cjs)),
              fs_runs = int (length rs), fs_succeeded = count_status ''succeeded'' rs,
              fs_failed = count_status ''failed'' rs, fs_running = count_status ''running'' rs,
              fs_failing = int (length (remdups (map jr_cronjob (filter (\<lambda>r. jr_status r = ''failed'') rs))))\<rparr>))"

section \<open>The top-N ranking\<close>

definition rankValueExpr :: "string \<Rightarrow> (job_run list \<Rightarrow> int option) option" where
  "rankValueExpr metric =
     (if metric = ''cpu'' then Some (\<lambda>rs. sql_max (List.map_filter jr_max_cpu rs))
      else if metric = ''memory'' then Some (\<lambda>rs. sql_max (List.map_filter jr_max_mem rs))
      else if metric = ''duration'' then Some (\<lambda>rs. sql_avg (List.map_filter jr_duration rs))
      else if metric = ''failures'' then Some (\<lambda>rs. Some (count_status ''failed'' rs))
      else None)"

record cronjob_rank =
  rk_cronjob :: string
  rk_cluster :: string
  rk_ns :: string
  rk_name :: string
  rk_runs :: int
  rk_failed :: int
  rk_value :: int

text \<open>
  \<open>GROUP BY c.id, ...\<close>: one group per CronJob that occurs in the join, in the order of the
  grouping key.
\<close>

definition group_keys :: "(job_run \<times> cronjob) list \<Rightarrow> (string \<times> string \<times> string \<times> string) list" where
  "group_keys j = sort (remdups (map (\<lambda>(r, c). (cj_id c, cj_key c)) j))"

definition group_rows ::
  "(job_run \<times> cronjob) list \<Rightarrow> string \<times> string \<times> string \<times> string \<Rightarrow> job_run list" where
  "group_rows j k = map fst (filter (\<lambda>(r, c). (cj_id c, cj_key c) = k) j)"

definition rank_row ::
  "(job_run list \<Rightarrow> int option) \<Rightarrow> (job_run \<times> cronjob) list
   \<Rightarrow> string \<times> string \<times> string \<times> string \<Rightarrow> cronjob_rank option" where
  "rank_row expr j k =
     (let rs = group_rows j k in
      case expr rs of
        None \<Rightarrow> None
      | Some v \<Rightarrow>
          (if v > 0 then Some \<lparr>rk_cronjob = fst k, rk_cluster = fst (snd k), rk_ns = fst (snd (snd k)),
             rk_name = snd (snd (snd k)), rk_runs = int (length rs),
             rk_failed = count_status ''failed'' rs, rk_value = v\<rparr>
           else None))"

definition GetTopCronJobs ::
  "(gotime \<Rightarrow> string) \<Rightarrow> (int \<Rightarrow> string) \<Rightarrow> db \<Rightarrow> string \<Rightarrow> string \<Rightarrow> int \<Rightarrow> int
   \<Rightarrow> cronjob_rank list result" where
  "GetTopCronJobs tx dn db cl metric days limit =
     (case rankValueExpr metric of
        None \<Rightarrow> wrapErr ''GetTopCronJobs'' (Inl (''unknown rank metric '' @ metric))
      | Some expr \<Rightarrow>
          (let j = live_join tx (dn days) db cl in
           sql_rows ''GetTopCronJobs'' db
             (sql_limit limit (sort_desc rk_value (List.map_filter (rank_row expr j) (group_keys j))))))"

section \<open>Lemmas\<close>

lemma count_status_bounds: "0 \<le> count_status st rs" "count_status st rs \<le> int (length rs)"
  by (simp_all add: count_status_def)

lemma count_status_split:
  "\<forall>r \<in> set rs. status_ok (jr_status r) \<Longrightarrow>
   int (length rs) = count_status ''succeeded'' rs + count_status ''failed'' rs + count_status ''running'' rs"
  by (induction rs) (auto simp: count_status_def status_ok_def)

lemma live_join_runs: "(r, c) \<in> set (live_join tx k db cl) \<longleftrightarrow>
    r \<in> set (db_runs db) \<and> k < tx (jr_started r) \<and> c \<in> set (db_cronjobs db) \<and> cj_id c = jr_cronjob r
    \<and> in_scope cl c"
  by (auto simp: live_join_def runs_since_def)

lemma filter_id_single:
  assumes "distinct (map f xs)" and "x \<in> set xs"
  shows "filter (\<lambda>y. f y = f x \<and> P y) xs = (if P x then [x] else [])"
  using assms
proof (induction xs)
  case Nil
  then show ?case by simp
next
  case (Cons y ys)
  show ?case
  proof (cases "x = y")
    case True
    have "filter (\<lambda>z. f z = f y \<and> P z) ys = []"
      using Cons.prems(1) by (auto simp: filter_empty_conv image_iff)
    with True show ?thesis by simp
  next
    case False
    with Cons.prems have "f y \<noteq> f x" by force
    with False Cons show ?thesis by simp
  qed
qed

text \<open>In a well-formed database the join is the list of recent runs whose CronJob is in scope.\<close>

definition run_in_scope :: "db \<Rightarrow> string \<Rightarrow> job_run \<Rightarrow> bool" where
  "run_in_scope db cl r \<longleftrightarrow> (\<exists>c \<in> set (db_cronjobs db). cj_id c = jr_cronjob r \<and> in_scope cl c)"

lemma live_join_fst:
  assumes "db_wf db"
  shows "map fst (live_join tx k db cl) = filter (run_in_scope db cl) (runs_since tx k (db_runs db))"
proof -
  have step: "map fst (map (Pair r) (filter (\<lambda>c. cj_id c = jr_cronjob r \<and> in_scope cl c) (db_cronjobs db)))
      = (if run_in_scope db cl r then [r] else [])" if r: "r \<in> set (db_runs db)" for r
  proof -
    from db_wfD(6)[OF assms r] obtain c where c: "c \<in> set (db_cronjobs db)" "cj_id c = jr_cronjob r"
      by (auto simp: cj_ids_def)
    have d: "distinct (map cj_id (db_cronjobs db))" using db_wfD(2)[OF assms] by (simp add: cj_ids_def)
    have "run_in_scope db cl r \<longleftrightarrow> in_scope cl c"
      using c d unfolding run_in_scope_def distinct_map by (metis inj_onD)
    then show ?thesis using filter_id_single[OF d c(1), of "in_scope cl"] c(2) by simp
  qed
  have "concat (map (\<lambda>r. map fst (map (Pair r) (filter (\<lambda>c. cj_id c = jr_cronjob r \<and> in_scope cl c) (db_cronjobs db)))) rs)
      = filter (run_in_scope db cl) rs" if "set rs \<subseteq> set (db_runs db)" for rs
    using that
  proof (induction rs)
    case (Cons a as)
    then show ?case using step[of a] by simp
  qed simp
  moreover have "set (runs_since tx k (db_runs db)) \<subseteq> set (db_runs db)" by (auto simp: runs_since_def)
  ultimately show ?thesis by (simp add: live_join_def map_concat comp_def)
qed

lemma set_map_filter: "set (List.map_filter f xs) = {y. \<exists>x \<in> set xs. f x = Some y}"
  by (force simp: List.map_filter_def)

lemma sql_limit_prefix: "\<exists>ys. xs = sql_limit n xs @ ys"
  by (auto simp: sql_limit_def intro: exI[of _ "drop (nat n) xs"])

lemma set_sql_limit: "set (sql_limit n xs) \<subseteq> set xs"
  by (auto simp: sql_limit_def dest: in_set_takeD)

lemma sorted_sql_limit: "sorted_wrt R xs \<Longrightarrow> sorted_wrt R (sql_limit n xs)"
  by (simp add: sql_limit_def sorted_wrt_take)

lemma group_keys_set: "k \<in> set (group_keys j) \<longleftrightarrow> (\<exists>r c. (r, c) \<in> set j \<and> k = (cj_id c, cj_key c))"
  by (auto simp: group_keys_def)

lemma remdups_length_le: "length (remdups xs) \<le> length xs"
  by (simp add: length_remdups_leq)

end
