(* ===== verification/Retention.thy ===== *)
theory Retention
  imports Store_Query
begin

text \<open>
  \<open>internal/storage/retention.go\<close>: the hourly maintenance and its loop. \<open>ad t n\<close> is
  \<open>t.AddDate(0, 0, n)\<close>, calendar arithmetic in the zone of \<open>t\<close>; \<open>t1\<close> and \<open>t2\<close> are the two
  readings of the clock. An error of a statement is logged and the next statement runs.
\<close>

definition runRetention ::
  "(gotime \<Rightarrow> string) \<Rightarrow> (gotime \<Rightarrow> int \<Rightarrow> gotime) \<Rightarrow> gotime \<Rightarrow> gotime \<Rightarrow> int \<Rightarrow> int \<Rightarrow> db \<Rightarrow> db" where
  "runRetention tx ad t1 t2 days log_days db0 =
     (let log_before = ad t1 (- log_days);
          db1 = keep_on_error db0 (DeleteOldLogLines tx db0 log_before);
          before = ad t2 (- days);
          db2 = keep_on_error db1 (DeleteOldData tx db1 before)
      in keep_on_error db2 (PurgeDeletedCronJobs tx db2 before))"

text \<open>The goroutine: one pass at once, then one per tick until the context is cancelled.\<close>

datatype ret_event = Tick gotime gotime | Done

fun retention_loop ::
  "(gotime \<Rightarrow> string) \<Rightarrow> (gotime \<Rightarrow> int \<Rightarrow> gotime) \<Rightarrow> int \<Rightarrow> int \<Rightarrow> ret_event list \<Rightarrow> db \<Rightarrow> db" where
  "retention_loop tx ad days log_days [] db = db"
| "retention_loop tx ad days log_days (Done # es) db = db"
| "retention_loop tx ad days log_days (Tick t1 t2 # es) db =
     retention_loop tx ad days log_days es (runRetention tx ad t1 t2 days log_days db)"

definition StartRetention ::
  "(gotime \<Rightarrow> string) \<Rightarrow> (gotime \<Rightarrow> int \<Rightarrow> gotime) \<Rightarrow> gotime \<Rightarrow> gotime \<Rightarrow> int \<Rightarrow> int \<Rightarrow> ret_event list \<Rightarrow> db \<Rightarrow> db" where
  "StartRetention tx ad t1 t2 days log_days es db =
     retention_loop tx ad days log_days es (runRetention tx ad t1 t2 days log_days db)"

section \<open>Effect of each statement on the tables\<close>

text \<open>On a set of instants the driver's text orders as the instants do.\<close>

definition text_order :: "(gotime \<Rightarrow> string) \<Rightarrow> gotime set \<Rightarrow> bool" where
  "text_order tx T \<longleftrightarrow> (\<forall>a \<in> T. \<forall>b \<in> T. tx a < tx b \<longleftrightarrow> a < b)"

lemma text_orderD: "text_order tx T \<Longrightarrow> a \<in> T \<Longrightarrow> b \<in> T \<Longrightarrow> tx a < tx b \<longleftrightarrow> a < b"
  by (simp add: text_order_def)

definition starts :: "db \<Rightarrow> gotime set" where "starts db = jr_started ` set (db_runs db)"

definition deletions :: "db \<Rightarrow> gotime set" where
  "deletions db = {t. \<exists>c \<in> set (db_cronjobs db). cj_deleted c = Some t}"

lemma drop_runs_tables [db_simps]:
  "db_runs (drop_runs P db) = filter (\<lambda>r. \<not> P r) (db_runs db)"
  "db_cronjobs (drop_runs P db) = db_cronjobs db" "db_clusters (drop_runs P db) = db_clusters db"
  "db_logs (drop_runs P db) = filter (\<lambda>l. ll_run l \<notin> set (map jr_id (filter P (db_runs db)))) (db_logs db)"
  "db_down (drop_runs P db) = db_down db"
  by (simp_all add: drop_runs_def Let_def)

lemma drop_runs_none: "\<forall>r \<in> set (db_runs db). \<not> P r \<Longrightarrow> drop_runs P db = db"
  by (simp add: drop_runs_def filter_False filter_True)

lemma drop_cronjobs_childless:
  assumes "\<forall>c \<in> set (db_cronjobs db). P c \<longrightarrow> cj_id c \<notin> set (map jr_cronjob (db_runs db))"
  shows "drop_cronjobs P db = db\<lparr>db_cronjobs := filter (\<lambda>c. \<not> P c) (db_cronjobs db)\<rparr>"
  unfolding drop_cronjobs_def Let_def
proof (rule drop_runs_none, safe)
  fix r assume r: "r \<in> set (db_runs (db\<lparr>db_cronjobs := filter (\<lambda>c. \<not> P c) (db_cronjobs db)\<rparr>))"
    and "jr_cronjob r \<in> set (map cj_id (filter P (db_cronjobs db)))"
  then obtain c where c: "c \<in> set (db_cronjobs db)" "P c" "jr_cronjob r = cj_id c" by auto
  from r have "jr_cronjob r \<in> set (map jr_cronjob (db_runs db))" by simp
  with assms c show False by auto
qed

lemma purge_eq:
  "drop_cronjobs (purgeable tx db before) db
   = db\<lparr>db_cronjobs := filter (\<lambda>c. \<not> purgeable tx db before c) (db_cronjobs db)\<rparr>"
  by (rule drop_cronjobs_childless) (simp add: purgeable_def)

lemma purge_tables:
  assumes "db_down db ''PurgeDeletedCronJobs'' = None"
    and "keep_on_error db (PurgeDeletedCronJobs tx db before) = db'"
  shows "db_runs db' = db_runs db" and "db_logs db' = db_logs db"
    and "db_cronjobs db' = filter (\<lambda>c. \<not> purgeable tx db before c) (db_cronjobs db)"
    and "db_samples db' = db_samples db" and "db_clusters db' = db_clusters db"
  using assms by (auto simp: PurgeDeletedCronJobs_def exec_sql_up purge_eq)

lemma log_run: "db_wf db \<Longrightarrow> l \<in> set (db_logs db) \<Longrightarrow> \<exists>r \<in> set (db_runs db). jr_id r = ll_run l"
  using db_wfD(8)[of db l] by (auto simp: jr_ids_def)

lemma run_unique: "db_wf db \<Longrightarrow> r \<in> set (db_runs db) \<Longrightarrow> r' \<in> set (db_runs db) \<Longrightarrow> jr_id r = jr_id r' \<Longrightarrow> r = r'"
  using db_wfD(4)[of db] by (auto simp: jr_ids_def distinct_map dest: inj_onD)

text \<open>The start of the run a log line belongs to.\<close>

definition log_start :: "db \<Rightarrow> log_line \<Rightarrow> gotime" where
  "log_start db l = (case find (\<lambda>r. jr_id r = ll_run l) (db_runs db) of None \<Rightarrow> zero_time | Some r \<Rightarrow> jr_started r)"

lemma log_start_eq:
  "db_wf db \<Longrightarrow> r \<in> set (db_runs db) \<Longrightarrow> jr_id r = ll_run l \<Longrightarrow> log_start db l = jr_started r"
  using find_distinct_key[of jr_id "db_runs db" r] db_wfD(4)[of db] by (simp add: log_start_def jr_ids_def)

lemma logs_after_drop:
  assumes "db_wf db" and "l \<in> set (db_logs db)"
  shows "ll_run l \<in> set (map jr_id (filter (\<lambda>r. tx (jr_started r) < k) (db_runs db)))
     \<longleftrightarrow> tx (log_start db l) < k"
proof -
  from log_run[OF assms] obtain r where r: "r \<in> set (db_runs db)" "jr_id r = ll_run l" by blast
  have "ll_run l \<in> set (map jr_id (filter (\<lambda>r. tx (jr_started r) < k) (db_runs db)))
      \<longleftrightarrow> tx (jr_started r) < k"
  proof
    assume "ll_run l \<in> set (map jr_id (filter (\<lambda>r. tx (jr_started r) < k) (db_runs db)))"
    then obtain r' where in': "r' \<in> set (filter (\<lambda>r. tx (jr_started r) < k) (db_runs db))"
      and id': "ll_run l = jr_id r'"
      unfolding set_map by (rule imageE)
    from in' id' have r': "r' \<in> set (db_runs db)" "jr_id r' = ll_run l" "tx (jr_started r') < k" by simp_all
    from run_unique[OF assms(1) r'(1) r(1)] r'(2) r(2) have "r' = r" by simp
    with r'(3) show "tx (jr_started r) < k" by simp
  next
    assume "tx (jr_started r) < k"
    with r(1) have "r \<in> set (filter (\<lambda>r. tx (jr_started r) < k) (db_runs db))" by simp
    from imageI[OF this, of jr_id] r(2)
    show "ll_run l \<in> set (map jr_id (filter (\<lambda>r. tx (jr_started r) < k) (db_runs db)))" by simp
  qed
  with log_start_eq[OF assms(1) r] show ?thesis by simp
qed

section \<open>The property\<close>

text \<open>C13. What one pass of the maintenance leaves, when its statements succeed: exactly the
  runs that started no earlier than the data cutoff; of the log lines exactly those whose
  run is as recent as both cutoffs ask; and of the CronJobs every live one, every one deleted
  since the cutoff and every one that still has a run. Clusters are never removed.\<close>

theorem retention_keeps:
  assumes wf: "db_wf db" and up: "db_down db = (\<lambda>_. None)"
    and order: "text_order tx (starts db \<union> deletions db \<union> {ad t1 (- log_days), ad t2 (- days)})"
    and res: "runRetention tx ad t1 t2 days log_days db = db'"
  shows "db_runs db' = filter (\<lambda>r. ad t2 (- days) \<le> jr_started r) (db_runs db)
     \<and> db_logs db' = filter (\<lambda>l. ad t1 (- log_days) \<le> log_start db l \<and> ad t2 (- days) \<le> log_start db l) (db_logs db)
     \<and> (db_cronjobs db' = filter (\<lambda>c. cj_deleted c = None \<or> ad t2 (- days) \<le> the (cj_deleted c) \<or> (\<exists>r \<in> set (db_runs db'). jr_cronjob r = cj_id c)) (db_cronjobs db))
     \<and> db_clusters db' = db_clusters db"
proof (intro conjI)
  let ?lb = "ad t1 (- log_days)" and ?b = "ad t2 (- days)"
  let ?old = "map jr_id (filter (\<lambda>r. tx (jr_started r) < tx ?lb) (db_runs db))"
  let ?db1 = "db\<lparr>db_logs := filter (\<lambda>l. ll_run l \<notin> set ?old) (db_logs db)\<rparr>"
  let ?db2 = "drop_runs (\<lambda>r. tx (jr_started r) < tx ?b) ?db1"
  have one: "keep_on_error db (DeleteOldLogLines tx db ?lb) = ?db1"
    using up by (simp add: DeleteOldLogLines_def exec_sql_up Let_def)
  have two: "keep_on_error ?db1 (DeleteOldData tx ?db1 ?b) = ?db2"
    using up by (simp add: DeleteOldData_def exec_sql_up)
  have three: "keep_on_error ?db2 (PurgeDeletedCronJobs tx ?db2 ?b) = db'"
    using res unfolding runRetention_def Let_def one two .
  have down: "db_down ?db2 ''PurgeDeletedCronJobs'' = None" using up by (simp add: db_simps)
  note purged = purge_tables[OF down three]
  have o1: "\<not> tx (jr_started r) < tx ?b \<longleftrightarrow> ?b \<le> jr_started r" if "r \<in> set (db_runs db)" for r
    using text_orderD[OF order, of "jr_started r" ?b] that by (simp add: starts_def not_less)
  show "db_runs db' = filter (\<lambda>r. ?b \<le> jr_started r) (db_runs db)"
    unfolding purged db_simps using o1 by (intro filter_cong) auto
  have logs: "\<not> tx (log_start db l) < tx ?lb \<longleftrightarrow> ?lb \<le> log_start db l"
    "\<not> tx (log_start db l) < tx ?b \<longleftrightarrow> ?b \<le> log_start db l" if l: "l \<in> set (db_logs db)" for l
  proof -
    from log_run[OF wf l] obtain r where "r \<in> set (db_runs db)" "jr_id r = ll_run l" by blast
    then have "log_start db l \<in> starts db" using log_start_eq[OF wf] by (auto simp: starts_def)
    then show "\<not> tx (log_start db l) < tx ?lb \<longleftrightarrow> ?lb \<le> log_start db l"
      "\<not> tx (log_start db l) < tx ?b \<longleftrightarrow> ?b \<le> log_start db l"
      using text_orderD[OF order] by (simp_all add: not_less)
  qed
  have "db_logs ?db2 = filter (\<lambda>l. ll_run l \<notin> set (map jr_id (filter (\<lambda>r. tx (jr_started r) < tx ?b) (db_runs db))))
      (filter (\<lambda>l. ll_run l \<notin> set ?old) (db_logs db))"
    by (simp add: drop_runs_tables(4))
  also have "\<dots> = filter (\<lambda>l. ?lb \<le> log_start db l \<and> ?b \<le> log_start db l) (db_logs db)"
    unfolding filter_filter by (intro filter_cong refl) (simp only: logs_after_drop[OF wf] logs)
  finally have "db_logs ?db2 = filter (\<lambda>l. ?lb \<le> log_start db l \<and> ?b \<le> log_start db l) (db_logs db)" .
  then show "db_logs db' = filter (\<lambda>l. ?lb \<le> log_start db l \<and> ?b \<le> log_start db l) (db_logs db)"
    unfolding purged .
  have "\<not> purgeable tx ?db2 ?b c \<longleftrightarrow> cj_deleted c = None \<or> ?b \<le> the (cj_deleted c)
      \<or> (\<exists>r \<in> set (db_runs db'). jr_cronjob r = cj_id c)" if c: "c \<in> set (db_cronjobs db)" for c
  proof (cases "cj_deleted c")
    case (Some t)
    have "tx t < tx ?b \<longleftrightarrow> t < ?b"
      by (rule text_orderD[OF order]) (use Some c in \<open>auto simp: deletions_def\<close>)
    moreover have "cj_id c \<notin> set (map jr_cronjob (db_runs ?db2)) \<longleftrightarrow> \<not> (\<exists>r \<in> set (db_runs db'). jr_cronjob r = cj_id c)"
      unfolding purged(1) by force
    ultimately show ?thesis using Some by (simp add: purgeable_def not_less)
  qed (simp add: purgeable_def)
  then show "db_cronjobs db' = filter (\<lambda>c. cj_deleted c = None \<or> ?b \<le> the (cj_deleted c)
      \<or> (\<exists>r \<in> set (db_runs db'). jr_cronjob r = cj_id c)) (db_cronjobs db)"
    unfolding purged(3) db_simps by (intro filter_cong) simp_all
  show "db_clusters db' = db_clusters db" unfolding purged db_simps by simp
qed

end
