(* ===== verification/Store_Props.thy ===== *)
theory Store_Props
  imports Store_Fleet Retention
begin

text \<open>
  What the store promises its callers, over any sequence of its statements: the invariant,
  the permanence of history, the life of a deleted CronJob, reading back what was written,
  and the accounting of the fleet-wide aggregates.
\<close>

lemmas write_defs = UpsertCluster_def MarkClustersDeletedExcept_def SetClusterMetricsEnabled_def
  UpsertCronJob_def MarkCronJobDeleted_def UpsertJobRun_def UpdateJobRunStatus_def UpdateJobRunNode_def
  MarkRunFailed_def AddLogSize_def FinalizeResourceUsage_def InsertResourceSample_def Let_def

section \<open>Step lemmas\<close>

lemma insert_lines_effect:
  "insert_lines now i ls db = Inr db' \<Longrightarrow>
   (\<exists>new. db_logs db' = db_logs db @ new \<and> map ll_line new = ls \<and> (\<forall>l \<in> set new. ll_run l = i \<and> ll_ts l = trunc_sec now))
   \<and> db_runs db' = db_runs db \<and> db_cronjobs db' = db_cronjobs db \<and> db_down db' = db_down db"
proof (induction ls arbitrary: db)
  case Nil
  then show ?case by simp
next
  case (Cons l ls)
  let ?db = "insert_log_line now i l db"
  from Cons.prems have "insert_lines now i ls ?db = Inr db'" by (auto split: sum.splits if_splits)
  from Cons.IH[OF this] obtain new where "db_logs db' = db_logs ?db @ new" "map ll_line new = ls"
    "\<forall>l \<in> set new. ll_run l = i \<and> ll_ts l = trunc_sec now" "db_runs db' = db_runs db" "db_cronjobs db' = db_cronjobs db"
    "db_down db' = db_down db" by auto
  then show ?case
    by (intro conjI exI[of _ "\<lparr>ll_id = db_log_seq db + 1, ll_run = i, ll_ts = trunc_sec now, ll_line = l\<rparr> # new"])
      (simp_all add: insert_log_line_def)
qed

lemma insert_lines_succeeds:
  "i \<in> set (jr_ids db) \<Longrightarrow> db_down db ''BatchInsertLogLines exec'' = None \<Longrightarrow> \<exists>db'. insert_lines now i ls db = Inr db'"
proof (induction ls arbitrary: db)
  case Nil
  then show ?case by simp
next
  case (Cons l ls)
  then have "\<exists>db'. insert_lines now i ls (insert_log_line now i l db) = Inr db'" by (intro Cons.IH) simp_all
  with Cons.prems show ?case by (simp add: exec_sql_up)
qed

fun drops_runs :: "db_op \<Rightarrow> bool" where
  "drops_runs (Op_DeleteOldData _ _) = True"
| "drops_runs _ = False"

fun drops_logs :: "db_op \<Rightarrow> bool" where
  "drops_logs (Op_DeleteOldData _ _) = True"
| "drops_logs (Op_DeleteOldLogs _ _) = True"
| "drops_logs _ = False"

lemma exec_op_runs:
  "exec_op db e = Inr db' \<Longrightarrow> \<not> drops_runs e \<Longrightarrow> \<exists>new. jr_ids db' = jr_ids db @ new"
proof (cases e)
  case (Op_InsertLogs now i ls)
  moreover assume "exec_op db e = Inr db'"
  ultimately show ?thesis
    using insert_lines_effect[OF BatchInsertLogLines_Inr] by (fastforce simp: jr_ids_def)
next
  case (Op_Purge tx t)
  moreover assume "exec_op db e = Inr db'"
  ultimately show ?thesis by (auto simp: PurgeDeletedCronJobs_def purge_eq jr_ids_def)
qed (auto simp: write_defs DeleteOldLogLines_def jr_ids_def map_upd_where_same split: if_splits)

lemma exec_op_logs:
  "exec_op db e = Inr db' \<Longrightarrow> \<not> drops_logs e \<Longrightarrow> \<exists>new. db_logs db' = db_logs db @ new"
proof (cases e)
  case (Op_InsertLogs now i ls)
  moreover assume "exec_op db e = Inr db'"
  ultimately show ?thesis using insert_lines_effect[OF BatchInsertLogLines_Inr] by fastforce
next
  case (Op_Purge tx t)
  moreover assume "exec_op db e = Inr db'"
  ultimately show ?thesis by (auto simp: PurgeDeletedCronJobs_def purge_eq)
qed (auto simp: write_defs split: if_splits)

lemma grows_trans: "\<exists>x. b = a @ x \<Longrightarrow> \<exists>y. c = b @ y \<Longrightarrow> \<exists>z. c = a @ z"
  by auto

lemma run_ops_runs: "\<forall>e \<in> set es. \<not> drops_runs e \<Longrightarrow> \<exists>new. jr_ids (run_ops db es) = jr_ids db @ new"
proof (induction es arbitrary: db)
  case (Cons e es)
  have "\<exists>new. jr_ids (run_op db e) = jr_ids db @ new"
    by (rule run_op_cases) (use exec_op_runs Cons.prems in auto)
  from grows_trans[OF this Cons.IH] Cons.prems show ?case by simp
qed simp

lemma run_ops_logs: "\<forall>e \<in> set es. \<not> drops_logs e \<Longrightarrow> \<exists>new. db_logs (run_ops db es) = db_logs db @ new"
proof (induction es arbitrary: db)
  case (Cons e es)
  have "\<exists>new. db_logs (run_op db e) = db_logs db @ new"
    by (rule run_op_cases) (use exec_op_logs Cons.prems in auto)
  from grows_trans[OF this Cons.IH] Cons.prems show ?case by simp
qed simp

definition find_cronjob :: "db \<Rightarrow> string \<Rightarrow> cronjob option" where
  "find_cronjob db i = find (\<lambda>c. cj_id c = i) (db_cronjobs db)"

fun revives :: "string \<Rightarrow> db_op \<Rightarrow> bool" where
  "revives i (Op_UpsertCronJob c) = (cj_id c = i)"
| "revives i _ = False"

lemma find_filter_distinct:
  "distinct (map k xs) \<Longrightarrow> find (\<lambda>x. k x = i) xs = Some c \<Longrightarrow>
   find (\<lambda>x. k x = i) (filter P xs) = (if P c then Some c else None)"
  by (induction xs) (auto simp: find_None_all image_iff split: if_splits)

lemma exec_op_deleted:
  assumes "exec_op db e = Inr db'" "\<not> revives i e" "db_wf db"
    and c: "find_cronjob db i = Some c" "cj_deleted c = Some t"
  shows "find_cronjob db' i \<in> {None, Some c}"
proof (cases e)
  case (Op_InsertLogs now j ls)
  then show ?thesis using assms insert_lines_effect[OF BatchInsertLogLines_Inr]
    by (fastforce simp: find_cronjob_def)
next
  case (Op_Purge tx t')
  then show ?thesis using assms find_filter_distinct[of cj_id "db_cronjobs db" i c] db_wfD(2)[of db]
    by (auto simp: PurgeDeletedCronJobs_def purge_eq find_cronjob_def cj_ids_def split: if_splits)
next
  case (Op_UpsertCronJob x)
  have "cj_id c = i" using c(1) find_Some_in by (fastforce simp: find_cronjob_def)
  with Op_UpsertCronJob assms show ?thesis
    by (auto simp: UpsertCronJob_def find_cronjob_def find_upd_where find_append split: if_splits
        dest: find_Some_in)
next
  case (Op_MarkCronJobDeleted now j)
  with assms show ?thesis
    by (auto simp: MarkCronJobDeleted_def find_cronjob_def find_upd_where)
qed (use assms in \<open>auto simp: write_defs DeleteOldLogLines_def DeleteOldData_def drop_runs_tables
       find_cronjob_def split: if_splits\<close>)

lemma exec_op_none:
  assumes "exec_op db e = Inr db'" "\<not> revives i e" "find_cronjob db i = None"
  shows "find_cronjob db' i = None"
proof (cases e)
  case (Op_InsertLogs now j ls)
  then show ?thesis using assms insert_lines_effect[OF BatchInsertLogLines_Inr]
    by (fastforce simp: find_cronjob_def)
next
  case (Op_Purge tx t')
  then show ?thesis using assms
    by (auto simp: PurgeDeletedCronJobs_def purge_eq find_cronjob_def find_None_all)
next
  case (Op_UpsertCronJob x)
  with assms show ?thesis
    by (auto simp: UpsertCronJob_def find_cronjob_def find_upd_where find_append split: if_splits)
next
  case (Op_MarkCronJobDeleted now j)
  with assms show ?thesis
    by (auto simp: MarkCronJobDeleted_def find_cronjob_def find_upd_where)
qed (use assms in \<open>auto simp: write_defs DeleteOldLogLines_def DeleteOldData_def drop_runs_tables
       find_cronjob_def split: if_splits\<close>)

lemma run_ops_deleted:
  assumes "\<forall>e \<in> set es. \<not> revives i e" "db_wf db" "find_cronjob db i = Some c" "cj_deleted c = Some t"
  shows "find_cronjob (run_ops db es) i \<in> {None, Some c}"
proof -
  have none: "find_cronjob (run_ops d fs) i = None"
    if "\<forall>e \<in> set fs. \<not> revives i e" "find_cronjob d i = None" "db_wf d" for d fs
    using that
  proof (induction fs arbitrary: d)
    case (Cons e fs)
    have "find_cronjob (run_op d e) i = None \<and> db_wf (run_op d e)"
    proof (rule run_op_cases)
      fix d' assume "exec_op d e = Inr d'"
      then show "find_cronjob d' i = None \<and> db_wf d'"
        using exec_op_wf[OF Cons.prems(3)] exec_op_none[of d e d' i] Cons.prems by auto
    qed (use Cons.prems in simp)
    then show ?case using Cons by simp
  qed simp
  from assms(1-3) show ?thesis
  proof (induction es arbitrary: db)
    case (Cons e es)
    have "find_cronjob (run_op db e) i \<in> {None, Some c} \<and> db_wf (run_op db e)"
    proof (rule run_op_cases)
      fix d' assume "exec_op db e = Inr d'"
      then show "find_cronjob d' i \<in> {None, Some c} \<and> db_wf d'"
        using exec_op_wf[OF Cons.prems(2)] exec_op_deleted[OF _ _ Cons.prems(2,3) assms(4)] Cons.prems by auto
    qed (use Cons.prems in simp)
    then show ?case using Cons none[of es "run_op db e"] by auto
  qed simp
qed

section \<open>The groups of the ranking\<close>

definition recent_runs_of :: "(gotime \<Rightarrow> string) \<Rightarrow> string \<Rightarrow> db \<Rightarrow> cronjob \<Rightarrow> job_run list" where
  "recent_runs_of tx cutoff db c = filter (\<lambda>r. jr_cronjob r = cj_id c) (runs_since tx cutoff (db_runs db))"

lemma group_rows_eq:
  assumes wf: "db_wf db" and c: "c \<in> set (db_cronjobs db)" and scope: "in_scope cl c"
  shows "group_rows (live_join tx k db cl) (cj_id c, cj_key c) = recent_runs_of tx k db c"
proof -
  let ?j = "live_join tx k db cl"
  have uniq: "c' = c" if "c' \<in> set (db_cronjobs db)" "cj_id c' = cj_id c" for c'
    using db_wfD(2)[OF wf] that c by (auto simp: cj_ids_def distinct_map dest: inj_onD)
  have "group_rows ?j (cj_id c, cj_key c) = map fst (filter (\<lambda>x. jr_cronjob (fst x) = cj_id c) ?j)"
    unfolding group_rows_def
    by (intro arg_cong[where f = "map fst"] filter_cong) (auto simp: live_join_runs dest: uniq)
  also have "\<dots> = filter (\<lambda>r. jr_cronjob r = cj_id c) (map fst ?j)" by (simp add: filter_map comp_def)
  also have "\<dots> = recent_runs_of tx k db c"
    unfolding live_join_fst[OF wf] recent_runs_of_def filter_filter
    by (rule filter_cong) (use c scope in \<open>auto simp: run_in_scope_def\<close>)
  finally show ?thesis .
qed

lemma rank_expr_Nil: "rankValueExpr m = Some expr \<Longrightarrow> expr [] = Some v \<Longrightarrow> v \<le> 0"
  by (auto simp: rankValueExpr_def sql_max_def sql_avg_def count_status_def split: if_splits)

lemma rank_row_Some:
  "rank_row expr j k = Some x \<longleftrightarrow> (\<exists>v > 0. expr (group_rows j k) = Some v \<and>
     x = \<lparr>rk_cronjob = fst k, rk_cluster = fst (snd k), rk_ns = fst (snd (snd k)),
          rk_name = snd (snd (snd k)), rk_runs = int (length (group_rows j k)),
          rk_failed = count_status ''failed'' (group_rows j k), rk_value = v\<rparr>)"
  by (auto simp: rank_row_def Let_def split: option.splits if_splits)

section \<open>Properties\<close>

text \<open>C9. Whatever sequence of statements is executed, with the driver failing any of them at
  any time, the database keeps unique keys, no dangling reference, only the statuses and
  triggers the schema allows, no negative duration, and line and sample ids that grow in
  insertion order.\<close>

theorem store_invariant: "db_wf (run_ops empty_db es)"
  by (rule run_ops_wf[OF empty_db_wf])

text \<open>C10. Until the data retention runs, history only grows: no statement removes or reorders
  a run, whatever happens to its CronJob (including the purge of deleted CronJobs), and
  without the log retention the stored log lines are never lost or altered either.\<close>

theorem history_append_only:
  assumes "\<forall>e \<in> set es. \<not> drops_runs e"
  shows "(\<exists>new. jr_ids (run_ops db es) = jr_ids db @ new)
     \<and> ((\<forall>e \<in> set es. \<not> drops_logs e) \<longrightarrow> (\<exists>new. db_logs (run_ops db es) = db_logs db @ new))"
  using run_ops_runs[OF assms] run_ops_logs by blast

text \<open>C11. A soft-deleted CronJob keeps its row, with the time of its first deletion, until it
  is upserted again or purged; while it is deleted no listing shows it.\<close>

theorem deleted_until_upserted:
  assumes "db_wf db" and "find_cronjob db i = Some c" and "cj_deleted c = Some t"
    and "\<forall>e \<in> set es. \<not> revives i e"
  shows "find_cronjob (run_ops db es) i \<in> {None, Some c}
     \<and> (ListCronJobs (run_ops db es) cl = Inr l \<longrightarrow> i \<notin> cj_id ` set l)"
proof (intro conjI)
  show one: "find_cronjob (run_ops db es) i \<in> {None, Some c}"
    by (rule run_ops_deleted[OF assms(4,1,2,3)])
  show "ListCronJobs (run_ops db es) cl = Inr l \<longrightarrow> i \<notin> cj_id ` set l"
  proof
  assume "ListCronJobs (run_ops db es) cl = Inr l"
  then have l: "set l \<subseteq> {x \<in> set (db_cronjobs (run_ops db es)). cj_deleted x = None}"
    by (auto simp: ListCronJobs_def live_cronjobs_def)
  have "distinct (map cj_id (db_cronjobs (run_ops db es)))"
    using db_wfD(2)[OF run_ops_wf[OF assms(1)]] by (simp add: cj_ids_def)
  from find_distinct_key[OF this] one assms(3) l show "i \<notin> cj_id ` set l"
    by (fastforce simp: find_cronjob_def)
  qed
qed

text \<open>C14. Log lines read back: a batch written for a stored run is appended, in order, to the
  run's lines, the tail query returns the last \<open>n\<close> lines oldest first, and the other runs'
  lines are as they were.\<close>

theorem logs_read_back:
  assumes wf: "db_wf db" and run: "i \<in> set (jr_ids db)" and up: "db_down db = (\<lambda>_. None)" and n: "0 < n"
  shows "\<exists>db' old new. BatchInsertLogLines now db i ls = Inr db' \<and> GetLogLines db i = Inr old
    \<and> GetLogLines db' i = Inr (old @ new) \<and> map ll_line new = ls
    \<and> GetLogLinesTail db' i n = Inr (drop (length (old @ new) - nat n) (old @ new))
    \<and> (\<forall>j. j \<noteq> i \<longrightarrow> GetLogLines db' j = GetLogLines db j)"
proof -
  obtain db' where ins: "insert_lines now i ls db = Inr db'"
    using insert_lines_succeeds[OF run] up by auto
  then have batch: "BatchInsertLogLines now db i ls = Inr db'"
    using up by (cases ls) (auto simp: BatchInsertLogLines_def exec_sql_up)
  from insert_lines_effect[OF ins] obtain new where new: "db_logs db' = db_logs db @ new" "map ll_line new = ls"
    "\<forall>l \<in> set new. ll_run l = i" "db_down db' = db_down db" by auto
  have wf': "db_wf db'" by (rule insert_lines_wf[OF wf ins])
  have here: "logs_of db' i = logs_of db i @ new" using new by (simp add: logs_of_def filter_id_conv)
  have other: "logs_of db' j = logs_of db j" if "j \<noteq> i" for j
    using new that by (auto simp: logs_of_def filter_empty_conv)
  show ?thesis
    by (rule exI[of _ db'], rule exI[of _ "logs_of db i"], rule exI[of _ new])
      (use batch here other new up in \<open>simp add: GetLogLines_eq[OF wf] GetLogLines_eq[OF wf']
         GetLogLinesTail_eq[OF wf' n] sql_rows_def exec_sql_up\<close>)
qed

lemma fleet_accounts:
  assumes wf: "db_wf db" and res: "GetFleetStats tx dn db cl days = Inr f"
  shows "fs_runs f = int (length (filter (run_in_scope db cl) (runs_since tx (dn days) (db_runs db))))
     \<and> fs_runs f = fs_succeeded f + fs_failed f + fs_running f
     \<and> fs_failing f \<le> fs_failed f
     \<and> (fs_failing f = 0 \<longleftrightarrow> fs_failed f = 0)
     \<and> fs_suspended f \<le> fs_cronjobs f
     \<and> fs_namespaces f \<le> fs_cronjobs f
     \<and> 0 \<le> SuccessRate f \<and> SuccessRate f \<le> 100"
proof (intro conjI)
  let ?rs = "filter (run_in_scope db cl) (runs_since tx (dn days) (db_runs db))"
  let ?cs = "scope_cronjobs db cl"
  let ?fl = "filter (\<lambda>r. jr_status r = ''failed'') ?rs"
  from res have f: "fs_runs f = int (length ?rs)" "fs_succeeded f = count_status ''succeeded'' ?rs"
    "fs_failed f = count_status ''failed'' ?rs" "fs_running f = count_status ''running'' ?rs"
    "fs_failing f = int (length (remdups (map jr_cronjob ?fl)))"
    "fs_suspended f = int (length (filter cj_suspended ?cs))" "fs_cronjobs f = int (length ?cs)"
    "fs_namespaces f = int (length (remdups (map cj_ns ?cs)))"
    by (auto simp: GetFleetStats_def Let_def live_join_fst[OF wf] split: sum.splits)
  show "fs_runs f = int (length ?rs)" by (rule f(1))
  have "\<forall>r \<in> set ?rs. status_ok (jr_status r)"
    using db_wfD(6)[OF wf] by (auto simp: runs_since_def run_ok_def)
  from count_status_split[OF this] show "fs_runs f = fs_succeeded f + fs_failed f + fs_running f"
    by (simp add: f)
  show "fs_failing f \<le> fs_failed f"
    using length_remdups_leq[of "map jr_cronjob ?fl"] by (simp add: f count_status_def)
  show "fs_failing f = 0 \<longleftrightarrow> fs_failed f = 0" by (simp add: f count_status_def)
  show "fs_suspended f \<le> fs_cronjobs f" by (simp add: f)
  show "fs_namespaces f \<le> fs_cronjobs f" using length_remdups_leq[of "map cj_ns ?cs"] by (simp add: f)
  have "0 \<le> fs_succeeded f" "0 \<le> fs_failed f" by (simp_all add: f count_status_bounds)
  then have "0 \<le> SuccessRate f \<and> SuccessRate f \<le> 100"
    by (auto simp: SuccessRate_def Let_def divide_le_eq simp flip: of_int_add)
  then show "0 \<le> SuccessRate f" "SuccessRate f \<le> 100" by simp_all
qed

lemma top_list_is_top:
  assumes wf: "db_wf db" and expr: "rankValueExpr m = Some expr" and lim: "0 \<le> limit"
    and res: "GetTopCronJobs tx dn db cl m days limit = Inr l"
  shows "length l \<le> nat limit
     \<and> sorted_wrt (\<lambda>a b. rk_value b \<le> rk_value a) l
     \<and> (\<forall>x \<in> set l. 0 < rk_value x \<and> (\<exists>c \<in> set (scope_cronjobs db cl). rk_cronjob x = cj_id c \<and> expr (recent_runs_of tx (dn days) db c) = Some (rk_value x) \<and> rk_runs x = int (length (recent_runs_of tx (dn days) db c))))
     \<and> (\<forall>c \<in> set (scope_cronjobs db cl). \<forall>v > 0. expr (recent_runs_of tx (dn days) db c) = Some v \<longrightarrow> cj_id c \<in> rk_cronjob ` set l \<or> (length l = nat limit \<and> (\<forall>x \<in> set l. v \<le> rk_value x)))"
proof (intro conjI)
  let ?j = "live_join tx (dn days) db cl"
  define rows where "rows = List.map_filter (rank_row expr ?j) (group_keys ?j)"
  have l: "l = take (nat limit) (sort_desc rk_value rows)"
    using res expr lim by (simp add: GetTopCronJobs_def Let_def rows_def sql_limit_nonneg)
  have key: "\<exists>c \<in> set (scope_cronjobs db cl). k = (cj_id c, cj_key c)" if "k \<in> set (group_keys ?j)" for k
    using that by (auto simp: group_keys_set live_join_runs scope_cronjobs_def)
  note grp = group_rows_eq[OF wf, of _ cl tx "dn days"]
  show "length l \<le> nat limit" by (simp add: l)
  show sorted: "sorted_wrt (\<lambda>a b. rk_value b \<le> rk_value a) l"
    unfolding l by (rule sorted_wrt_take[OF sorted_sort_desc])
  show "\<forall>x \<in> set l. 0 < rk_value x \<and> (\<exists>c \<in> set (scope_cronjobs db cl). rk_cronjob x = cj_id c
      \<and> expr (recent_runs_of tx (dn days) db c) = Some (rk_value x)
      \<and> rk_runs x = int (length (recent_runs_of tx (dn days) db c)))"
  proof
    fix x assume "x \<in> set l"
    then have "x \<in> set rows" by (auto simp: l dest: in_set_takeD)
    then obtain k where k: "k \<in> set (group_keys ?j)" "rank_row expr ?j k = Some x"
      by (auto simp: rows_def set_map_filter)
    from key[OF k(1)] obtain c where c: "c \<in> set (scope_cronjobs db cl)" "k = (cj_id c, cj_key c)" by blast
    with grp[of c] k(2) show "0 < rk_value x \<and> (\<exists>c \<in> set (scope_cronjobs db cl). rk_cronjob x = cj_id c
      \<and> expr (recent_runs_of tx (dn days) db c) = Some (rk_value x)
      \<and> rk_runs x = int (length (recent_runs_of tx (dn days) db c)))"
      by (force simp: rank_row_Some scope_cronjobs_def)
  qed
  show "\<forall>c \<in> set (scope_cronjobs db cl). \<forall>v > 0. expr (recent_runs_of tx (dn days) db c) = Some v
      \<longrightarrow> cj_id c \<in> rk_cronjob ` set l \<or> (length l = nat limit \<and> (\<forall>x \<in> set l. v \<le> rk_value x))"
  proof (intro ballI allI impI)
    fix c v assume c: "c \<in> set (scope_cronjobs db cl)" and v: "0 < v"
      "expr (recent_runs_of tx (dn days) db c) = Some v"
    let ?k = "(cj_id c, cj_key c)"
    from c have c': "c \<in> set (db_cronjobs db)" "in_scope cl c" by (simp_all add: scope_cronjobs_def)
    note g = grp[OF c']
    have "recent_runs_of tx (dn days) db c \<noteq> []" using rank_expr_Nil[OF expr] v by auto
    then have "group_rows ?j ?k \<noteq> []" by (simp add: g)
    then have "?k \<in> set (group_keys ?j)" by (auto simp: group_rows_def filter_empty_conv group_keys_set) metis
    moreover obtain x where x: "rank_row expr ?j ?k = Some x" "rk_cronjob x = cj_id c" "rk_value x = v"
      using v g by (auto simp: rank_row_Some)
    ultimately have "x \<in> set (sort_desc rk_value rows)" by (auto simp: rows_def set_map_filter)
    then have "x \<in> set l \<or> x \<in> set (drop (nat limit) (sort_desc rk_value rows))"
      unfolding l by (metis Un_iff append_take_drop_id set_append)
    then show "cj_id c \<in> rk_cronjob ` set l \<or> (length l = nat limit \<and> (\<forall>x \<in> set l. v \<le> rk_value x))"
    proof
      assume "x \<in> set l" with x(2) show ?thesis by (metis imageI)
    next
      assume d: "x \<in> set (drop (nat limit) (sort_desc rk_value rows))"
      have "sorted_wrt (\<lambda>a b. rk_value b \<le> rk_value a) (l @ drop (nat limit) (sort_desc rk_value rows))"
        unfolding l append_take_drop_id by (rule sorted_sort_desc)
      with d x(3) have "\<forall>y \<in> set l. v \<le> rk_value y" by (auto simp: sorted_wrt_append)
      moreover from d have "nat limit < length (sort_desc rk_value rows)" by (cases "nat limit < length (sort_desc rk_value rows)") auto
      then have "length l = nat limit" by (simp add: l)
      ultimately show ?thesis by simp
    qed
  qed
qed

text \<open>C15. The overview adds up. Its statistics: the runs it reports are exactly the recent runs
  of the live CronJobs in scope, each counted once as succeeded, failed or running; there are
  failing CronJobs iff there are failed runs; and the success rate is a percentage. Its top
  lists: sorted, within their limit, every entry is a live CronJob in scope whose recent runs
  give its (positive) value, and a CronJob left out although its value is positive is beaten or
  equalled by every entry of a full list.\<close>

theorem overview_adds_up:
  assumes wf: "db_wf db"
  shows "(\<forall>f. GetFleetStats tx dn db cl days = Inr f \<longrightarrow>
     fs_runs f = int (length (filter (run_in_scope db cl) (runs_since tx (dn days) (db_runs db))))
     \<and> fs_runs f = fs_succeeded f + fs_failed f + fs_running f
     \<and> fs_failing f \<le> fs_failed f
     \<and> (fs_failing f = 0 \<longleftrightarrow> fs_failed f = 0)
     \<and> fs_suspended f \<le> fs_cronjobs f
     \<and> fs_namespaces f \<le> fs_cronjobs f
     \<and> 0 \<le> SuccessRate f \<and> SuccessRate f \<le> 100)
   \<and> (\<forall>m expr limit l. rankValueExpr m = Some expr \<and> 0 \<le> limit \<and> GetTopCronJobs tx dn db cl m days limit = Inr l \<longrightarrow>
     length l \<le> nat limit
     \<and> sorted_wrt (\<lambda>a b. rk_value b \<le> rk_value a) l
     \<and> (\<forall>x \<in> set l. 0 < rk_value x \<and> (\<exists>c \<in> set (scope_cronjobs db cl). rk_cronjob x = cj_id c \<and> expr (recent_runs_of tx (dn days) db c) = Some (rk_value x) \<and> rk_runs x = int (length (recent_runs_of tx (dn days) db c))))
     \<and> (\<forall>c \<in> set (scope_cronjobs db cl). \<forall>v > 0. expr (recent_runs_of tx (dn days) db c) = Some v \<longrightarrow> cj_id c \<in> rk_cronjob ` set l \<or> (length l = nat limit \<and> (\<forall>x \<in> set l. v \<le> rk_value x))))"
proof (rule conjI)
  show "\<forall>f. GetFleetStats tx dn db cl days = Inr f \<longrightarrow>
     fs_runs f = int (length (filter (run_in_scope db cl) (runs_since tx (dn days) (db_runs db))))
     \<and> fs_runs f = fs_succeeded f + fs_failed f + fs_running f
     \<and> fs_failing f \<le> fs_failed f
     \<and> (fs_failing f = 0 \<longleftrightarrow> fs_failed f = 0)
     \<and> fs_suspended f \<le> fs_cronjobs f
     \<and> fs_namespaces f \<le> fs_cronjobs f
     \<and> 0 \<le> SuccessRate f \<and> SuccessRate f \<le> 100"
    by (rule allI, rule impI, rule fleet_accounts[OF wf])
  show "\<forall>m expr limit l. rankValueExpr m = Some expr \<and> 0 \<le> limit \<and> GetTopCronJobs tx dn db cl m days limit = Inr l \<longrightarrow>
     length l \<le> nat limit
     \<and> sorted_wrt (\<lambda>a b. rk_value b \<le> rk_value a) l
     \<and> (\<forall>x \<in> set l. 0 < rk_value x \<and> (\<exists>c \<in> set (scope_cronjobs db cl). rk_cronjob x = cj_id c \<and> expr (recent_runs_of tx (dn days) db c) = Some (rk_value x) \<and> rk_runs x = int (length (recent_runs_of tx (dn days) db c))))
     \<and> (\<forall>c \<in> set (scope_cronjobs db cl). \<forall>v > 0. expr (recent_runs_of tx (dn days) db c) = Some v \<longrightarrow> cj_id c \<in> rk_cronjob ` set l \<or> (length l = nat limit \<and> (\<forall>x \<in> set l. v \<le> rk_value x)))"
    by (intro allI impI, elim conjE, rule top_list_is_top[OF wf])
qed

section \<open>Witnesses\<close>

text \<open>A database with one cluster, a live and a deleted CronJob, a failed run and a running
  one. Instants are small numbers; their text is a unary numeral, which orders as they do.\<close>

definition unary_text :: "gotime \<Rightarrow> string" where
  "unary_text t = replicate (nat t) CHR ''x''"

lemma replicate_less: "replicate m (c :: char) < replicate n c \<longleftrightarrow> m < n"
proof (induction n arbitrary: m)
  case (Suc n)
  then show ?case by (cases m) auto
qed simp

lemma unary_text_order: "\<forall>t \<in> T. 0 \<le> t \<Longrightarrow> text_order unary_text T"
  by (auto simp: text_order_def unary_text_def replicate_less)

definition demo_cronjob :: "string \<Rightarrow> gotime option \<Rightarrow> cronjob" where
  "demo_cronjob nm del = \<lparr>cj_id = nm, cj_cluster = ''c'', cj_ns = ''ns'', cj_name = nm,
     cj_schedule = ''0 * * * *'', cj_zone = None, cj_suspended = False, cj_cpu_request = None,
     cj_cpu_limit = None, cj_mem_request = None, cj_mem_limit = None, cj_last_success = None,
     cj_updated = 1, cj_deleted = del\<rparr>"

definition demo_run :: "string \<Rightarrow> string \<Rightarrow> gotime \<Rightarrow> string \<Rightarrow> job_run" where
  "demo_run i cj t st = (new_run undefined)\<lparr>jr_id := i, jr_cronjob := cj, jr_pod := ''p'',
     jr_trigger := ''scheduled'', jr_started := t, jr_status := st\<rparr>"

definition demo_db :: db where
  "demo_db = empty_db\<lparr>
     db_clusters := [\<lparr>cl_id = ''c'', cl_name = ''c'', cl_metrics = False, cl_created = 1, cl_deleted = None\<rparr>],
     db_cronjobs := [demo_cronjob ''live'' None, demo_cronjob ''gone'' (Some 3)],
     db_runs := [demo_run ''r1'' ''live'' 2 ''failed'', demo_run ''r2'' ''live'' 8 ''running''],
     db_logs := [\<lparr>ll_id = 1, ll_run = ''r1'', ll_ts = 2, ll_line = ''a''\<rparr>, \<lparr>ll_id = 2, ll_run = ''r2'', ll_ts = 8, ll_line = ''b''\<rparr>],
     db_log_seq := 2\<rparr>"

lemmas demo_defs = demo_db_def demo_run_def demo_cronjob_def empty_db_def new_run_def

lemma demo_wf: "db_wf demo_db"
  by (simp add: db_wf_def wf_defs demo_defs cl_ids_def cj_ids_def jr_ids_def cj_key_def run_ok_def
      trigger_ok_def status_ok_def)

lemma demo_up: "db_down demo_db = (\<lambda>_. None)"
  by (simp add: demo_defs)

theorem history_append_only_witness:
  "\<exists>new. jr_ids (run_ops demo_db [Op_MarkCronJobDeleted 9 ''live'', Op_Purge unary_text 20]) = [''r1'', ''r2''] @ new"
  using history_append_only[of "[Op_MarkCronJobDeleted 9 ''live'', Op_Purge unary_text 20]" demo_db]
  by (simp add: jr_ids_def demo_defs del: run_ops_simps)

lemma demo_gone: "find_cronjob demo_db ''gone'' = Some (demo_cronjob ''gone'' (Some 3))"
  by (simp add: find_cronjob_def demo_defs)

theorem deleted_until_upserted_witness:
  "find_cronjob (run_ops demo_db [Op_MarkCronJobDeleted 9 ''gone'']) ''gone'' \<in> {None, Some (demo_cronjob ''gone'' (Some 3))}"
  by (rule conjunct1[OF deleted_until_upserted[OF demo_wf demo_gone, of 3]]) (simp_all add: demo_cronjob_def)

theorem logs_read_back_witness:
  "\<exists>db' old new. BatchInsertLogLines 9 demo_db ''r1'' [''x'', ''y''] = Inr db' \<and> GetLogLines demo_db ''r1'' = Inr old
    \<and> GetLogLines db' ''r1'' = Inr (old @ new) \<and> map ll_line new = [''x'', ''y'']
    \<and> GetLogLinesTail db' ''r1'' 2 = Inr (drop (length (old @ new) - nat 2) (old @ new))
    \<and> (\<forall>j. j \<noteq> ''r1'' \<longrightarrow> GetLogLines db' j = GetLogLines demo_db j)"
  by (rule logs_read_back[OF demo_wf _ demo_up]) (simp_all add: jr_ids_def demo_defs)

definition demo_now :: "int \<Rightarrow> string" where "demo_now n = unary_text 0"

lemma demo_fleet: "\<exists>f. GetFleetStats unary_text demo_now demo_db ''c'' 7 = Inr f \<and> fs_runs f = 2"
  by (simp add: GetFleetStats_def Let_def sql_rows_def exec_sql_up demo_up live_join_fst[OF demo_wf]
      runs_since_def run_in_scope_def in_scope_def)
    (simp add: demo_defs demo_now_def unary_text_def replicate_less[of 0, simplified])

lemma demo_top: "\<exists>l. GetTopCronJobs unary_text demo_now demo_db [] ''failures'' 7 5 = Inr l"
  by (simp add: GetTopCronJobs_def rankValueExpr_def Let_def sql_rows_def exec_sql_up demo_up)

theorem overview_adds_up_witness:
  "(\<exists>f. GetFleetStats unary_text demo_now demo_db ''c'' 7 = Inr f \<and> 2 = fs_succeeded f + fs_failed f + fs_running f)
   \<and> (\<exists>l. GetTopCronJobs unary_text demo_now demo_db [] ''failures'' 7 5 = Inr l \<and> length l \<le> 5)"
proof
  from demo_fleet obtain f where f: "GetFleetStats unary_text demo_now demo_db ''c'' 7 = Inr f" "fs_runs f = 2"
    by blast
  from overview_adds_up[OF demo_wf, THEN conjunct1, rule_format, OF f(1)] f
  show "\<exists>f. GetFleetStats unary_text demo_now demo_db ''c'' 7 = Inr f \<and> 2 = fs_succeeded f + fs_failed f + fs_running f"
    by auto
  from demo_top obtain l where l: "GetTopCronJobs unary_text demo_now demo_db [] ''failures'' 7 5 = Inr l" by blast
  obtain expr where e: "rankValueExpr ''failures'' = Some expr" by (simp add: rankValueExpr_def)
  have "length l \<le> nat 5"
    by (rule overview_adds_up[OF demo_wf, THEN conjunct2, rule_format, OF conjI[OF e conjI[OF _ l]], THEN conjunct1]) simp
  with l show "\<exists>l. GetTopCronJobs unary_text demo_now demo_db [] ''failures'' 7 5 = Inr l \<and> length l \<le> 5" by auto
qed

theorem retention_keeps_witness:
  "map jr_id (db_runs (runRetention unary_text (\<lambda>t n. t + n) 10 10 5 3 demo_db)) = [''r2'']
   \<and> map cj_id (db_cronjobs (runRetention unary_text (\<lambda>t n. t + n) 10 10 5 3 demo_db)) = [''live'']"
proof -
  have order: "text_order unary_text (starts demo_db \<union> deletions demo_db \<union> {(10::int) + - 3, 10 + - 5})"
    by (rule unary_text_order) (auto simp: starts_def deletions_def demo_defs)
  note keep = retention_keeps[where ad = "\<lambda>t n. t + n" and ?t1.0 = 10 and ?t2.0 = 10 and days = 5 and log_days = 3,
      OF demo_wf demo_up order refl]
  have runs: "db_runs (runRetention unary_text (\<lambda>t n. t + n) 10 10 5 3 demo_db)
      = filter (\<lambda>r. (10::int) + - 5 \<le> jr_started r) (db_runs demo_db)" by (rule conjunct1[OF keep])
  from keep have "db_cronjobs (runRetention unary_text (\<lambda>t n. t + n) 10 10 5 3 demo_db)
      = filter (\<lambda>c. cj_deleted c = None \<or> (10::int) + - 5 \<le> the (cj_deleted c)
          \<or> (\<exists>r \<in> set (filter (\<lambda>r. (10::int) + - 5 \<le> jr_started r) (db_runs demo_db)). jr_cronjob r = cj_id c))
          (db_cronjobs demo_db)" unfolding runs by blast
  with runs show ?thesis by (simp add: demo_defs)
qed

end
