(* ===== verification/Go_Http.thy ===== *)
theory Go_Http
  imports Kube_Prelude
begin

text \<open>
  The parts of Go's standard library that KubeCron's HTTP layer is written against:
  \<open>encoding/base64\<close> (URL alphabet), percent decoding and query strings of \<open>net/url\<close>,
  \<open>path.Clean\<close>, and of \<open>net/http\<close> requests, response writers, cookies,
  \<open>http.Redirect\<close> and \<open>http.Error\<close>.

  A handler maps a request and an exchange to an exchange. The exchange is what the
  handler can change: the response writer (headers until something is sent, cookies, the
  sequence of \<open>WriteHeader\<close> and \<open>Write\<close> calls), whether a panic is unwinding, the mutable
  state of the middlewares, and the state of the application behind the routes.
\<close>

section \<open>base64, URL alphabet with padding\<close>

text \<open>The alphabet is \<open>A-Z\<close>, \<open>a-z\<close>, \<open>0-9\<close>, \<open>-\<close>, \<open>_\<close>.\<close>

definition b64_digit :: "nat \<Rightarrow> char" where
  "b64_digit n =
     char_of (if n < 26 then n + 65 else if n < 52 then n + 71 else if n < 62 then n - 4
              else if n = 62 then 45 else 95)"

definition b64_value :: "char \<Rightarrow> nat option" where
  "b64_value c =
     (let n = (of_char c :: nat) in
      if 65 \<le> n \<and> n \<le> 90 then Some (n - 65)
      else if 97 \<le> n \<and> n \<le> 122 then Some (n - 71)
      else if 48 \<le> n \<and> n \<le> 57 then Some (n + 4)
      else if n = 45 then Some 62 else if n = 95 then Some 63 else None)"

definition byte :: "char \<Rightarrow> nat" where "byte c = of_char c"

fun b64_encode :: "string \<Rightarrow> string" where
  "b64_encode [] = []"
| "b64_encode [a] =
     [b64_digit (byte a div 4), b64_digit (byte a mod 4 * 16), CHR ''='', CHR ''='']"
| "b64_encode [a, b] =
     [b64_digit (byte a div 4), b64_digit (byte a mod 4 * 16 + byte b div 16),
      b64_digit (byte b mod 16 * 4), CHR ''='']"
| "b64_encode (a # b # c # s) =
     b64_digit (byte a div 4) # b64_digit (byte a mod 4 * 16 + byte b div 16)
     # b64_digit (byte b mod 16 * 4 + byte c div 64) # b64_digit (byte c mod 64) # b64_encode s"

text \<open>
  The decoder skips carriage returns and line feeds, takes padding only in the last
  quadruple, and does not look at the bits the padding leaves over.
\<close>

fun b64_quads :: "string \<Rightarrow> string option" where
  "b64_quads [] = Some []"
| "b64_quads (p # q # r # s # rest) =
     (case (b64_value p, b64_value q) of
        (Some i, Some j) \<Rightarrow>
          (if r = CHR ''='' then
             (if s = CHR ''='' \<and> rest = [] then Some [char_of (i * 4 + j div 16)] else None)
           else (case b64_value r of
                   None \<Rightarrow> None
                 | Some k \<Rightarrow>
                     (if s = CHR ''='' then
                        (if rest = [] then Some [char_of (i * 4 + j div 16), char_of (j mod 16 * 16 + k div 4)]
                         else None)
                      else (case (b64_value s, b64_quads rest) of
                              (Some l, Some bs) \<Rightarrow>
                                Some (char_of (i * 4 + j div 16) # char_of (j mod 16 * 16 + k div 4)
                                      # char_of (k mod 4 * 64 + l) # bs)
                            | _ \<Rightarrow> None))))
      | _ \<Rightarrow> None)"
| "b64_quads _ = None"

definition b64_decode :: "string \<Rightarrow> string option" where
  "b64_decode s = b64_quads (filter (\<lambda>c. c \<noteq> CHR 0x0A \<and> c \<noteq> CHR 0x0D) s)"

lemma byte_less [simp]: "byte c < 256"
  by (simp add: byte_def)

lemma char_of_byte [simp]: "char_of (byte c) = c"
  by (simp add: byte_def)

lemma byte_char_of: "n < 256 \<Longrightarrow> (of_char (char_of n :: char) :: nat) = n"
  by simp

lemma b64_digit_byte:
  "n < 64 \<Longrightarrow> (of_char (b64_digit n) :: nat) =
     (if n < 26 then n + 65 else if n < 52 then n + 71 else if n < 62 then n - 4
      else if n = 62 then 45 else 95)"
  unfolding b64_digit_def by (subst byte_char_of) auto

lemma b64_digit [simp]: "n < 64 \<Longrightarrow> b64_value (b64_digit n) = Some n"
  unfolding b64_value_def Let_def by (auto simp: b64_digit_byte)

lemma b64_pad_value [simp]: "b64_value CHR ''='' = None"
  by (simp add: b64_value_def)

lemma b64_digit_not_pad [simp]: "n < 64 \<Longrightarrow> b64_digit n \<noteq> CHR ''=''"
  using b64_digit b64_pad_value by fastforce

text \<open>The digits of the three bytes of a group.\<close>

lemma b64_group [simp]:
  "byte a div 4 < 64" "byte a mod 4 * 16 < 64" "byte a mod 16 * 4 < 64" "byte a mod 64 < 64"
  "byte a mod 4 * 16 + byte b div 16 < 64" "byte b mod 16 * 4 + byte c div 64 < 64"
  using byte_less[of a] byte_less[of b] byte_less[of c] by linarith+

lemma byte_nibbles: "byte b div 16 < 16" "byte b div 64 < 4"
  using byte_less[of b] by linarith+

lemma b64_ungroup [simp]:
  "byte b div 16 div 16 = 0" "byte b div 64 div 4 = 0"
  "byte b div 16 mod 16 * 16 + byte b mod 16 = byte b"
  "byte b div 64 mod 4 * 64 + byte b mod 64 = byte b"
  using byte_nibbles[of b] by simp_all

definition b64_text :: "char \<Rightarrow> bool" where
  "b64_text c \<longleftrightarrow> c = CHR ''='' \<or> b64_value c \<noteq> None"

lemma b64_encode_text: "c \<in> set (b64_encode s) \<Longrightarrow> b64_text c"
  by (induction s rule: b64_encode.induct) (auto simp: b64_text_def)

lemma b64_clean [simp]:
  "CHR ''.'' \<notin> set (b64_encode s)" "CHR '':'' \<notin> set (b64_encode s)"
  "CHR 0x0A \<notin> set (b64_encode s)" "CHR 0x0D \<notin> set (b64_encode s)"
  by (auto simp: b64_text_def b64_value_def dest!: b64_encode_text)

lemma b64_quads_encode: "b64_quads (b64_encode s) = Some s"
  by (induction s rule: b64_encode.induct) simp_all

text \<open>Decoding inverts encoding.\<close>

lemma b64_decode_encode [simp]: "b64_decode (b64_encode s) = Some s"
proof -
  have "filter (\<lambda>c. c \<noteq> CHR 0x0A \<and> c \<noteq> CHR 0x0D) (b64_encode s) = b64_encode s"
    by (rule filter_True, rule ballI, rule conjI) (rule notI, simp)+
  then show ?thesis by (simp add: b64_decode_def b64_quads_encode)
qed

section \<open>net/url: percent decoding and query strings\<close>

definition hex_value :: "char \<Rightarrow> nat option" where
  "hex_value c =
     (let n = byte c in
      if 48 \<le> n \<and> n \<le> 57 then Some (n - 48)
      else if 97 \<le> n \<and> n \<le> 102 then Some (n - 87)
      else if 65 \<le> n \<and> n \<le> 70 then Some (n - 55) else None)"

definition hex_digit :: "nat \<Rightarrow> char" where
  "hex_digit n = char_of (if n < 10 then n + 48 else n + 87)"

text \<open>In query strings \<open>qs\<close> is set: a plus sign is a space there.\<close>

fun pct_decode :: "bool \<Rightarrow> string \<Rightarrow> string option" where
  "pct_decode qs [] = Some []"
| "pct_decode qs (c # s) =
     (if c = CHR ''%'' then
        (case s of
           a # b # t \<Rightarrow>
             (case (hex_value a, hex_value b) of
                (Some i, Some j) \<Rightarrow> map_option (Cons (char_of (16 * i + j))) (pct_decode qs t)
              | _ \<Rightarrow> None)
         | _ \<Rightarrow> None)
      else map_option (Cons (if qs \<and> c = CHR ''+'' then CHR '' '' else c)) (pct_decode qs s))"

text \<open>\<open>strings.Split\<close> on a one-byte separator.\<close>

fun split_all :: "char \<Rightarrow> string \<Rightarrow> string list" where
  "split_all c [] = [[]]"
| "split_all c (x # s) =
     (if x = c then [] # split_all c s
      else (case split_all c s of [] \<Rightarrow> [[x]] | p # ps \<Rightarrow> (x # p) # ps))"

lemma split_all_nonempty [simp]: "split_all c s \<noteq> []"
  by (cases s) (auto split: list.splits)

fun query_pair :: "string \<Rightarrow> (string \<times> string) option" where
  "query_pair seg =
     (if seg = [] \<or> CHR '';'' \<in> set seg then None
      else (case split_at CHR ''='' seg of
              (k, v) \<Rightarrow>
                (case (pct_decode True k, pct_decode True (case v of None \<Rightarrow> [] | Some w \<Rightarrow> w)) of
                   (Some k', Some v') \<Rightarrow> Some (k', v')
                 | _ \<Rightarrow> None)))"

definition parse_query :: "string \<Rightarrow> (string \<times> string) list" where
  "parse_query q = List.map_filter query_pair (split_all CHR ''&'' q)"

section \<open>path.Clean and the ServeMux's cleanPath\<close>

text \<open>All paths the source cleans are rooted.\<close>

fun clean_segs :: "string list \<Rightarrow> string list \<Rightarrow> string list" where
  "clean_segs acc [] = rev acc"
| "clean_segs acc (s # ss) =
     (if s = [] \<or> s = ''.'' then clean_segs acc ss
      else if s = ''..'' then clean_segs (tl acc) ss
      else clean_segs (s # acc) ss)"

definition join_segs :: "string list \<Rightarrow> string" where
  "join_segs ss = concat (map (\<lambda>s. CHR ''/'' # s) ss)"

definition path_clean :: "string \<Rightarrow> string" where
  "path_clean p =
     (case clean_segs [] (split_all CHR ''/'' p) of [] \<Rightarrow> ''/'' | ss \<Rightarrow> join_segs ss)"

definition cleanPath :: "string \<Rightarrow> string" where
  "cleanPath p =
     (if p = [] then ''/''
      else let p' = (if hd p = CHR ''/'' then p else CHR ''/'' # p); np = path_clean p' in
        if last p' = CHR ''/'' \<and> np \<noteq> ''/'' then np @ ''/'' else np)"

section \<open>Requests and exchanges\<close>

text \<open>
  \<open>rq_path\<close> is the escaped path, \<open>rq_query\<close> the raw query, \<open>rq_email\<close> the address the
  session middleware puts in the context (empty without one), \<open>rq_params\<close> the path values
  of the matched pattern, \<open>rq_rand\<close> the random text drawn while the request is served, \<open>rq_took\<close>
  the time that passes from \<open>Instrument\<close>'s first reading of the clock to its second.
\<close>

record request =
  rq_method :: string
  rq_path :: string
  rq_query :: string
  rq_headers :: "(string \<times> string) list"
  rq_cookies :: "(string \<times> string) list"
  rq_remote :: string
  rq_now :: gotime
  rq_email :: string
  rq_params :: "string list"
  rq_rand :: string
  rq_took :: duration

definition url_path :: "request \<Rightarrow> string" where
  "url_path r = (case pct_decode False (rq_path r) of Some p \<Rightarrow> p | None \<Rightarrow> rq_path r)"

definition request_uri :: "request \<Rightarrow> string" where
  "request_uri r =
     (if rq_path r = [] then ''/'' else rq_path r)
     @ (if rq_query r = [] then [] else CHR ''?'' # rq_query r)"

definition header_get :: "request \<Rightarrow> string \<Rightarrow> string" where
  "header_get r k = (case map_of (rq_headers r) k of Some v \<Rightarrow> v | None \<Rightarrow> [])"

definition cookie_get :: "request \<Rightarrow> string \<Rightarrow> string option" where
  "cookie_get r k = map_of (rq_cookies r) k"

definition query_get :: "request \<Rightarrow> string \<Rightarrow> string" where
  "query_get r k = (case map_of (parse_query (rq_query r)) k of Some v \<Rightarrow> v | None \<Rightarrow> [])"

datatype same_site = Lax | Strict | SiteDefault

record set_cookie =
  ck_name :: string
  ck_value :: string
  ck_path :: string
  ck_max_age :: int
  ck_http_only :: bool
  ck_same_site :: same_site
  ck_secure :: bool

datatype wr_call = Code nat | Body string

text \<open>The token buckets of the rate limiter: count and reset time per remote address.\<close>

type_synonym buckets = "string \<Rightarrow> (int \<times> gotime) option"

record 'a exchange =
  x_headers :: "(string \<times> string) list"
  x_cookies :: "set_cookie list"
  x_out :: "wr_call list"
  x_panic :: bool
  x_pattern :: string
  x_login :: buckets
  x_trigger :: buckets
  x_counts :: "string \<times> string \<times> nat \<Rightarrow> nat"
  x_latency :: "string \<Rightarrow> rat list"
  x_app :: 'a

type_synonym 'a handler = "request \<Rightarrow> 'a exchange \<Rightarrow> 'a exchange"

text \<open>Headers go out with the first output; setting them later has no effect.\<close>

definition set_header :: "string \<Rightarrow> string \<Rightarrow> 'a exchange \<Rightarrow> 'a exchange" where
  "set_header k v x =
     (if x_out x = [] then x\<lparr>x_headers := (k, v) # filter (\<lambda>h. fst h \<noteq> k) (x_headers x)\<rparr> else x)"

definition SetCookie :: "set_cookie \<Rightarrow> 'a exchange \<Rightarrow> 'a exchange" where
  "SetCookie c x = (if x_out x = [] then x\<lparr>x_cookies := x_cookies x @ [c]\<rparr> else x)"

definition write_header :: "nat \<Rightarrow> 'a exchange \<Rightarrow> 'a exchange" where
  "write_header code x = x\<lparr>x_out := x_out x @ [Code code]\<rparr>"

definition write_body :: "string \<Rightarrow> 'a exchange \<Rightarrow> 'a exchange" where
  "write_body b x = x\<lparr>x_out := x_out x @ [Body b]\<rparr>"

text \<open>The status the client sees: the first \<open>WriteHeader\<close>, or 200 when a body came first.\<close>

fun sent_status :: "wr_call list \<Rightarrow> nat" where
  "sent_status (Code c # _) = c"
| "sent_status _ = 200"

abbreviation status :: "'a exchange \<Rightarrow> nat" where "status x \<equiv> sent_status (x_out x)"

definition http_error :: "string \<Rightarrow> nat \<Rightarrow> 'a exchange \<Rightarrow> 'a exchange" where
  "http_error msg code x =
     write_body (msg @ [CHR 0x0A])
       (write_header code
         (set_header ''X-Content-Type-Options'' ''nosniff''
           (set_header ''Content-Type'' ''text/plain; charset=utf-8'' x)))"

definition hex_escape_non_ascii :: "string \<Rightarrow> string" where
  "hex_escape_non_ascii s =
     concat (map (\<lambda>c. if byte c < 128 then [c]
                     else [CHR ''%'', hex_digit (byte c div 16), hex_digit (byte c mod 16)]) s)"

text \<open>
  The \<open>Location\<close> of \<open>http.Redirect\<close>: a rooted reference that \<open>url.Parse\<close> accepts is cleaned
  up to its query, anything else the source passes (an absolute URL, a reference that does
  not parse) is kept.
\<close>

definition is_control :: "char \<Rightarrow> bool" where
  "is_control c \<longleftrightarrow> byte c < 32 \<or> byte c = 127"

definition url_parses :: "string \<Rightarrow> bool" where
  "url_parses u \<longleftrightarrow> list_all (\<lambda>c. \<not> is_control c) u \<and>
     (case split_at CHR ''#'' u of
        (a, frag) \<Rightarrow> pct_decode False (fst (split_at CHR ''?'' a)) \<noteq> None
          \<and> (case frag of None \<Rightarrow> True | Some f \<Rightarrow> pct_decode False f \<noteq> None))"

definition redirect_location :: "string \<Rightarrow> string" where
  "redirect_location u =
     hex_escape_non_ascii
       (if has_prefix u ''/'' \<and> url_parses u then
          (case split_at CHR ''?'' u of
             (p, q) \<Rightarrow> cleanPath p @ (case q of None \<Rightarrow> [] | Some q' \<Rightarrow> CHR ''?'' # q'))
        else u)"

text \<open>\<open>http.Redirect\<close>; the line of HTML that it writes for browsers that do not follow is left out.\<close>

definition http_redirect :: "string \<Rightarrow> nat \<Rightarrow> 'a exchange \<Rightarrow> 'a exchange" where
  "http_redirect u code x = write_header code (set_header ''Location'' (redirect_location u) x)"

definition header_of :: "'a exchange \<Rightarrow> string \<Rightarrow> string option" where
  "header_of x k = map_of (x_headers x) k"

lemmas writer_defs = set_header_def SetCookie_def write_header_def write_body_def

section \<open>What cleaning and redirecting keep\<close>

lemma split_all_member: "x \<in> set (split_all c s) \<Longrightarrow> c \<notin> set x \<and> set x \<subseteq> set s"
proof (induction s arbitrary: x)
  case (Cons a s)
  obtain p ps where ps: "split_all c s = p # ps" by (cases "split_all c s") auto
  then have p: "c \<notin> set p \<and> set p \<subseteq> set s" using Cons.IH[of p] by simp
  from Cons.prems ps consider "x = []" | "x = a # p" "a \<noteq> c" | "x \<in> set (p # ps)"
    by (auto split: if_splits)
  then show ?case
  proof cases
    case 3
    then show ?thesis using Cons.IH[of x] ps by auto
  qed (use p in auto)
qed simp

lemma clean_segs_member:
  "x \<in> set (clean_segs acc ss) \<Longrightarrow> x \<in> set acc \<or> (x \<in> set ss \<and> x \<noteq> [])"
proof (induction acc ss rule: clean_segs.induct)
  case (2 acc s ss)
  have "set (tl acc) \<subseteq> set acc" by (cases acc) auto
  with 2 show ?case by (auto split: if_splits)
qed simp

text \<open>
  A rooted path cleaned is a slash followed by nothing, or by a character of the path other
  than a slash.
\<close>

definition rooted_by :: "char set \<Rightarrow> string \<Rightarrow> bool" where
  "rooted_by A u \<longleftrightarrow> (\<exists>v. u = CHR ''/'' # v \<and> (v = [] \<or> (hd v \<in> A \<and> hd v \<noteq> CHR ''/'')))"

lemma cleanPath_rooted:
  assumes "p \<noteq> []" and "hd p = CHR ''/''"
  shows "rooted_by (set p) (cleanPath p)" and "cleanPath p \<noteq> []"
proof -
  let ?ss = "clean_segs [] (split_all CHR ''/'' p)"
  have "rooted_by (set p) (cleanPath p) \<and> cleanPath p \<noteq> []"
  proof (cases ?ss)
    case Nil
    then show ?thesis using assms by (simp add: cleanPath_def path_clean_def rooted_by_def Let_def)
  next
    case (Cons s rest)
    then have "s \<in> set (split_all CHR ''/'' p)" "s \<noteq> []"
      using clean_segs_member[of s "[]" "split_all CHR ''/'' p"] by simp_all
    then obtain c s' where s: "s = c # s'" "c \<in> set p" "c \<noteq> CHR ''/''"
      using split_all_member[of s "CHR ''/''" p] by (metis list.exhaust list.set_intros(1) subsetD)
    with Cons have "path_clean p = CHR ''/'' # c # s' @ join_segs rest"
      by (simp add: path_clean_def join_segs_def)
    with s assms show ?thesis by (auto simp: cleanPath_def rooted_by_def Let_def)
  qed
  then show "rooted_by (set p) (cleanPath p)" "cleanPath p \<noteq> []" by auto
qed

lemma hex_escape_rooted:
  "rooted_by A u \<Longrightarrow> rooted_by (insert CHR ''%'' A) (hex_escape_non_ascii u)"
proof -
  assume "rooted_by A u"
  then obtain v where u: "u = CHR ''/'' # v" and v: "v = [] \<or> (hd v \<in> A \<and> hd v \<noteq> CHR ''/'')"
    by (auto simp: rooted_by_def)
  have "byte CHR ''/'' < 128" by (simp add: byte_def)
  then have e: "hex_escape_non_ascii u = CHR ''/'' # hex_escape_non_ascii v"
    by (simp add: u hex_escape_non_ascii_def)
  show ?thesis
    unfolding e using v by (cases v) (auto simp: rooted_by_def hex_escape_non_ascii_def)
qed

lemma redirect_location_rooted:
  assumes "rooted_by A u" and "set (tl u) \<subseteq> A"
  shows "rooted_by (insert CHR ''%'' (insert CHR ''?'' A)) (redirect_location u)"
proof -
  obtain v where u: "u = CHR ''/'' # v" and v: "v = [] \<or> (hd v \<in> A \<and> hd v \<noteq> CHR ''/'')"
    using assms by (auto simp: rooted_by_def)
  obtain p q where pq: "split_at CHR ''?'' u = (p, q)" by (cases "split_at CHR ''?'' u")
  then have p: "p = CHR ''/'' # takeWhile (\<lambda>x. x \<noteq> CHR ''?'') v"
    by (simp add: split_at_def u)
  then have "rooted_by (set p) (cleanPath p)" by (intro cleanPath_rooted) simp_all
  moreover have "set p \<subseteq> insert CHR ''/'' A"
    using assms(2) by (auto simp: p u dest: set_takeWhileD)
  ultimately have "rooted_by (insert CHR ''?'' A) (cleanPath p @ t)"
    if "t = [] \<or> hd t = CHR ''?''" for t
    unfolding rooted_by_def using that by (elim exE conjE) (case_tac v; cases t; auto)
  then have "rooted_by (insert CHR ''?'' A)
      (cleanPath p @ (case q of None \<Rightarrow> [] | Some q' \<Rightarrow> CHR ''?'' # q'))"
    by (auto split: option.splits)
  moreover have "rooted_by (insert CHR ''?'' A) u" using v by (auto simp: rooted_by_def u)
  ultimately show ?thesis
    unfolding redirect_location_def pq by (auto intro!: hex_escape_rooted)
qed

end
