(* ===== verification/Go_Text.thy ===== *)
theory Go_Text
  imports Complex_Main Go_Http
begin

text \<open>
  Text as Go's standard library writes and reads it: decimal numbers (\<open>strconv\<close>), \<open>float64\<close>
  arithmetic as far as the pages use it, \<open>fmt.Sprintf\<close>, \<open>html.EscapeString\<close>, the escaping
  functions of \<open>net/url\<close>, and \<open>encoding/json\<close>. Strings are lists of bytes; the UTF-8
  sequences of the symbols the pages use have names.
\<close>

section \<open>Decimal numbers\<close>

fun nat_text :: "nat \<Rightarrow> string" where
  "nat_text n =
     (if n < 10 then [char_of (n + 48)] else nat_text (n div 10) @ [char_of (n mod 10 + 48)])"

declare nat_text.simps [simp del]

definition int_text :: "int \<Rightarrow> string" where
  "int_text i = (if i < 0 then CHR ''-'' # nat_text (nat (- i)) else nat_text (nat i))"

definition digit_value :: "char \<Rightarrow> nat option" where
  "digit_value c = (let n = byte c in if 48 \<le> n \<and> n \<le> 57 then Some (n - 48) else None)"

fun digits_value :: "nat \<Rightarrow> string \<Rightarrow> nat option" where
  "digits_value acc [] = Some acc"
| "digits_value acc (c # s) =
     (case digit_value c of None \<Rightarrow> None | Some d \<Rightarrow> digits_value (10 * acc + d) s)"

text \<open>\<open>strconv.Atoi\<close>: an optional sign, digits, and the range of \<open>int64\<close>.\<close>

definition Atoi :: "string \<Rightarrow> int option" where
  "Atoi s =
     (let neg = has_prefix s ''-''; ds = (if neg \<or> has_prefix s ''+'' then tl s else s) in
      if ds = [] then None
      else case digits_value 0 ds of
             None \<Rightarrow> None
           | Some n \<Rightarrow>
               (let i = (if neg then - int n else int n) in
                if - (2 ^ 63) \<le> i \<and> i < 2 ^ 63 then Some i else None))"

lemma digit_value_digit [simp]: "n < 10 \<Longrightarrow> digit_value (char_of (n + 48)) = Some n"
  by (simp add: digit_value_def byte_def)

lemma digits_value_append:
  "digits_value a (s @ t) = (case digits_value a s of None \<Rightarrow> None | Some b \<Rightarrow> digits_value b t)"
  by (induction a s rule: digits_value.induct) (auto split: option.splits)

lemma digits_value_text [simp]: "digits_value 0 (nat_text n) = Some n"
proof (induction n rule: nat_text.induct)
  case (1 n)
  show ?case
  proof (cases "n < 10")
    case True
    then show ?thesis by (simp add: nat_text.simps)
  next
    case False
    then have "digits_value 0 (nat_text (n div 10)) = Some (n div 10)" using 1 by simp
    moreover have "nat_text n = nat_text (n div 10) @ [char_of (n mod 10 + 48)]"
      using False by (simp add: nat_text.simps)
    moreover have "10 * (n div 10) + n mod 10 = n" by simp
    ultimately show ?thesis by (simp add: digits_value_append)
  qed
qed

lemma nat_text_digits: "c \<in> set (nat_text n) \<Longrightarrow> 48 \<le> byte c \<and> byte c \<le> 57"
  by (induction n rule: nat_text.induct)
    (subst (asm) (2) nat_text.simps, auto simp: byte_def split: if_splits)

lemma nat_text_nonempty [simp]: "nat_text n \<noteq> []"
  by (subst nat_text.simps) simp

lemma nat_text_no_sign [simp]: "\<not> has_prefix (nat_text n) ''-''" "\<not> has_prefix (nat_text n) ''+''"
  using nat_text_digits[of "hd (nat_text n)" n]
  by (cases "nat_text n"; auto simp: has_prefix_def byte_def)+

lemma Atoi_int_text [simp]: "- (2 ^ 63) \<le> i \<Longrightarrow> i < 2 ^ 63 \<Longrightarrow> Atoi (int_text i) = Some i"
  using nat_text_no_sign[of "nat i"] by (auto simp: Atoi_def int_text_def Let_def) (simp_all add: has_prefix_def)

section \<open>Floating point\<close>

text \<open>
  A \<open>float64\<close> is the rational it stands for. \<open>f64\<close> rounds to the nearest one with 53
  significant bits, ties to even; the magnitudes that occur are far from the ends of the
  exponent range.
\<close>

fun log2n :: "nat \<Rightarrow> nat" where
  "log2n n = (if n < 2 then 0 else Suc (log2n (n div 2)))"

declare log2n.simps [simp del]

definition pow2 :: "int \<Rightarrow> rat" where
  "pow2 e = (if 0 \<le> e then 2 ^ nat e else 1 / 2 ^ nat (- e))"

definition round_even :: "rat \<Rightarrow> int" where
  "round_even q =
     (let f = \<lfloor>q\<rfloor>; d = q - of_int f in
      if d < 1 / 2 then f else if 1 / 2 < d then f + 1 else if even f then f else f + 1)"

definition f64 :: "rat \<Rightarrow> rat" where
  "f64 q =
     (if q = 0 then 0
      else
        (let (a, b) = quotient_of \<bar>q\<bar>;
             k = int (log2n (nat a)) - int (log2n (nat b));
             e = (if \<bar>q\<bar> < pow2 k then k - 1 else k) - 52;
             v = of_int (round_even (\<bar>q\<bar> / pow2 e)) * pow2 e
         in if q < 0 then - v else v))"

definition f_int :: "int \<Rightarrow> rat" where "f_int i = f64 (of_int i)"
definition f_add :: "rat \<Rightarrow> rat \<Rightarrow> rat" where "f_add a b = f64 (a + b)"
definition f_sub :: "rat \<Rightarrow> rat \<Rightarrow> rat" where "f_sub a b = f64 (a - b)"
definition f_mul :: "rat \<Rightarrow> rat \<Rightarrow> rat" where "f_mul a b = f64 (a * b)"
definition f_div :: "rat \<Rightarrow> rat \<Rightarrow> rat" where "f_div a b = f64 (a / b)"

text \<open>The verb \<open>%.nf\<close>.\<close>

definition fixed :: "nat \<Rightarrow> rat \<Rightarrow> string" where
  "fixed d q =
     (let n = nat (round_even (\<bar>q\<bar> * 10 ^ d));
          frac = nat_text (n mod 10 ^ d)
      in (if q < 0 then ''-'' else []) @ nat_text (n div 10 ^ d)
         @ (if d = 0 then [] else CHR ''.'' # replicate (d - length frac) (CHR ''0'') @ frac))"

section \<open>fmt.Sprintf\<close>

text \<open>
  The arguments are given as the text their verbs produce. A percent sign starts a verb that
  ends at its first letter; every call has as many arguments as verbs.
\<close>

definition is_verb :: "char \<Rightarrow> bool" where
  "is_verb c \<longleftrightarrow> 97 \<le> byte c \<and> byte c \<le> 122"

fun format_from :: "bool \<Rightarrow> string \<Rightarrow> string list \<Rightarrow> string" where
  "format_from v [] args = []"
| "format_from False (c # t) args =
     (if c = CHR ''%'' then format_from True t args else c # format_from False t args)"
| "format_from True (c # t) args =
     (if c = CHR ''%'' then c # format_from False t args
      else if is_verb c then
        (case args of [] \<Rightarrow> format_from False t [] | a # as \<Rightarrow> a @ format_from False t as)
      else format_from True t args)"

definition Sprintf :: "string \<Rightarrow> string list \<Rightarrow> string" where
  "Sprintf t args = format_from False t args"

section \<open>Escaping\<close>

text \<open>\<open>html.EscapeString\<close>\<close>

definition escape_char :: "char \<Rightarrow> string" where
  "escape_char c =
     (if c = CHR ''<'' then ''&lt;''
      else if c = CHR ''>'' then ''&gt;''
      else if c = CHR ''&'' then ''&amp;''
      else if c = CHR 0x27 then ''&#39;''
      else if c = CHR 0x22 then ''&#34;''
      else [c])"

definition escape_string :: "string \<Rightarrow> string" where
  "escape_string s = concat (map escape_char s)"

text \<open>\<open>url.PathEscape\<close> and \<open>url.QueryEscape\<close>: \<open>keep\<close> are the reserved characters left as they are.\<close>

definition upper_hex :: "nat \<Rightarrow> char" where
  "upper_hex n = char_of (if n < 10 then n + 48 else n + 55)"

definition unreserved :: "char \<Rightarrow> bool" where
  "unreserved c \<longleftrightarrow>
     (let n = byte c in
      (97 \<le> n \<and> n \<le> 122) \<or> (65 \<le> n \<and> n \<le> 90) \<or> (48 \<le> n \<and> n \<le> 57) \<or> c \<in> set ''-_.~'')"

definition pct_escape :: "string \<Rightarrow> char \<Rightarrow> string" where
  "pct_escape keep c =
     (if unreserved c \<or> c \<in> set keep then [c]
      else [CHR ''%'', upper_hex (byte c div 16), upper_hex (byte c mod 16)])"

definition PathEscape :: "string \<Rightarrow> string" where
  "PathEscape s = concat (map (pct_escape ''$&+:=@'') s)"

definition QueryEscape :: "string \<Rightarrow> string" where
  "QueryEscape s = concat (map (\<lambda>c. if c = CHR '' '' then ''+'' else pct_escape [] c) s)"

lemma hex_value_upper [simp]: "n < 16 \<Longrightarrow> hex_value (upper_hex n) = Some n"
  by (auto simp: hex_value_def upper_hex_def byte_def)

lemma byte_hex: "byte c div 16 < 16" "byte c mod 16 < 16" "16 * (byte c div 16) + byte c mod 16 = byte c"
  using byte_less[of c] by (simp_all add: less_mult_imp_div_less)

lemma pct_decode_escape:
  assumes "CHR ''%'' \<notin> set keep" and "qs \<Longrightarrow> CHR ''+'' \<notin> set keep"
  shows "pct_decode qs (pct_escape keep c @ t) = map_option (Cons c) (pct_decode qs t)"
proof (cases "unreserved c \<or> c \<in> set keep")
  case True
  have "\<not> unreserved CHR ''%''" "\<not> unreserved CHR ''+''" by (simp_all add: unreserved_def byte_def)
  with True assms have "c \<noteq> CHR ''%''" "qs \<Longrightarrow> c \<noteq> CHR ''+''" by auto
  with True show ?thesis by (auto simp: pct_escape_def)
next
  case False
  then have "pct_escape keep c = [CHR ''%'', upper_hex (byte c div 16), upper_hex (byte c mod 16)]"
    by (simp add: pct_escape_def)
  then show ?thesis using byte_hex[of c] by simp
qed

lemma pct_decode_PathEscape [simp]: "pct_decode False (PathEscape s) = Some s"
  by (induction s) (simp_all add: PathEscape_def pct_decode_escape)

lemma pct_decode_QueryEscape [simp]: "pct_decode True (QueryEscape s) = Some s"
  by (induction s) (simp_all add: QueryEscape_def pct_decode_escape)

section \<open>Symbols\<close>

definition em_dash :: string where "em_dash = [CHR 0xE2, CHR 0x80, CHR 0x94]"
definition ellipsis :: string where "ellipsis = [CHR 0xE2, CHR 0x80, CHR 0xA6]"
definition play_sign :: string where "play_sign = [CHR 0xE2, CHR 0x96, CHR 0xB6]"
definition pause_sign :: string where "pause_sign = [CHR 0xE2, CHR 0x8F, CHR 0xB8]"
definition cross_sign :: string where "cross_sign = [CHR 0xE2, CHR 0x9C, CHR 0x95]"
definition warning_sign :: string where "warning_sign = [CHR 0xE2, CHR 0x9A, CHR 0xA0]"

lemmas symbol_defs = em_dash_def ellipsis_def play_sign_def pause_sign_def cross_sign_def warning_sign_def

section \<open>encoding/json\<close>

datatype json =
    J_Null
  | J_Bool bool
  | J_Int int
  | J_Str string
  | J_List "json list"
  | J_Obj "(string \<times> json) list"

text \<open>
  The encoder escapes for HTML too. Bytes from 128 on are taken to be valid UTF-8 and copied.
\<close>

definition json_char :: "char \<Rightarrow> string" where
  "json_char c =
     (if c = CHR 0x22 then [CHR 0x5C, CHR 0x22]
      else if c = CHR 0x5C then [CHR 0x5C, CHR 0x5C]
      else if c = CHR 0x08 then [CHR 0x5C, CHR ''b'']
      else if c = CHR 0x0C then [CHR 0x5C, CHR ''f'']
      else if c = CHR 0x0A then [CHR 0x5C, CHR ''n'']
      else if c = CHR 0x0D then [CHR 0x5C, CHR ''r'']
      else if c = CHR 0x09 then [CHR 0x5C, CHR ''t'']
      else if byte c < 32 \<or> c \<in> set ''<>&''
      then [CHR 0x5C, CHR ''u'', CHR ''0'', CHR ''0'', hex_digit (byte c div 16), hex_digit (byte c mod 16)]
      else [c])"

definition json_string :: "string \<Rightarrow> string" where
  "json_string s = CHR 0x22 # concat (map json_char s) @ [CHR 0x22]"

fun join_with :: "string \<Rightarrow> string list \<Rightarrow> string" where
  "join_with sep [] = []"
| "join_with sep [s] = s"
| "join_with sep (s # ss) = s @ sep @ join_with sep ss"

fun json_text :: "json \<Rightarrow> string" where
  "json_text J_Null = ''null''"
| "json_text (J_Bool b) = (if b then ''true'' else ''false'')"
| "json_text (J_Int i) = int_text i"
| "json_text (J_Str s) = json_string s"
| "json_text (J_List js) = ''['' @ join_with '','' (map json_text js) @ '']''"
| "json_text (J_Obj fs) =
     ''{'' @ join_with '','' (map (\<lambda>(k, v). json_string k @ CHR '':'' # json_text v) fs) @ ''}''"

text \<open>A struct field with \<open>omitempty\<close>, a pointer being absent when it is nil.\<close>

definition opt_field :: "string \<Rightarrow> ('a \<Rightarrow> json) \<Rightarrow> 'a option \<Rightarrow> (string \<times> json) list" where
  "opt_field k f v = (case v of None \<Rightarrow> [] | Some x \<Rightarrow> [(k, f x)])"

text \<open>\<open>Encoder.Encode\<close> ends the value with a line feed.\<close>

definition json_encode :: "json \<Rightarrow> string" where
  "json_encode j = json_text j @ [CHR 0x0A]"

end
