(* ===== verification/Html_Text.thy ===== *)
theory Html_Text
  imports Go_Text Store_Types
begin

text \<open>
  The small formatting functions of the pages: src/internal/api/html.go (durations, badges,
  the breadcrumb, the countdown cell) and the number formats and windows of
  src/internal/api/html_overview.go.
\<close>

text \<open>In the branches that divide, the argument is positive.\<close>

definition fmtDuration :: "int \<Rightarrow> string" where
  "fmtDuration ms =
     (if ms < 1000 then Sprintf ''%dms'' [int_text ms]
      else if ms < 60000 then Sprintf ''%.1fs'' [fixed 1 (f_div (f_int ms) 1000)]
      else if ms < 3600000 then Sprintf ''%dm %ds'' [int_text (ms div 60000), int_text (ms mod 60000 div 1000)]
      else Sprintf ''%dh %dm'' [int_text (ms div 3600000), int_text (ms mod 3600000 div 60000)])"

definition fmtMillicores :: "int \<Rightarrow> string" where
  "fmtMillicores m =
     (if m < 1000 then Sprintf ''%dm'' [int_text m]
      else Sprintf ''%.2f cores'' [fixed 2 (f_div (f_int m) 1000)])"

definition fmtBytes :: "int \<Rightarrow> string" where
  "fmtBytes b =
     (if b \<ge> 1073741824 then Sprintf ''%.2f GiB'' [fixed 2 (f_div (f_int b) 1073741824)]
      else if b \<ge> 1048576 then Sprintf ''%.0f MiB'' [fixed 0 (f_div (f_int b) 1048576)]
      else if b \<ge> 1024 then Sprintf ''%.0f KiB'' [fixed 0 (f_div (f_int b) 1024)]
      else Sprintf ''%d B'' [int_text b])"

definition fmtLogSize :: "int \<Rightarrow> string" where
  "fmtLogSize n = Sprintf ''%.1f KB'' [fixed 1 (f_div (f_int n) 1024)]"

definition statusBadge :: "string \<Rightarrow> string" where
  "statusBadge st =
     Sprintf ''<span class=\"badge %s\">%s</span>''
       [if st = ''succeeded'' then ''badge-success'' else if st = ''failed'' then ''badge-failed''
        else if st = ''running'' then ''badge-running'' else ''badge-muted'',
        escape_string st]"

fun breadcrumb_parts :: "string list \<Rightarrow> string" where
  "breadcrumb_parts [] = []"
| "breadcrumb_parts [p] = p"
| "breadcrumb_parts (p # ps) = p @ ''<span class=\"breadcrumb-sep\">/</span>'' @ breadcrumb_parts ps"

definition breadcrumb :: "string list \<Rightarrow> string" where
  "breadcrumb ps = ''<div class=\"breadcrumb\">'' @ breadcrumb_parts ps @ ''</div>''"

definition atoiDefault :: "string \<Rightarrow> int \<Rightarrow> int" where
  "atoiDefault s d = (case Atoi s of None \<Rightarrow> d | Some n \<Rightarrow> n)"

definition overviewWindows :: "int list" where "overviewWindows = [1, 7, 30]"

definition overviewWindowLabel :: "int \<Rightarrow> string" where
  "overviewWindowLabel days = (if days = 1 then ''24h'' else Sprintf ''%dd'' [int_text days])"

definition normalizeWindow :: "int \<Rightarrow> int" where
  "normalizeWindow days = (if days \<in> set overviewWindows then days else 7)"

definition derefStr :: "string option \<Rightarrow> string" where
  "derefStr s = (case s of None \<Rightarrow> em_dash | Some v \<Rightarrow> v)"

definition strOrEmpty :: "string option \<Rightarrow> string" where
  "strOrEmpty s = (case s of None \<Rightarrow> [] | Some v \<Rightarrow> v)"

end
