(* ===== verification/Log_Stream.thy ===== *)
theory Log_Stream
  imports Broadcaster Store_Props
begin

text \<open>
  The model of \<open>internal/streamer/logstream.go\<close>: cleaning a log line, cutting the byte stream
  of a pod into lines, and the loop that batches lines into the store and publishes them.

  The goroutine's \<open>select\<close> is driven by a list of events: the next line from the reader, a
  tick of the flush timer, the end of the reader, the end of the context. The Kubernetes
  client that opens the stream is outside the model: what it delivers is the byte string.
\<close>

section \<open>Cleaning a line\<close>

definition is_digit :: "char \<Rightarrow> bool" where
  "is_digit c \<longleftrightarrow> (let n = (of_char c :: nat) in 48 \<le> n \<and> n \<le> 57)"

definition is_letter :: "char \<Rightarrow> bool" where
  "is_letter c \<longleftrightarrow> (let n = (of_char c :: nat) in (65 \<le> n \<and> n \<le> 90) \<or> (97 \<le> n \<and> n \<le> 122))"

definition esc_byte :: char where "esc_byte = CHR 0x1B"
definition newline :: char where "newline = CHR 0x0A"
definition carriage :: char where "carriage = CHR 0x0D"

text \<open>\<open>k8sTsRE\<close>. The pattern is a fixed template, \<open>d\<close> standing for a digit, then an optional
  fraction, then \<open>Z\<close> and a space. The rest of the input is returned when it matches; the
  pattern is anchored and its classes are disjoint, so matching needs no backtracking.\<close>

fun match_template :: "string \<Rightarrow> string \<Rightarrow> string option" where
  "match_template [] s = Some s"
| "match_template (t # ts) [] = None"
| "match_template (t # ts) (c # cs) =
     (if (if t = CHR ''d'' then is_digit c else c = t) then match_template ts cs else None)"

definition match_fraction :: "string \<Rightarrow> string" where
  "match_fraction s =
     (case s of
        c # d # rest \<Rightarrow> (if c = CHR ''.'' \<and> is_digit d then dropWhile is_digit rest else s)
      | _ \<Rightarrow> s)"

definition match_k8s_ts :: "string \<Rightarrow> string option" where
  "match_k8s_ts s =
     (case match_template ''dddd-dd-ddTdd:dd:dd'' s of
        None \<Rightarrow> None
      | Some rest \<Rightarrow>
          (case match_fraction rest of
             z # sp # msg \<Rightarrow> (if z = CHR ''Z'' \<and> sp = CHR '' '' then Some msg else None)
           | _ \<Rightarrow> None))"

text \<open>\<open>ansiRE\<close> at the head of the input.\<close>

definition ansi_param :: "char \<Rightarrow> bool" where
  "ansi_param c \<longleftrightarrow> is_digit c \<or> c = CHR '';''"

definition match_ansi :: "string \<Rightarrow> string option" where
  "match_ansi s =
     (case s of
        c # b # rest \<Rightarrow>
          (if c = esc_byte \<and> b = CHR ''['' then
             (case dropWhile ansi_param rest of
                l # after \<Rightarrow> (if is_letter l then Some after else None)
              | [] \<Rightarrow> None)
           else None)
      | _ \<Rightarrow> None)"

lemma match_ansi_shorter: "match_ansi s = Some r \<Longrightarrow> length r < length s"
proof -
  assume m: "match_ansi s = Some r"
  then obtain c b rest l where s: "s = c # b # rest" and "dropWhile ansi_param rest = l # r"
    by (auto simp: match_ansi_def split: list.splits if_splits)
  then have "length (l # r) \<le> length rest" by (metis length_dropWhile_le)
  then show ?thesis by (simp add: s)
qed

function strip_ansi :: "string \<Rightarrow> string" where
  "strip_ansi s =
     (case match_ansi s of
        Some r \<Rightarrow> strip_ansi r
      | None \<Rightarrow> (case s of [] \<Rightarrow> [] | c # cs \<Rightarrow> c # strip_ansi cs))"
  by auto
termination
  by (relation "measure length") (auto simp: match_ansi_shorter)

declare strip_ansi.simps [simp del]

definition cleanLine :: "string \<Rightarrow> string" where
  "cleanLine s = strip_ansi (case match_k8s_ts s of Some msg \<Rightarrow> msg | None \<Rightarrow> s)"

lemma match_ansi_no_esc: "esc_byte \<notin> set s \<Longrightarrow> match_ansi s = None"
  by (auto simp: match_ansi_def split: list.splits)

lemma strip_ansi_plain: "esc_byte \<notin> set s \<Longrightarrow> strip_ansi s = s"
proof (induction s)
  case Nil
  then show ?case by (simp add: strip_ansi.simps match_ansi_def)
next
  case (Cons c cs)
  then show ?case using match_ansi_no_esc[OF Cons.prems] by (simp add: strip_ansi.simps[of "c # cs"])
qed

lemma strip_ansi_sequence:
  "\<forall>c \<in> set ps. ansi_param c \<Longrightarrow> is_letter l \<Longrightarrow> strip_ansi (esc_byte # CHR ''['' # ps @ l # msg) = strip_ansi msg"
proof -
  assume ps: "\<forall>c \<in> set ps. ansi_param c" and l: "is_letter l"
  have "\<not> ansi_param l" using l by (auto simp: ansi_param_def is_letter_def is_digit_def Let_def)
  then have "dropWhile ansi_param (ps @ l # msg) = l # msg"
    using ps by (simp add: dropWhile_append2)
  then show ?thesis using l by (subst strip_ansi.simps) (simp add: match_ansi_def)
qed

section \<open>Cutting the stream into lines\<close>

text \<open>\<open>strings.TrimRight(raw, "\\r\\n")\<close>\<close>

definition trim_right_crlf :: "string \<Rightarrow> string" where
  "trim_right_crlf s = rev (dropWhile (\<lambda>c. c = newline \<or> c = carriage) (rev s))"

text \<open>The reader goroutine: \<open>ReadString\<close> up to a newline, the rest at the end of the stream
  (an error of the transport also ends it, after what was read).\<close>

function read_lines :: "string \<Rightarrow> string list" where
  "read_lines s =
     (if s = [] then []
      else case split_at newline s of
             (raw, Some rest) \<Rightarrow> trim_right_crlf (raw @ [newline]) # read_lines rest
           | (raw, None) \<Rightarrow> [trim_right_crlf raw])"
  by auto
termination
proof (relation "measure length")
  fix s raw and x :: "string option" and rest
  assume "s \<noteq> []" "(raw, x) = split_at newline s" "x = Some rest"
  then have "s = raw @ newline # rest" by (metis split_at_SomeD)
  then show "(rest, s) \<in> measure length" by simp
qed simp

declare read_lines.simps [simp del]

section \<open>The batching loop\<close>

definition flush_max_lines :: nat where "flush_max_lines = 200"

record stream_state =
  st_db :: db
  st_bc :: broadcaster
  st_batch :: "string list"
  st_size :: int

text \<open>The \<open>flush\<close> closure: storage errors are logged and do not stop it.\<close>

definition flush :: "gotime \<Rightarrow> string \<Rightarrow> stream_state \<Rightarrow> chan_panic + stream_state" where
  "flush now run s =
     (if st_batch s = [] then Inr s
      else
        let db1 = keep_on_error (st_db s) (BatchInsertLogLines now (st_db s) run (st_batch s));
            db2 = keep_on_error db1 (AddLogSize db1 run (st_size s))
        in case publish_lines Publish (st_bc s) run (st_batch s) of
             Inl p \<Rightarrow> Inl p
           | Inr bc \<Rightarrow> Inr \<lparr>st_db = db2, st_bc = bc, st_batch = [], st_size = 0\<rparr>)"

datatype stream_event = Got string | Flush_Tick | Reader_Closed | Ctx_Done

text \<open>One round of the \<open>select\<close> loop; the flag says whether the loop goes on.\<close>

definition stream_step ::
  "gotime \<Rightarrow> string \<Rightarrow> stream_state \<Rightarrow> stream_event \<Rightarrow> chan_panic + stream_state \<times> bool" where
  "stream_step now run s e =
     (case e of
        Got line \<Rightarrow>
          (let s1 = s\<lparr>st_batch := st_batch s @ [cleanLine line], st_size := st_size s + int (length line) + 1\<rparr> in
           if length (st_batch s1) \<ge> flush_max_lines
           then map_sum id (\<lambda>s2. (s2, True)) (flush now run s1)
           else Inr (s1, True))
      | Flush_Tick \<Rightarrow> map_sum id (\<lambda>s2. (s2, True)) (flush now run s)
      | Reader_Closed \<Rightarrow> map_sum id (\<lambda>s2. (s2, False)) (flush now run s)
      | Ctx_Done \<Rightarrow> map_sum id (\<lambda>s2. (s2, False)) (flush now run s))"

fun stream_loop ::
  "string \<Rightarrow> stream_state \<Rightarrow> (gotime \<times> stream_event) list \<Rightarrow> chan_panic + stream_state" where
  "stream_loop run s [] = Inr s"
| "stream_loop run s ((now, e) # es) =
     (case stream_step now run s e of
        Inl p \<Rightarrow> Inl p
      | Inr (s', True) \<Rightarrow> stream_loop run s' es
      | Inr (s', False) \<Rightarrow> Inr s')"

text \<open>\<open>Stream\<close>: the table of active streams, the start (a no-op while the run is being
  streamed) and the deferred clean-up of the goroutine.\<close>

record streamer_state =
  sr_streaming :: "string set"
  sr_started :: "string list" \<comment> \<open>goroutines started, oldest first\<close>

definition Stream :: "streamer_state \<Rightarrow> string \<Rightarrow> streamer_state" where
  "Stream s run =
     (if run \<in> sr_streaming s then s
      else \<lparr>sr_streaming = insert run (sr_streaming s), sr_started = sr_started s @ [run]\<rparr>)"

definition stream_finished ::
  "streamer_state \<Rightarrow> broadcaster \<Rightarrow> string \<Rightarrow> streamer_state \<times> (chan_panic + broadcaster)" where
  "stream_finished s bc run = (s\<lparr>sr_streaming := sr_streaming s - {run}\<rparr>, Close_run bc run)"

definition streamLogs ::
  "string \<Rightarrow> db \<Rightarrow> broadcaster \<Rightarrow> (gotime \<times> stream_event) list \<Rightarrow> chan_panic + stream_state" where
  "streamLogs run db bc es =
     stream_loop run \<lparr>st_db = db, st_bc = bc, st_batch = [], st_size = 0\<rparr> es"

section \<open>Lemmas: cutting and cleaning\<close>

lemma match_template_append: "match_template t s = Some r \<Longrightarrow> match_template t (s @ m) = Some (r @ m)"
  by (induction t s rule: match_template.induct) (auto split: if_splits)

lemma match_fraction_append:
  assumes "match_fraction s = z # sp # r"
  shows "match_fraction (s @ m) = z # sp # r @ m"
proof -
  from assms obtain c d rest where s: "s = c # d # rest"
    by (auto simp: match_fraction_def split: list.splits)
  show ?thesis
  proof (cases "c = CHR ''.'' \<and> is_digit d")
    case True
    with assms s have "dropWhile is_digit rest = z # sp # r" by (simp add: match_fraction_def)
    moreover from this have "\<exists>x \<in> set rest. \<not> is_digit x" by (metis dropWhile_eq_Nil_conv list.distinct(1))
    ultimately have "dropWhile is_digit (rest @ m) = z # sp # r @ m" by (auto simp: dropWhile_append)
    with True s show ?thesis by (simp add: match_fraction_def)
  next
    case False
    with assms s show ?thesis by (auto simp: match_fraction_def)
  qed
qed

lemma match_k8s_ts_append:
  assumes "match_k8s_ts ts = Some r"
  shows "match_k8s_ts (ts @ m) = Some (r @ m)"
proof -
  from assms obtain rest where rest: "match_template ''dddd-dd-ddTdd:dd:dd'' ts = Some rest"
    and "match_fraction rest = CHR ''Z'' # CHR '' '' # r"
    by (auto simp: match_k8s_ts_def split: option.splits list.splits if_splits)
  from match_fraction_append[OF this(2), of m] match_template_append[OF rest, of m] show ?thesis
    by (simp add: match_k8s_ts_def)
qed

lemma read_lines_line:
  "newline \<notin> set l \<Longrightarrow> read_lines (l @ newline # rest) = trim_right_crlf (l @ [newline]) # read_lines rest"
  by (subst read_lines.simps) (simp add: split_at_hit)

text \<open>A stamp ends in a space, so trimming never reaches it.\<close>

lemma match_template_suffix: "match_template t s = Some r \<Longrightarrow> \<exists>p. s = p @ r"
proof (induction t s rule: match_template.induct)
  case (3 t ts c cs)
  then obtain p where "cs = p @ r" by (auto split: if_splits)
  then show ?case by (intro exI[of _ "c # p"]) simp
qed auto

lemma match_fraction_suffix: "\<exists>p. s = p @ match_fraction s"
proof -
  have "\<exists>p. rest = p @ dropWhile is_digit rest" for rest by (metis takeWhile_dropWhile_id)
  then show ?thesis
    by (auto simp: match_fraction_def split: list.split intro: exI[of _ "[]"])
      (metis append_Cons)
qed

lemma stamp_ends: "match_k8s_ts ts = Some [] \<Longrightarrow> \<exists>p. ts = p @ '' ''"
proof -
  assume m: "match_k8s_ts ts = Some []"
  then obtain rest where rest: "match_template ''dddd-dd-ddTdd:dd:dd'' ts = Some rest" and "match_fraction rest = ''Z ''"
    by (auto simp: match_k8s_ts_def split: option.splits list.splits if_splits)
  from match_template_suffix[OF rest] match_fraction_suffix[of rest] this(2) show ?thesis
    by (metis append.assoc append_Cons append_Nil)
qed

lemma trim_right_stamped: "match_k8s_ts ts = Some [] \<Longrightarrow> trim_right_crlf (ts @ l) = ts @ trim_right_crlf l"
proof -
  assume "match_k8s_ts ts = Some []"
  then obtain p where ts: "ts = p @ '' ''" using stamp_ends by blast
  have "dropWhile P (xs @ CHR '' '' # ys) = dropWhile P xs @ CHR '' '' # ys" if "\<not> P CHR '' ''" for P xs ys
    using that by (induction xs) simp_all
  then show ?thesis by (simp add: ts trim_right_crlf_def newline_def carriage_def)
qed

lemma trim_right_newline: "trim_right_crlf (l @ [newline]) = trim_right_crlf l"
  by (simp add: trim_right_crlf_def)

lemma clean_stamped_line: "match_k8s_ts ts = Some [] \<Longrightarrow> cleanLine (trim_right_crlf (ts @ l)) = strip_ansi (trim_right_crlf l)"
  using match_k8s_ts_append[of ts "[]" "trim_right_crlf l"] by (simp add: trim_right_stamped cleanLine_def)

text \<open>The output of a pod: the container's lines, each stamped by Kubernetes.\<close>

definition stamped :: "(string \<times> string) list \<Rightarrow> string" where
  "stamped ls = concat (map (\<lambda>(ts, l). ts @ l @ [newline]) ls)"

definition pod_lines :: "(string \<times> string) list \<Rightarrow> bool" where
  "pod_lines ls \<longleftrightarrow> (\<forall>(ts, l) \<in> set ls. match_k8s_ts ts = Some [] \<and> newline \<notin> set ts \<and> newline \<notin> set l)"

lemma read_stamped:
  "pod_lines ls \<Longrightarrow> read_lines (stamped ls @ rest) = map (\<lambda>(ts, l). trim_right_crlf (ts @ l)) ls @ read_lines rest"
proof (induction ls)
  case (Cons x ls)
  obtain ts l where x: "x = (ts, l)" by fastforce
  with Cons have IH: "read_lines (stamped ls @ rest) = map (\<lambda>(ts, l). trim_right_crlf (ts @ l)) ls @ read_lines rest"
    and "newline \<notin> set (ts @ l)" by (auto simp: pod_lines_def)
  with read_lines_line[OF this(2), of "stamped ls @ rest"] x show ?case by (simp add: stamped_def trim_right_newline[of "ts @ l", simplified])
qed (simp add: stamped_def)

text \<open>What is read and cleaned, whether or not the last line is ended by a newline.\<close>

lemma read_clean_stamped:
  assumes "pod_lines ls" and "bytes = stamped ls \<or> bytes @ [newline] = stamped ls"
  shows "map cleanLine (read_lines bytes) = map (\<lambda>(ts, l). strip_ansi (trim_right_crlf l)) ls"
proof -
  have "read_lines bytes = map (\<lambda>(ts, l). trim_right_crlf (ts @ l)) ls"
  proof (cases "bytes = stamped ls")
    case True
    with read_stamped[OF assms(1), of "[]"] show ?thesis by (simp add: read_lines.simps)
  next
    case False
    with assms(2) have b: "bytes @ [newline] = stamped ls" by simp
    then have "ls \<noteq> []" by (auto simp: stamped_def)
    then obtain ks ts l where ls: "ls = ks @ [(ts, l)]" by (metis prod.exhaust rev_exhaust)
    with b have bytes: "bytes = stamped ks @ ts @ l" by (simp add: stamped_def)
    have ks: "pod_lines ks" and last: "match_k8s_ts ts = Some []" "newline \<notin> set (ts @ l)"
      using assms(1) ls by (auto simp: pod_lines_def)
    have "ts @ l \<noteq> []" using stamp_ends[OF last(1)] by auto
    then have "read_lines (ts @ l) = [trim_right_crlf (ts @ l)]"
      using split_at_miss[OF last(2)] by (subst read_lines.simps) simp
    with read_stamped[OF ks, of "ts @ l"] show ?thesis by (simp add: bytes ls)
  qed
  moreover have "cleanLine (trim_right_crlf (ts @ l)) = strip_ansi (trim_right_crlf l)" if "(ts, l) \<in> set ls" for ts l
    using assms(1) that by (intro clean_stamped_line) (auto simp: pod_lines_def)
  ultimately show ?thesis by auto
qed

text \<open>A line in pieces: text, and the escape sequences of a terminal. What a reader is to see is the text.\<close>

datatype piece = Plain string | Escape string char

fun piece_bytes :: "piece \<Rightarrow> string" where
  "piece_bytes (Plain t) = t"
| "piece_bytes (Escape ps l) = esc_byte # CHR ''['' # ps @ [l]"

fun piece_text :: "piece \<Rightarrow> string" where
  "piece_text (Plain t) = t"
| "piece_text (Escape ps l) = []"

fun piece_ok :: "piece \<Rightarrow> bool" where
  "piece_ok (Plain t) \<longleftrightarrow> esc_byte \<notin> set t"
| "piece_ok (Escape ps l) \<longleftrightarrow> (\<forall>c \<in> set ps. is_digit c \<or> c = CHR '';'') \<and> is_letter l"

lemma strip_ansi_text: "esc_byte \<notin> set t \<Longrightarrow> strip_ansi (t @ s) = t @ strip_ansi s"
proof (induction t)
  case (Cons c cs)
  then have "match_ansi (c # cs @ s) = None" by (auto simp: match_ansi_def split: list.split)
  with Cons show ?case by (simp add: strip_ansi.simps[of "c # cs @ s"])
qed simp

lemma strip_ansi_pieces:
  "\<forall>q \<in> set qs. piece_ok q \<Longrightarrow> strip_ansi (concat (map piece_bytes qs)) = concat (map piece_text qs)"
proof (induction qs)
  case Nil
  then show ?case by (simp add: strip_ansi.simps match_ansi_def)
next
  case (Cons q qs)
  then show ?case by (cases q) (simp_all add: strip_ansi_text strip_ansi_sequence ansi_param_def)
qed

lemma trim_right_carriages: "s = [] \<or> last s \<notin> {newline, carriage} \<Longrightarrow> trim_right_crlf (s @ replicate n carriage) = s"
proof -
  assume s: "s = [] \<or> last s \<notin> {newline, carriage}"
  have "dropWhile (\<lambda>c. c = newline \<or> c = carriage) (replicate n carriage @ rev s) = rev s"
    using s by (induction n) (cases s rule: rev_cases; simp)+
  then show ?thesis by (simp add: trim_right_crlf_def)
qed

section \<open>Lemmas: the loop\<close>

definition run_log_size :: "db \<Rightarrow> string \<Rightarrow> int" where
  "run_log_size db i = (case find (\<lambda>r. jr_id r = i) (db_runs db) of None \<Rightarrow> 0 | Some r \<Rightarrow> jr_log_size r)"

definition all_up :: "db \<Rightarrow> bool" where "all_up db \<longleftrightarrow> db_down db = (\<lambda>_. None)"

lemma publish_all:
  "bc_ok b \<Longrightarrow> \<exists>b'. publish_lines Publish b r ls = Inr b' \<and> bc_ok b'"
  using bc.publish_lines_effect[of b r ls] by blast

lemma publish_lines_append:
  "publish_lines pub b r xs = Inr b' \<Longrightarrow> publish_lines pub b r (xs @ ys) = publish_lines pub b' r ys"
  by (induction xs arbitrary: b) (auto split: sum.splits)

lemma batch_up:
  assumes "all_up db" and "run \<in> set (jr_ids db)"
  shows "\<exists>db' new. BatchInsertLogLines now db run ls = Inr db' \<and> db_logs db' = db_logs db @ new
    \<and> map ll_line new = ls \<and> (\<forall>l \<in> set new. ll_run l = run) \<and> db_runs db' = db_runs db \<and> db_down db' = db_down db"
proof -
  have up: "db_down db op = None" for op using assms(1) by (simp add: all_up_def)
  obtain db' where ins: "insert_lines now run ls db = Inr db'"
    using insert_lines_succeeds[OF assms(2) up] by blast
  then have "BatchInsertLogLines now db run ls = Inr db'"
    using up by (cases ls) (auto simp: BatchInsertLogLines_def exec_sql_up)
  with insert_lines_effect[OF ins] show ?thesis by fastforce
qed

lemma AddLogSize_effect:
  assumes "db_down db ''AddLogSize'' = None" and "run \<in> set (jr_ids db)"
  shows "\<exists>db'. AddLogSize db run n = Inr db' \<and> run_log_size db' run = run_log_size db run + n
    \<and> jr_ids db' = jr_ids db \<and> db_logs db' = db_logs db \<and> db_down db' = db_down db"
proof -
  obtain r where "find (\<lambda>r. jr_id r = run) (db_runs db) = Some r"
    using assms(2) by (cases "find (\<lambda>r. jr_id r = run) (db_runs db)") (auto simp: find_None_all jr_ids_def)
  then show ?thesis using assms(1) find_Some_in
    by (fastforce simp: AddLogSize_def exec_sql_up run_log_size_def find_upd_where set_runs_def
        jr_ids_def map_upd_where_same)
qed

text \<open>The invariant of the loop: \<open>ls\<close> are the raw lines received so far.\<close>

definition stream_inv :: "db \<Rightarrow> broadcaster \<Rightarrow> string \<Rightarrow> string list \<Rightarrow> stream_state \<Rightarrow> bool" where
  "stream_inv db bc run ls s \<longleftrightarrow>
     (\<exists>new. db_logs (st_db s) = db_logs db @ new \<and> (\<forall>l \<in> set new. ll_run l = run)
        \<and> map ll_line new @ st_batch s = map cleanLine ls
        \<and> publish_lines Publish bc run (map ll_line new) = Inr (st_bc s))
     \<and> run_log_size (st_db s) run + st_size s = run_log_size db run + (\<Sum>l\<leftarrow>ls. int (length l) + 1)
     \<and> (st_batch s = [] \<longrightarrow> st_size s = 0)
     \<and> all_up (st_db s) \<and> jr_ids (st_db s) = jr_ids db \<and> bc_ok (st_bc s)"

lemma flush_inv:
  assumes inv: "stream_inv db bc run ls s" and run: "run \<in> set (jr_ids db)"
  shows "\<exists>s'. flush now run s = Inr s' \<and> stream_inv db bc run ls s' \<and> st_batch s' = []"
proof (cases "st_batch s = []")
  case True
  with inv show ?thesis by (simp add: flush_def)
next
  case False
  from inv obtain new where new: "db_logs (st_db s) = db_logs db @ new" "\<forall>l \<in> set new. ll_run l = run"
    "map ll_line new @ st_batch s = map cleanLine ls" "publish_lines Publish bc run (map ll_line new) = Inr (st_bc s)"
    and size: "run_log_size (st_db s) run + st_size s = run_log_size db run + (\<Sum>l\<leftarrow>ls. int (length l) + 1)"
    and up: "all_up (st_db s)" and ids: "jr_ids (st_db s) = jr_ids db" and ok: "bc_ok (st_bc s)"
    by (auto simp: stream_inv_def)
  from batch_up[OF up] run ids obtain db1 more where b: "BatchInsertLogLines now (st_db s) run (st_batch s) = Inr db1"
    "db_logs db1 = db_logs (st_db s) @ more" "map ll_line more = st_batch s" "\<forall>l \<in> set more. ll_run l = run"
    "db_runs db1 = db_runs (st_db s)" "db_down db1 = db_down (st_db s)" by metis
  have ids1: "jr_ids db1 = jr_ids db" using b(5) ids by (simp add: jr_ids_def)
  from AddLogSize_effect[of db1 run "st_size s"] ids1 run b(6) up obtain db2 where
    a: "AddLogSize db1 run (st_size s) = Inr db2" "run_log_size db2 run = run_log_size db1 run + st_size s"
    "jr_ids db2 = jr_ids db1" "db_logs db2 = db_logs db1" "db_down db2 = db_down db1"
    by (auto simp: all_up_def)
  from publish_all[OF ok] obtain bc' where p: "publish_lines Publish (st_bc s) run (st_batch s) = Inr bc'" "bc_ok bc'"
    by blast
  let ?s = "\<lparr>st_db = db2, st_bc = bc', st_batch = [], st_size = 0\<rparr>"
  have "flush now run s = Inr ?s" using False b(1) a(1) p(1) by (simp add: flush_def)
  moreover have "publish_lines Publish bc run (map ll_line (new @ more)) = Inr bc'"
    using publish_lines_append[OF new(4)] b(3) p(1) by simp
  then have "stream_inv db bc run ls ?s"
    unfolding stream_inv_def
    using new b a size up ids1 p by (auto intro!: exI[of _ "new @ more"] simp: all_up_def run_log_size_def)
  ultimately show ?thesis by simp
qed

definition got :: "(gotime \<times> stream_event) list \<Rightarrow> string list" where
  "got es = concat (map (\<lambda>(t, e). case e of Got l \<Rightarrow> [l] | _ \<Rightarrow> []) es)"

definition before_end :: "gotime \<times> stream_event \<Rightarrow> bool" where
  "before_end x \<longleftrightarrow> snd x \<noteq> Ctx_Done \<and> snd x \<noteq> Reader_Closed"

lemma step_inv:
  assumes "stream_inv db bc run ls s" and "run \<in> set (jr_ids db)" and "before_end (now, e)"
  shows "\<exists>s'. stream_step now run s e = Inr (s', True) \<and> stream_inv db bc run (ls @ got [(now, e)]) s'"
proof (cases e)
  case (Got l)
  let ?s = "s\<lparr>st_batch := st_batch s @ [cleanLine l], st_size := st_size s + int (length l) + 1\<rparr>"
  have "stream_inv db bc run (ls @ [l]) ?s"
    using assms(1) unfolding stream_inv_def by (auto simp flip: append_assoc)
  with Got flush_inv[OF this assms(2), of now] show ?thesis
    by (auto simp: stream_step_def Let_def got_def)
next
  case Flush_Tick
  with flush_inv[OF assms(1,2), of now] show ?thesis by (auto simp: stream_step_def got_def)
qed (use assms(3) in \<open>simp_all add: before_end_def\<close>)

lemma loop_inv:
  assumes "stream_inv db bc run ls s" and "run \<in> set (jr_ids db)" and "\<forall>x \<in> set es. before_end x"
  shows "\<exists>s'. stream_loop run s (es @ [(now, Reader_Closed)]) = Inr s'
    \<and> stream_inv db bc run (ls @ got es) s' \<and> st_batch s' = []"
  using assms(1,3)
proof (induction es arbitrary: s ls)
  case Nil
  with flush_inv[OF Nil.prems(1) assms(2), of now] show ?case
    by (auto simp: stream_step_def got_def)
next
  case (Cons x es)
  obtain t e where x: "x = (t, e)" by fastforce
  with Cons.prems(2) have "before_end (t, e)" by simp
  from step_inv[OF Cons.prems(1) assms(2) this] obtain s' where s': "stream_step t run s e = Inr (s', True)"
    "stream_inv db bc run (ls @ got [(t, e)]) s'" by blast
  from Cons.IH[OF s'(2)] Cons.prems(2) s'(1) x show ?case by (simp add: got_def)
qed

section \<open>Properties\<close>

text \<open>C17. Nothing is lost between the pod and the store: when the reader has delivered its
  lines, in whatever interleaving with the flush timer, and the storage works, the run's log
  has been extended by exactly the cleaned lines in their order, its size by the bytes
  received, and the same lines have been published in the same order.\<close>

theorem stream_stores_every_line:
  assumes "run \<in> set (jr_ids db)" and "all_up db" and "bc_ok bc" and "\<forall>x \<in> set es. before_end x"
  shows "\<exists>s new. streamLogs run db bc (es @ [(now, Reader_Closed)]) = Inr s \<and> st_batch s = []
    \<and> db_logs (st_db s) = db_logs db @ new \<and> map ll_line new = map cleanLine (got es)
    \<and> (\<forall>l \<in> set new. ll_run l = run)
    \<and> run_log_size (st_db s) run = run_log_size db run + (\<Sum>l\<leftarrow>got es. int (length l) + 1)
    \<and> publish_lines Publish bc run (map cleanLine (got es)) = Inr (st_bc s)"
proof -
  let ?s = "\<lparr>st_db = db, st_bc = bc, st_batch = [], st_size = 0\<rparr>"
  have "stream_inv db bc run [] ?s" using assms by (simp add: stream_inv_def)
  from loop_inv[OF this assms(1,4), of now] obtain s where
    s: "stream_loop run ?s (es @ [(now, Reader_Closed)]) = Inr s" "stream_inv db bc run (got es) s" "st_batch s = []"
    by auto
  then show ?thesis unfolding streamLogs_def stream_inv_def by fastforce
qed

text \<open>A batch the store refuses is gone, and its bytes are counted all the same: the run's log
  size grows, no line is stored, and the batch is dropped. Since a non-empty log size is what
  tells the watcher not to stream again, the lines are not fetched later.\<close>

lemma refused_batch:
  assumes "db_down (st_db s) ''BatchInsertLogLines begin'' = Some err"
    and "db_down (st_db s) ''AddLogSize'' = None"
    and "run \<in> set (jr_ids (st_db s))" and "bc_ok (st_bc s)" and "st_batch s \<noteq> []"
  shows "\<exists>s'. flush now run s = Inr s' \<and> AddLogSize (st_db s) run (st_size s) = Inr (st_db s')
    \<and> st_batch s' = [] \<and> db_logs (st_db s') = db_logs (st_db s) \<and> jr_ids (st_db s') = jr_ids (st_db s)
    \<and> db_down (st_db s') = db_down (st_db s)
    \<and> run_log_size (st_db s') run = run_log_size (st_db s) run + st_size s"
proof -
  have "BatchInsertLogLines now (st_db s) run (st_batch s)
      = wrapErr ''BatchInsertLogLines begin'' (Inl err)"
    using assms(1,5) by (simp add: BatchInsertLogLines_def exec_sql_def)
  moreover obtain db' where "AddLogSize (st_db s) run (st_size s) = Inr db'"
    "run_log_size db' run = run_log_size (st_db s) run + st_size s" "db_logs db' = db_logs (st_db s)"
    "jr_ids db' = jr_ids (st_db s)" "db_down db' = db_down (st_db s)"
    using AddLogSize_effect[OF assms(2,3), of "st_size s"] by blast
  moreover obtain bc' where "publish_lines Publish (st_bc s) run (st_batch s) = Inr bc'"
    using publish_all[OF assms(4)] by blast
  ultimately show ?thesis using assms(5) by (simp add: flush_def)
qed

text \<open>Witnesses\<close>

lemma demo_all_up: "all_up demo_db" and demo_r1: "''r1'' \<in> set (jr_ids demo_db)"
  by (simp_all add: all_up_def demo_defs jr_ids_def)

theorem stream_stores_every_line_witness:
  "\<exists>s new. streamLogs ''r1'' demo_db new_broadcaster
       ([(1, Got ''ab''), (2, Flush_Tick), (3, Got ''c'')] @ [(4, Reader_Closed)]) = Inr s
    \<and> db_logs (st_db s) = db_logs demo_db @ new \<and> map ll_line new = map cleanLine [''ab'', ''c'']"
  using stream_stores_every_line[OF demo_r1 demo_all_up bc_ok_new,
      of "[(1, Got ''ab''), (2, Flush_Tick), (3, Got ''c'')]" 4]
  by (auto simp: before_end_def got_def)

end
