(* ===== verification/Sse.thy ===== *)
theory Sse
  imports Html_Text Log_Stream
begin

text \<open>
  The model of \<open>internal/api/handlers_sse.go\<close>: what a browser that follows a run is sent, as
  events and as the bytes on the wire, and what an event stream parser makes of those bytes.
\<close>

section \<open>Events sent to the browser\<close>

record status_payload =
  sp_status :: string
  sp_duration :: string
  sp_exit :: "int option"
  sp_log_size :: string
  sp_avg_cpu :: "int option"
  sp_max_cpu :: "int option"
  sp_avg_mem_mb :: "int option"
  sp_max_mem_mb :: "int option"

definition makeStatusPayload :: "job_run \<Rightarrow> status_payload" where
  "makeStatusPayload r =
     \<lparr>sp_status = jr_status r,
      sp_duration = (case jr_duration r of None \<Rightarrow> ''running'' @ ellipsis | Some d \<Rightarrow> fmtDuration d),
      sp_exit = jr_exit r, sp_log_size = fmtLogSize (jr_log_size r),
      sp_avg_cpu = jr_avg_cpu r, sp_max_cpu = jr_max_cpu r,
      sp_avg_mem_mb = map_option (\<lambda>m. m sdiv 1048576) (jr_avg_mem r),
      sp_max_mem_mb = map_option (\<lambda>m. m sdiv 1048576) (jr_max_mem r)\<rparr>"

datatype sse_out = Status_Event status_payload | Data_Line string | Done_Event

definition data_line :: "string \<Rightarrow> sse_out" where
  "data_line l = Data_Line (''<div class=\"ll\" data-raw=\"'' @ escape_string l @ ''\">'' @ escape_string l @ ''</div>'')"

definition sse_log_limit :: int where "sse_log_limit = 5000"

definition replay_lines :: "db \<Rightarrow> string \<Rightarrow> string list" where
  "replay_lines db i =
     (case GetLogLinesTail db i sse_log_limit of Inl _ \<Rightarrow> [] | Inr ls \<Rightarrow> map ll_line ls)"

section \<open>The handler\<close>

text \<open>The part before the loop: an HTTP error, a complete answer, or the events sent so far
  with the channel the loop will read.\<close>

datatype sse_start =
    Http_Failure nat string
  | Finished "sse_out list"
  | Following broadcaster nat "sse_out list"

definition stream_open :: "db \<Rightarrow> broadcaster \<Rightarrow> string \<Rightarrow> sse_start" where
  "stream_open db bc i =
     (case GetJobRun db i of
        Inl _ \<Rightarrow> Http_Failure 500 ''failed to look up run''
      | Inr None \<Rightarrow> Http_Failure 404 ''run not found''
      | Inr (Some run) \<Rightarrow>
          (let first = Status_Event (makeStatusPayload run) in
           if jr_status run \<noteq> ''running'' then
             Finished (first # map data_line (replay_lines db i) @ [Done_Event])
           else
             (let (bc', ch) = Subscribe bc i in
              Following bc' ch (first # map data_line (replay_lines db i)))))"

text \<open>The loop, driven by what the environment delivers: a live line, the closing of the
  channel (at an instant), a tick (its instant and what the store answered), the end of the
  request. \<open>closed_at\<close> is \<open>broadcastDone\<close> with \<open>broadcastAt\<close>; a closed channel is never read
  again.\<close>

datatype sse_event =
    Live string
  | Chan_Closed gotime
  | Status_Tick gotime "job_run option result"
  | Client_Gone

fun sse_loop :: "gotime option \<Rightarrow> sse_event list \<Rightarrow> sse_out list" where
  "sse_loop closed_at [] = []"
| "sse_loop closed_at (Live l # es) =
     (if closed_at = None then data_line l # sse_loop closed_at es else sse_loop closed_at es)"
| "sse_loop closed_at (Chan_Closed t # es) =
     sse_loop (if closed_at = None then Some t else closed_at) es"
| "sse_loop closed_at (Status_Tick now res # es) =
     (case res of
        Inl _ \<Rightarrow> sse_loop closed_at es
      | Inr None \<Rightarrow> sse_loop closed_at es
      | Inr (Some r) \<Rightarrow>
          Status_Event (makeStatusPayload r) #
            (if jr_status r \<noteq> ''running'' \<or>
                (case closed_at of None \<Rightarrow> False | Some t \<Rightarrow> time_sub now t > 5 * second)
             then [Done_Event] else sse_loop closed_at es))"
| "sse_loop closed_at (Client_Gone # es) = []"

definition StreamLogs ::
  "db \<Rightarrow> broadcaster \<Rightarrow> string \<Rightarrow> sse_event list \<Rightarrow> (nat \<times> string) + sse_out list" where
  "StreamLogs db bc i es =
     (case stream_open db bc i of
        Http_Failure code msg \<Rightarrow> Inl (code, msg)
      | Finished outs \<Rightarrow> Inr outs
      | Following bc' ch outs \<Rightarrow> Inr (outs @ sse_loop None es))"


section \<open>Bytes on the wire\<close>

definition payload_json :: "status_payload \<Rightarrow> json" where
  "payload_json p =
     J_Obj ([(''status'', J_Str (sp_status p)), (''duration'', J_Str (sp_duration p)),
             (''exit_code'', case sp_exit p of None \<Rightarrow> J_Null | Some n \<Rightarrow> J_Int n),
             (''log_size_kb'', J_Str (sp_log_size p))]
            @ opt_field ''avg_cpu_m'' J_Int (sp_avg_cpu p) @ opt_field ''max_cpu_m'' J_Int (sp_max_cpu p)
            @ opt_field ''avg_mem_mb'' J_Int (sp_avg_mem_mb p)
            @ opt_field ''max_mem_mb'' J_Int (sp_max_mem_mb p))"

definition LF :: char where "LF = CHR 0x0A"
definition CR :: char where "CR = CHR 0x0D"

definition writeStatusEvent :: "status_payload \<Rightarrow> string" where
  "writeStatusEvent p = ''event: status'' @ LF # ''data: '' @ json_text (payload_json p) @ [LF, LF]"

fun sse_frame :: "sse_out \<Rightarrow> string" where
  "sse_frame (Status_Event p) = writeStatusEvent p"
| "sse_frame (Data_Line d) = ''data: '' @ d @ [LF, LF]"
| "sse_frame Done_Event = ''event: done'' @ LF # ''data: {}'' @ [LF, LF]"

section \<open>The parser of the browser\<close>

text \<open>
  The event stream format of the HTML standard: a line ends at CR LF, LF or CR; an empty line
  dispatches the event gathered so far, unless it has no data.
\<close>

definition drop_LF :: "string \<Rightarrow> string" where
  "drop_LF s = (case s of [] \<Rightarrow> [] | c # t \<Rightarrow> if c = LF then t else s)"

lemma drop_LF_le [termination_simp]: "length (drop_LF s) \<le> length s"
  by (cases s) (auto simp: drop_LF_def)

fun sse_lines :: "string \<Rightarrow> string \<Rightarrow> string list" where
  "sse_lines acc [] = []"
| "sse_lines acc (c # s) =
     (if c = LF then rev acc # sse_lines [] s
      else if c = CR then rev acc # sse_lines [] (drop_LF s)
      else sse_lines (c # acc) s)"

definition field_value :: "string option \<Rightarrow> string" where
  "field_value v =
     (case v of None \<Rightarrow> [] | Some w \<Rightarrow> if has_prefix w '' '' then tl w else w)"

fun sse_dispatch :: "string \<Rightarrow> string list \<Rightarrow> string list \<Rightarrow> (string \<times> string) list" where
  "sse_dispatch ty ds [] = []"
| "sse_dispatch ty ds (l # ls) =
     (if l = [] then
        (if ds = [] then sse_dispatch [] [] ls
         else (ty, join_with [LF] ds) # sse_dispatch [] [] ls)
      else
        (case split_at CHR '':'' l of
           (f, v) \<Rightarrow>
             (if f = ''data'' then sse_dispatch ty (ds @ [field_value v]) ls
              else if f = ''event'' then sse_dispatch (field_value v) ds ls
              else sse_dispatch ty ds ls)))"

definition sse_parse :: "string \<Rightarrow> (string \<times> string) list" where
  "sse_parse s = sse_dispatch [] [] (sse_lines [] s)"

text \<open>The event the handler means; an empty type is \<open>message\<close>.\<close>

fun sse_meaning :: "sse_out \<Rightarrow> string \<times> string" where
  "sse_meaning (Status_Event p) = (''status'', json_text (payload_json p))"
| "sse_meaning (Data_Line d) = ([], d)"
| "sse_meaning Done_Event = (''done'', ''{}'')"

section \<open>Framing\<close>

definition one_line :: "string \<Rightarrow> bool" where
  "one_line s \<longleftrightarrow> LF \<notin> set s \<and> CR \<notin> set s"

lemma one_line_simps [simp]:
  "one_line []" "one_line (s @ t) \<longleftrightarrow> one_line s \<and> one_line t"
  "one_line (c # s) \<longleftrightarrow> c \<noteq> LF \<and> c \<noteq> CR \<and> one_line s"
  by (auto simp: one_line_def)

lemma one_line_concat: "(\<And>x. x \<in> set xs \<Longrightarrow> one_line (f x)) \<Longrightarrow> one_line (concat (map f xs))"
  by (induction xs) auto

lemma sse_lines_take: "one_line d \<Longrightarrow> sse_lines acc (d @ LF # s) = (rev acc @ d) # sse_lines [] s"
  by (induction d arbitrary: acc) (auto simp: LF_def CR_def)

lemma sse_lines_LF: "sse_lines [] (LF # s) = [] # sse_lines [] s"
  by simp

lemma byte_LF_CR [simp]: "byte LF = 10" "byte CR = 13"
  by (simp_all add: LF_def CR_def byte_def)

lemma not_line_end: "byte c \<noteq> 10 \<Longrightarrow> c \<noteq> LF" "byte c \<noteq> 13 \<Longrightarrow> c \<noteq> CR"
  by auto

lemma hex_digit_line [simp]: "n < 16 \<Longrightarrow> hex_digit n \<noteq> LF" "n < 16 \<Longrightarrow> hex_digit n \<noteq> CR"
  by (rule not_line_end, simp add: hex_digit_def byte_def)+

lemma one_line_literals [simp]:
  "CHR 0x5C \<noteq> LF" "CHR 0x5C \<noteq> CR" "CHR 0x22 \<noteq> LF" "CHR 0x22 \<noteq> CR"
  "CHR ''b'' \<noteq> LF" "CHR ''b'' \<noteq> CR" "CHR ''f'' \<noteq> LF" "CHR ''f'' \<noteq> CR"
  "CHR ''n'' \<noteq> LF" "CHR ''n'' \<noteq> CR" "CHR ''r'' \<noteq> LF" "CHR ''r'' \<noteq> CR"
  "CHR ''t'' \<noteq> LF" "CHR ''t'' \<noteq> CR" "CHR ''u'' \<noteq> LF" "CHR ''u'' \<noteq> CR"
  "CHR ''0'' \<noteq> LF" "CHR ''0'' \<noteq> CR" "CHR ''-'' \<noteq> LF" "CHR ''-'' \<noteq> CR"
  by (simp_all add: LF_def CR_def)

lemma one_line_json_char: "one_line (json_char c)"
proof -
  have "byte c div 16 < 16" "byte c mod 16 < 16" using byte_hex[of c] by auto
  moreover have "c \<noteq> LF \<and> c \<noteq> CR" if "c \<noteq> CHR 0x0A" "c \<noteq> CHR 0x0D"
    using that by (simp add: LF_def CR_def)
  ultimately show ?thesis unfolding json_char_def by (simp only: if_split one_line_simps hex_digit_line one_line_literals) blast
qed

lemma one_line_int_text [simp]: "one_line (int_text i)"
proof -
  have "one_line (nat_text n)" for n
    using nat_text_digits[of LF n] nat_text_digits[of CR n] by (auto simp: one_line_def)
  then show ?thesis by (simp add: int_text_def)
qed

lemma one_line_json_string [simp]: "one_line (json_string s)"
  by (simp add: json_string_def one_line_concat one_line_json_char)

lemma one_line_join: "one_line sep \<Longrightarrow> (\<And>x. x \<in> set xs \<Longrightarrow> one_line x) \<Longrightarrow> one_line (join_with sep xs)"
  by (induction sep xs rule: join_with.induct) auto

lemma one_line_json [simp]: "one_line (json_text j)"
proof (induction j rule: json_text.induct)
  case (2 b)
  then show ?case by (simp add: LF_def CR_def)
next
  case (5 js)
  then show ?case by (auto simp: LF_def CR_def intro!: one_line_join)
next
  case (6 fs)
  have "one_line (json_string k @ CHR '':'' # json_text v)" if "(k, v) \<in> set fs" for k v
    using 6[OF that refl] by (simp add: LF_def CR_def)
  then show ?case by (auto simp: LF_def CR_def intro!: one_line_join)
qed (simp_all add: LF_def CR_def)

text \<open>One frame is one event, provided its data is a single line.\<close>

fun framed :: "sse_out \<Rightarrow> bool" where
  "framed (Data_Line d) \<longleftrightarrow> one_line d"
| "framed _ \<longleftrightarrow> True"

lemma parse_data:
  assumes "one_line d"
  shows "sse_dispatch ty [] (sse_lines [] (''data: '' @ d @ LF # LF # s)) = (ty, d) # sse_parse s"
proof -
  have "one_line (''data: '' @ d)" using assms by (simp add: LF_def CR_def)
  from sse_lines_take[OF this, of "[]" "LF # s"]
  have lines: "sse_lines [] (''data: '' @ d @ LF # LF # s) = (''data: '' @ d) # [] # sse_lines [] s"
    by simp
  have "split_at CHR '':'' (''data'' @ CHR '':'' # CHR '' '' # d) = (''data'', Some (CHR '' '' # d))"
    by (rule split_at_hit) simp
  then have sp: "split_at CHR '':'' (''data: '' @ d) = (''data'', Some (CHR '' '' # d))" by simp
  show ?thesis unfolding lines sse_parse_def by (simp add: sp[simplified] field_value_def has_prefix_def)
qed

lemma parse_event:
  assumes "one_line ty" and "ty \<noteq> []"
  shows "sse_dispatch [] [] (sse_lines [] (''event: '' @ ty @ LF # s)) = sse_dispatch ty [] (sse_lines [] s)"
proof -
  have "one_line (''event: '' @ ty)" using assms by (simp add: LF_def CR_def)
  from sse_lines_take[OF this, of "[]" s]
  have lines: "sse_lines [] (''event: '' @ ty @ LF # s) = (''event: '' @ ty) # sse_lines [] s"
    by simp
  have "split_at CHR '':'' (''event'' @ CHR '':'' # CHR '' '' # ty) = (''event'', Some (CHR '' '' # ty))"
    by (rule split_at_hit) simp
  then have sp: "split_at CHR '':'' (''event: '' @ ty) = (''event'', Some (CHR '' '' # ty))" by simp
  show ?thesis unfolding lines by (simp add: sp[simplified] field_value_def has_prefix_def)
qed

lemma parse_frame: "framed e \<Longrightarrow> sse_parse (sse_frame e @ s) = sse_meaning e # sse_parse s"
proof (cases e)
  case (Status_Event p)
  have "sse_frame e @ s = ''event: '' @ ''status'' @ LF # ''data: '' @ json_text (payload_json p) @ LF # LF # s"
    by (simp add: Status_Event writeStatusEvent_def)
  then show ?thesis
    using parse_event[of "''status''" "''data: '' @ json_text (payload_json p) @ LF # LF # s"]
      parse_data[of "json_text (payload_json p)" "''status''" s]
    by (simp add: Status_Event sse_parse_def LF_def CR_def)
next
  case Done_Event
  have "sse_frame e @ s = ''event: '' @ ''done'' @ LF # ''data: '' @ ''{}'' @ LF # LF # s"
    by (simp add: Done_Event)
  then show ?thesis
    using parse_event[of "''done''" "''data: '' @ ''{}'' @ LF # LF # s"] parse_data[of "''{}''" "''done''" s]
    by (simp add: Done_Event sse_parse_def LF_def CR_def)
next
  case (Data_Line d)
  then show "framed e \<Longrightarrow> ?thesis" using parse_data[of d "[]" s] by (simp add: sse_parse_def)
qed

text \<open>A line as the streamer stores it: no line feed, cleaned, not ending in a carriage return.\<close>

definition storable :: "string \<Rightarrow> bool" where
  "storable l \<longleftrightarrow> LF \<notin> set l \<and> cleanLine l = l \<and> l \<noteq> [] \<and> last l \<noteq> CR"

definition forged_line :: string where
  "forged_line = CHR ''x'' # CR # CR # ''event: done'' @ CR # ''data: y'' @ [CR, CR, CHR ''.'']"

lemma forged_storable: "storable forged_line"
proof -
  have "esc_byte \<notin> set forged_line" by (simp add: esc_byte_def forged_line_def CR_def)
  moreover have "match_k8s_ts forged_line = None"
    by (simp add: match_k8s_ts_def forged_line_def is_digit_def)
  ultimately show ?thesis
    by (simp add: storable_def cleanLine_def strip_ansi_plain) (simp add: forged_line_def LF_def CR_def)
qed

lemma one_line_escape: "one_line (escape_string l) \<longleftrightarrow> one_line l"
proof -
  have "one_line (escape_char c) \<longleftrightarrow> one_line [c]" for c
    by (simp add: escape_char_def LF_def CR_def)
  then show ?thesis by (induction l) (simp_all add: escape_string_def)
qed

lemma framed_data_line: "framed (data_line l) \<longleftrightarrow> one_line l"
  by (simp add: data_line_def one_line_escape) (simp add: LF_def CR_def)

text \<open>
  C21. The bytes of any sequence of events whose log lines hold no carriage return are read
  back by the browser as exactly that sequence, in order, one event per frame. The proviso is
  needed: the streamer keeps a carriage return inside a line (a progress bar prints many), the
  parser takes it for the end of a line, and there is a storable log line that the browser
  reads as the \<open>done\<close> event which makes it stop following the run.
\<close>

theorem sse_frames_round_trip:
  "(\<forall>outs. (\<forall>e \<in> set outs. framed e) \<longrightarrow> sse_parse (concat (map sse_frame outs)) = map sse_meaning outs)
   \<and> (\<forall>l. one_line l \<longrightarrow> framed (data_line l))
   \<and> (\<exists>l. storable l \<and> (''done'', ''y'') \<in> set (sse_parse (sse_frame (data_line l))))"
proof (intro conjI allI impI)
  fix outs assume "\<forall>e \<in> set outs. framed e"
  then show "sse_parse (concat (map sse_frame outs)) = map sse_meaning outs"
    by (induction outs) (simp_all add: parse_frame, simp add: sse_parse_def)
next
  have "(''done'', ''y'') \<in> set (sse_parse (sse_frame (data_line forged_line)))"
    by code_simp
  then show "\<exists>l. storable l \<and> (''done'', ''y'') \<in> set (sse_parse (sse_frame (data_line l)))"
    using forged_storable by blast
qed (simp add: framed_data_line)

theorem sse_frames_round_trip_witness:
  "sse_parse (concat (map sse_frame [data_line ''a<b'', Done_Event]))
     = map sse_meaning [data_line ''a<b'', Done_Event]"
proof -
  have "\<forall>e \<in> set [data_line ''a<b'', Done_Event]. framed e"
    by (simp add: framed_data_line) (simp add: LF_def CR_def)
  then show ?thesis using sse_frames_round_trip by blast
qed

end
