(* ===== verification/Live_Tail.thy ===== *)
theory Live_Tail
  imports Sse Log_Stream "HOL-Library.Sublist"
begin

text \<open>
  The race between the flushes of the log streamer (\<open>streamer/logstream.go\<close>) and a handler of
  \<open>api/handlers_sse.go\<close> that follows the run. Both are programs: the lists of their statements
  on the store and the broadcaster, in the order of the source. The statements of the two are
  interleaved in any way, and the driver may refuse any of them at any time.
\<close>

section \<open>The two programs\<close>

text \<open>The closure \<open>flush\<close>: insert, count, publish line by line.\<close>

datatype flush_step = Insert_Batch "string list" | Add_Size int | Publish_Line string

definition flush_code :: "string list \<Rightarrow> int \<Rightarrow> flush_step list" where
  "flush_code batch n =
     (if batch = [] then [] else [Insert_Batch batch, Add_Size n] @ map Publish_Line batch)"

fun flush_exec :: "gotime \<Rightarrow> string \<Rightarrow> flush_step \<Rightarrow> db \<times> broadcaster \<Rightarrow> chan_panic + db \<times> broadcaster" where
  "flush_exec now run (Insert_Batch ls) (db, bc) = Inr (keep_on_error db (BatchInsertLogLines now db run ls), bc)"
| "flush_exec now run (Add_Size n) (db, bc) = Inr (keep_on_error db (AddLogSize db run n), bc)"
| "flush_exec now run (Publish_Line l) (db, bc) =
     (case Publish bc run l of Inl p \<Rightarrow> Inl p | Inr bc' \<Rightarrow> Inr (db, bc'))"

text \<open>The handler of a run in flight: subscribe, read the history, then the loop.\<close>

datatype follow_step = Subscribe_Run | Read_History | Forward_Live

definition follow_code :: "follow_step list" where
  "follow_code = [Subscribe_Run, Read_History, Forward_Live]"

subsection \<open>Without interleaving they are the streamer's and the handler's definitions\<close>

fun flush_all :: "gotime \<Rightarrow> string \<Rightarrow> flush_step list \<Rightarrow> db \<times> broadcaster \<Rightarrow> chan_panic + db \<times> broadcaster" where
  "flush_all now run [] x = Inr x"
| "flush_all now run (i # is) x =
     (case flush_exec now run i x of Inl p \<Rightarrow> Inl p | Inr y \<Rightarrow> flush_all now run is y)"

lemma flush_all_publish:
  "flush_all now run (map Publish_Line ls) (db, bc)
     = (case publish_lines Publish bc run ls of Inl p \<Rightarrow> Inl p | Inr bc' \<Rightarrow> Inr (db, bc'))"
  by (induction ls arbitrary: bc) (simp_all split: sum.split)

lemma flush_is_code:
  "flush now run s =
     (case flush_all now run (flush_code (st_batch s) (st_size s)) (st_db s, st_bc s) of
        Inl p \<Rightarrow> Inl p
      | Inr (db, bc) \<Rightarrow> Inr (if st_batch s = [] then s
                             else \<lparr>st_db = db, st_bc = bc, st_batch = [], st_size = 0\<rparr>))"
  by (simp add: flush_def flush_code_def flush_all_publish Let_def split: sum.split)

fun follow_exec :: "db \<Rightarrow> string \<Rightarrow> follow_step \<Rightarrow> broadcaster \<times> nat option \<times> string list option
    \<Rightarrow> broadcaster \<times> nat option \<times> string list option" where
  "follow_exec db run Subscribe_Run (bc, ch, h) = (case Subscribe bc run of (bc', a) \<Rightarrow> (bc', Some a, h))"
| "follow_exec db run Read_History (bc, ch, h) = (bc, ch, Some (replay_lines db run))"
| "follow_exec db run Forward_Live x = x"

lemma stream_open_is_code:
  assumes "GetJobRun db i = Inr (Some r)" and "jr_status r = ''running''"
  shows "\<exists>bc' a h. fold (follow_exec db i) follow_code (bc, None, None) = (bc', Some a, Some h)
    \<and> stream_open db bc i = Following bc' a (Status_Event (makeStatusPayload r) # map data_line h)"
  using assms by (cases "Subscribe bc i") (simp add: follow_code_def stream_open_def Let_def)

section \<open>The race\<close>

text \<open>
  One run, its streamer and one follower. \<open>tc_writer\<close> is what is left of the current flush,
  \<open>tc_rest\<close> the batches to come with their sizes, \<open>tc_reader\<close> what is left of the handler; then
  the follower's channel, what it has replayed and received. The other fields only record the
  history: \<open>tc_log\<close> the lines handed to the store and whether it took them, \<open>tc_sent\<close> how many of
  them have been published, \<open>tc_mark\<close> how many had been when the follower subscribed, \<open>tc_seen\<close> how
  many lines were stored when it read the history, \<open>tc_unread\<close> whether that read failed, and
  \<open>tc_lost\<close> whether a line found the follower's buffer full.
\<close>

record tail_cfg =
  tc_db :: db
  tc_bc :: broadcaster
  tc_writer :: "flush_step list"
  tc_rest :: "(string list \<times> int) list"
  tc_reader :: "follow_step list"
  tc_chan :: "nat option"
  tc_replay :: "string list option"
  tc_got :: "string list"
  tc_log :: "(string \<times> bool) list"
  tc_sent :: nat
  tc_mark :: nat
  tc_seen :: nat
  tc_unread :: bool
  tc_lost :: bool

definition tail_start :: "db \<Rightarrow> broadcaster \<Rightarrow> (string list \<times> int) list \<Rightarrow> tail_cfg" where
  "tail_start db bc batches = \<lparr>tc_db = db, tc_bc = bc, tc_writer = [], tc_rest = batches, tc_reader = follow_code,
     tc_chan = None, tc_replay = None, tc_got = [], tc_log = [], tc_sent = 0, tc_mark = 0, tc_seen = 0,
     tc_unread = False, tc_lost = False\<rparr>"

definition full :: "broadcaster \<Rightarrow> nat option \<Rightarrow> bool" where
  "full b ch = (case ch of None \<Rightarrow> False | Some a \<Rightarrow> \<not> length (inbox_of b a) < chan_buffer_size)"

text \<open>The recording fields after a statement of a flush.\<close>

fun note_flush :: "gotime \<Rightarrow> string \<Rightarrow> flush_step \<Rightarrow> tail_cfg \<Rightarrow> tail_cfg" where
  "note_flush now run (Insert_Batch ls) c =
     c\<lparr>tc_log := tc_log c @ map (\<lambda>l. (l, \<not> is_err (BatchInsertLogLines now (tc_db c) run ls))) ls\<rparr>"
| "note_flush now run (Add_Size n) c = c"
| "note_flush now run (Publish_Line l) c =
     c\<lparr>tc_sent := tc_sent c + 1, tc_lost := tc_lost c \<or> full (tc_bc c) (tc_chan c)\<rparr>"

inductive tail_step :: "string \<Rightarrow> tail_cfg \<Rightarrow> tail_cfg \<Rightarrow> bool" for run where
  step_flush: "tc_writer c = [] \<Longrightarrow> tc_rest c = (b, n) # bs \<Longrightarrow>
    tail_step run c (c\<lparr>tc_writer := flush_code b n, tc_rest := bs\<rparr>)"
| step_write: "tc_writer c = i # is \<Longrightarrow> flush_exec now run i (tc_db c, tc_bc c) = Inr (db', bc') \<Longrightarrow>
    tail_step run c ((note_flush now run i c)\<lparr>tc_db := db', tc_bc := bc', tc_writer := is\<rparr>)"
| step_subscribe: "tc_reader c = Subscribe_Run # k \<Longrightarrow> Subscribe (tc_bc c) run = (bc', a) \<Longrightarrow>
    tail_step run c (c\<lparr>tc_bc := bc', tc_chan := Some a, tc_mark := tc_sent c, tc_reader := k\<rparr>)"
| step_replay: "tc_reader c = Read_History # k \<Longrightarrow>
    tail_step run c (c\<lparr>tc_replay := Some (replay_lines (tc_db c) run), tc_seen := length (logs_of (tc_db c) run),
      tc_unread := is_err (GetLogLinesTail (tc_db c) run sse_log_limit), tc_reader := k\<rparr>)"
| step_receive: "tc_reader c = Forward_Live # k \<Longrightarrow> tc_chan c = Some a \<Longrightarrow> receive (tc_bc c) a = (bc', Line l) \<Longrightarrow>
    tail_step run c (c\<lparr>tc_bc := bc', tc_got := tc_got c @ [l]\<rparr>)"
| step_driver: "tail_step run c (c\<lparr>tc_db := (tc_db c)\<lparr>db_down := down\<rparr>\<rparr>)"

inductive tail_reach :: "string \<Rightarrow> tail_cfg \<Rightarrow> tail_cfg \<Rightarrow> bool" for run where
  reach_refl: "tail_reach run c c"
| reach_step: "tail_reach run c d \<Longrightarrow> tail_step run d e \<Longrightarrow> tail_reach run c e"

inductive_cases tail_stepE: "tail_step run c d"

section \<open>Invariant\<close>

definition stored :: "db \<Rightarrow> string \<Rightarrow> string list" where
  "stored db run = map ll_line (logs_of db run)"

definition taken :: "(string \<times> bool) list \<Rightarrow> string list" where
  "taken xs = map fst (filter snd xs)"

lemma taken_simps [simp]: "taken [] = []" "taken (xs @ ys) = taken xs @ taken ys"
  "taken (map (\<lambda>l. (l, True)) ls) = ls" "taken (map (\<lambda>l. (l, False)) ls) = []"
  by (induction ls) (simp_all add: taken_def)

text \<open>What is left of a flush: all of it, or what follows the insert.\<close>

definition writer_inv :: "tail_cfg \<Rightarrow> bool" where
  "writer_inv c \<longleftrightarrow> (\<exists>todo n.
     (tc_writer c = map Publish_Line todo \<or> tc_writer c = Add_Size n # map Publish_Line todo)
       \<and> map fst (drop (tc_sent c) (tc_log c)) = todo
     \<or> tc_writer c = flush_code todo n \<and> tc_sent c = length (tc_log c))
   \<and> tc_sent c \<le> length (tc_log c)"

text \<open>The handler: not begun; subscribed; or subscribed with the history read.\<close>

definition begun :: "tail_cfg \<Rightarrow> bool" where
  "begun c \<longleftrightarrow> \<not> (tc_reader c = follow_code \<and> tc_chan c = None \<and> tc_replay c = None \<and> tc_got c = [] \<and> \<not> tc_lost c)"

definition live_inv :: "string \<Rightarrow> tail_cfg \<Rightarrow> bool" where
  "live_inv run c \<longleftrightarrow> tc_mark c \<le> tc_sent c
     \<and> (\<exists>a. tc_chan c = Some a \<and> a \<in> set (subs_of (tc_bc c) run)
          \<and> subseq (tc_got c @ inbox_of (tc_bc c) a) (map fst (drop (tc_mark c) (take (tc_sent c) (tc_log c))))
          \<and> (\<not> tc_lost c \<longrightarrow>
               tc_got c @ inbox_of (tc_bc c) a = map fst (drop (tc_mark c) (take (tc_sent c) (tc_log c)))))"

definition history_inv :: "string \<Rightarrow> string list \<Rightarrow> tail_cfg \<Rightarrow> bool" where
  "history_inv run old c \<longleftrightarrow>
     tc_reader c = [Read_History, Forward_Live] \<and> tc_replay c = None \<and> tc_got c = []
     \<or> tc_reader c = [Forward_Live]
       \<and> (\<exists>h. tc_replay c = Some h
            \<and> (\<not> tc_unread c \<longrightarrow> h = drop (tc_seen c - nat sse_log_limit) (take (tc_seen c) (stored (tc_db c) run))))
       \<and> length old + length (taken (take (tc_mark c) (tc_log c))) \<le> tc_seen c
       \<and> tc_seen c \<le> length (stored (tc_db c) run)"

definition reader_inv :: "string \<Rightarrow> string list \<Rightarrow> tail_cfg \<Rightarrow> bool" where
  "reader_inv run old c \<longleftrightarrow> (begun c \<longrightarrow> live_inv run c \<and> history_inv run old c)"

definition tail_inv :: "string \<Rightarrow> string list \<Rightarrow> tail_cfg \<Rightarrow> bool" where
  "tail_inv run old c \<longleftrightarrow>
     db_wf (tc_db c) \<and> bc_ok (tc_bc c) \<and> stored (tc_db c) run = old @ taken (tc_log c)
     \<and> writer_inv c \<and> reader_inv run old c"

lemma Subscribe_effect:
  assumes "bc_ok b" and "Subscribe b r = (b', a)"
  shows "bc_ok b'" and "a \<in> set (subs_of b' r)" and "inbox_of b' a = []"
proof -
  show "bc_ok b'" using bc_ok_Subscribe[OF assms(1), of r] assms(2) by simp
  from assms(2) show "a \<in> set (subs_of b' r)" "inbox_of b' a = []"
    by (auto simp: Subscribe_def Let_def inbox_of_def subs_of_def)
qed

lemma receive_effect:
  assumes "bc_ok b" and "a \<in> set (subs_of b r)" and "receive b a = (b', Line l)"
  shows "bc_ok b'" and "subs_of b' r = subs_of b r" and "inbox_of b a = l # inbox_of b' a"
proof -
  have a: "a < length (bc_chans b)" by (rule bc_okD(2)[OF assms(1,2)])
  from receive_ok[OF assms(1) a] assms(3) show "bc_ok b'" by simp
  from assms(3) a show "subs_of b' r = subs_of b r" "inbox_of b a = l # inbox_of b' a"
    by (auto simp: receive_def inbox_of_def split: list.splits if_splits)
qed

lemma stored_insert:
  assumes "BatchInsertLogLines now db run b = Inr db'"
  shows "stored db' run = stored db run @ b"
  using insert_lines_effect[OF BatchInsertLogLines_Inr[OF assms]]
  by (auto simp: stored_def logs_of_def filter_id_conv)

lemma stored_same: "db_logs db' = db_logs db \<Longrightarrow> stored db' run = stored db run"
  by (simp add: stored_def logs_of_def)

text \<open>What the insert of a batch does to the log, accepted or refused.\<close>

lemma insert_stored:
  "stored (keep_on_error db (BatchInsertLogLines now db run ls)) run
     = stored db run @ taken (map (\<lambda>l. (l, \<not> is_err (BatchInsertLogLines now db run ls))) ls)"
  by (cases "BatchInsertLogLines now db run ls") (simp_all add: stored_insert)

lemma insert_wf: "db_wf db \<Longrightarrow> db_wf (keep_on_error db (BatchInsertLogLines now db run ls))"
  by (cases "BatchInsertLogLines now db run ls") (auto intro: BatchInsertLogLines_wf)

lemma count_stored: "stored (keep_on_error db (AddLogSize db run n)) q = stored db q"
proof (cases "AddLogSize db run n")
  case (Inr db')
  then have "db_logs db' = db_logs db" by (auto simp: AddLogSize_def set_runs_def)
  from stored_same[OF this] show ?thesis by (simp add: Inr)
qed simp

lemma count_wf: "db_wf db \<Longrightarrow> db_wf (keep_on_error db (AddLogSize db run n))"
  by (cases "AddLogSize db run n") (auto intro: AddLogSize_wf)

text \<open>More stored lines leave the follower's part of the invariant alone.\<close>

lemma reader_inv_more:
  assumes inv: "reader_inv run old c" and w: "tc_sent c \<le> length (tc_log c)"
    and st: "stored (tc_db d) run = stored (tc_db c) run @ new" and lg: "tc_log d = tc_log c @ added"
    and same: "tc_bc d = tc_bc c" "tc_reader d = tc_reader c" "tc_chan d = tc_chan c" "tc_replay d = tc_replay c"
      "tc_got d = tc_got c" "tc_sent d = tc_sent c" "tc_mark d = tc_mark c" "tc_seen d = tc_seen c"
      "tc_unread d = tc_unread c" "tc_lost d = tc_lost c"
  shows "reader_inv run old d"
  unfolding reader_inv_def
proof (intro impI conjI)
  assume "begun d"
  then have "begun c" by (simp add: begun_def same)
  with inv have live: "live_inv run c" and hist: "history_inv run old c" by (simp_all add: reader_inv_def)
  then have m: "tc_mark c \<le> tc_sent c" by (simp add: live_inv_def)
  have t: "take (tc_mark c) (tc_log d) = take (tc_mark c) (tc_log c)" "take (tc_sent c) (tc_log d) = take (tc_sent c) (tc_log c)"
    using m w by (simp_all add: lg)
  show "live_inv run d" using live by (simp only: live_inv_def same t)
  show "history_inv run old d"
  proof (cases "tc_reader c = [Forward_Live]")
    case True
    with hist have "tc_seen c \<le> length (stored (tc_db c) run)" by (simp add: history_inv_def)
    then have "take (tc_seen c) (stored (tc_db d) run) = take (tc_seen c) (stored (tc_db c) run)"
      "tc_seen c \<le> length (stored (tc_db d) run)" by (simp_all add: st)
    with hist True show ?thesis by (simp add: history_inv_def same t)
  qed (use hist in \<open>simp add: history_inv_def same\<close>)
qed

lemma flush_code_Cons: "flush_code ls n = i # is \<Longrightarrow> i = Insert_Batch ls \<and> is = Add_Size n # map Publish_Line ls"
  by (auto simp: flush_code_def split: if_splits)

lemma writer_cases:
  assumes "writer_inv c" and "tc_writer c = i # is"
  obtains (insert) ls n where "i = Insert_Batch ls" "is = Add_Size n # map Publish_Line ls" "tc_sent c = length (tc_log c)"
  | (count) n where "i = Add_Size n" "is = map Publish_Line (map fst (drop (tc_sent c) (tc_log c)))"
  | (send) l ls where "i = Publish_Line l" "is = map Publish_Line ls" "map fst (drop (tc_sent c) (tc_log c)) = l # ls"
proof -
  from assms(1) obtain todo n where
    "tc_writer c = map Publish_Line todo \<and> map fst (drop (tc_sent c) (tc_log c)) = todo
     \<or> tc_writer c = Add_Size n # map Publish_Line todo \<and> map fst (drop (tc_sent c) (tc_log c)) = todo
     \<or> tc_writer c = flush_code todo n \<and> tc_sent c = length (tc_log c)" unfolding writer_inv_def by blast
  then show thesis
  proof (elim disjE conjE)
    assume a: "tc_writer c = map Publish_Line todo" "map fst (drop (tc_sent c) (tc_log c)) = todo"
    with assms(2) obtain l ls where "todo = l # ls" by (cases todo) auto
    with a assms(2) show thesis by (intro send) auto
  next
    assume "tc_writer c = Add_Size n # map Publish_Line todo" "map fst (drop (tc_sent c) (tc_log c)) = todo"
    with assms(2) show thesis by (intro count) auto
  next
    assume a: "tc_writer c = flush_code todo n" "tc_sent c = length (tc_log c)"
    with assms(2) flush_code_Cons[of todo n i "is"] show thesis by (intro insert) auto
  qed
qed

lemma write_inv:
  assumes inv: "tail_inv run old c" and w: "tc_writer c = i # is"
    and ex: "flush_exec now run i (tc_db c, tc_bc c) = Inr (db', bc')"
  shows "tail_inv run old ((note_flush now run i c)\<lparr>tc_db := db', tc_bc := bc', tc_writer := is\<rparr>)"
    (is "tail_inv run old ?d")
proof -
  from inv have wr: "writer_inv c" and le: "tc_sent c \<le> length (tc_log c)" and rd: "reader_inv run old c"
    and wf: "db_wf (tc_db c)" and ok: "bc_ok (tc_bc c)" and st: "stored (tc_db c) run = old @ taken (tc_log c)"
    by (auto simp: tail_inv_def writer_inv_def)
  from wr w show ?thesis
  proof (cases rule: writer_cases)
    case (insert ls n)
    have db: "db' = keep_on_error (tc_db c) (BatchInsertLogLines now (tc_db c) run ls)" "bc' = tc_bc c"
      using ex insert(1) by auto
    have "reader_inv run old ?d"
      by (rule reader_inv_more[OF rd le]) (simp_all add: insert(1) db insert_stored)
    moreover have "writer_inv ?d" using insert by (auto simp: writer_inv_def comp_def)
    ultimately show ?thesis using st ok wf by (simp add: tail_inv_def insert(1) db insert_stored insert_wf)
  next
    case (count n)
    have db: "db' = keep_on_error (tc_db c) (AddLogSize (tc_db c) run n)" "bc' = tc_bc c"
      using ex count(1) by auto
    have "reader_inv run old ?d"
      by (rule reader_inv_more[OF rd le, where new = "[]" and added = "[]"]) (simp_all add: count(1) db count_stored)
    moreover have "writer_inv ?d"
      using count le by (auto simp: writer_inv_def intro!: exI[of _ "map fst (drop (tc_sent c) (tc_log c))"])
    ultimately show ?thesis using st ok wf by (simp add: tail_inv_def count(1) db count_stored count_wf)
  next
    case (send l ls)
    have db: "db' = tc_db c" and pub: "Publish (tc_bc c) run l = Inr bc'"
      using ex send(1) by (auto split: sum.splits)
    note e = Publish_InrD(1,2)[OF ok pub] bc.publish_inbox[OF ok pub]
    have subs: "subs_of bc' q = subs_of (tc_bc c) q" for q using e(2) by (simp add: subs_of_def)
    have lt: "tc_sent c < length (tc_log c)" using send(3) by (metis drop_eq_Nil leI list.distinct(1) list.simps(8))
    then have x: "drop (tc_sent c) (tc_log c) = tc_log c ! tc_sent c # drop (Suc (tc_sent c)) (tc_log c)"
      by (simp add: Cons_nth_drop_Suc)
    with send(3) have l: "fst (tc_log c ! tc_sent c) = l" "map fst (drop (Suc (tc_sent c)) (tc_log c)) = ls" by auto
    have "writer_inv ?d" using lt l(2) send(1,2) by (auto simp: writer_inv_def)
    moreover have "reader_inv run old ?d" unfolding reader_inv_def
    proof (intro impI conjI)
      assume "begun ?d"
      then have b: "begun c" by (auto simp: begun_def send(1) full_def)
      with rd have live: "live_inv run c" and hist: "history_inv run old c" by (simp_all add: reader_inv_def)
      from live obtain a where m: "tc_mark c \<le> tc_sent c" and a: "tc_chan c = Some a" "a \<in> set (subs_of (tc_bc c) run)"
        and sub: "subseq (tc_got c @ inbox_of (tc_bc c) a) (map fst (drop (tc_mark c) (take (tc_sent c) (tc_log c))))"
        and all: "\<not> tc_lost c \<longrightarrow> tc_got c @ inbox_of (tc_bc c) a = map fst (drop (tc_mark c) (take (tc_sent c) (tc_log c)))"
        unfolding live_inv_def by blast
      have sent: "map fst (drop (tc_mark c) (take (Suc (tc_sent c)) (tc_log c)))
          = map fst (drop (tc_mark c) (take (tc_sent c) (tc_log c))) @ [l]"
        using lt m l(1) by (simp add: take_Suc_conv_app_nth)
      have "subseq (tc_got c @ inbox_of bc' a) (map fst (drop (tc_mark c) (take (Suc (tc_sent c)) (tc_log c))))"
      proof (cases "length (inbox_of (tc_bc c) a) < chan_buffer_size")
        case True
        then have "inbox_of bc' a = inbox_of (tc_bc c) a @ [l]" using e(3)[of a] a(2) by simp
        then show ?thesis unfolding sent using sub by (simp flip: append_assoc)
      next
        case False
        then have "inbox_of bc' a = inbox_of (tc_bc c) a" using e(3)[of a] by simp
        then show ?thesis unfolding sent using sub by (metis append_Nil2 list_emb_append_mono list_emb_Nil)
      qed
      moreover have "\<not> tc_lost c \<Longrightarrow> \<not> full (tc_bc c) (tc_chan c) \<Longrightarrow>
          tc_got c @ inbox_of bc' a = map fst (drop (tc_mark c) (take (Suc (tc_sent c)) (tc_log c)))"
        unfolding sent using all e(3)[of a] a by (simp add: full_def flip: append_assoc)
      ultimately show "live_inv run ?d" using m a subs by (auto simp: live_inv_def send(1))
      show "history_inv run old ?d" using hist by (simp add: history_inv_def send(1) db)
    qed
    ultimately show ?thesis using st wf e(1) by (simp add: tail_inv_def db send(1))
  qed
qed

lemma tail_step_inv:
  assumes "tail_step run c d" and inv: "tail_inv run old c"
  shows "tail_inv run old d"
  using assms(1)
proof cases
  case (step_flush b n bs)
  have "tc_sent c = length (tc_log c)" using inv step_flush(2)
    by (auto simp: tail_inv_def writer_inv_def flush_code_def split: if_splits)
  then have "writer_inv d" using step_flush(1) by (auto simp: writer_inv_def)
  moreover have "reader_inv run old d"
    using inv by (intro reader_inv_more[of run old c d "[]" "[]"]) (simp_all add: tail_inv_def writer_inv_def step_flush(1))
  ultimately show ?thesis using inv step_flush(1) by (simp add: tail_inv_def)
next
  case (step_write i "is" now db' bc')
  from write_inv[OF inv step_write(2,3)] step_write(1) show ?thesis by simp
next
  case (step_subscribe k bc' a)
  from inv have ok: "bc_ok (tc_bc c)" by (simp add: tail_inv_def)
  note e = Subscribe_effect[OF ok step_subscribe(3)]
  have "tc_reader c = follow_code"
  proof (rule ccontr)
    assume "tc_reader c \<noteq> follow_code"
    then have "history_inv run old c" using inv by (simp add: tail_inv_def reader_inv_def begun_def)
    with step_subscribe(2) show False by (auto simp: history_inv_def)
  qed
  then have k: "k = [Read_History, Forward_Live]" using step_subscribe(2) by (simp add: follow_code_def)
  show ?thesis
  proof (cases "begun c")
    case False
    then have "live_inv run d" "history_inv run old d"
      using e step_subscribe(1) k by (auto simp: live_inv_def history_inv_def begun_def)
    then show ?thesis using inv e(1) step_subscribe(1) by (auto simp: tail_inv_def reader_inv_def writer_inv_def)
  next
    case True
    then have "history_inv run old c" using inv by (simp add: tail_inv_def reader_inv_def)
    with \<open>tc_reader c = follow_code\<close> show ?thesis by (auto simp: history_inv_def follow_code_def)
  qed
next
  case (step_replay k)
  have "tc_reader c \<noteq> follow_code" using step_replay(2) by (simp add: follow_code_def)
  then have live: "live_inv run c" and hist: "history_inv run old c"
    using inv by (simp_all add: tail_inv_def reader_inv_def begun_def)
  from hist step_replay(2) have k: "k = [Forward_Live]" by (auto simp: history_inv_def)
  from inv have wf: "db_wf (tc_db c)" and st: "stored (tc_db c) run = old @ taken (tc_log c)" by (simp_all add: tail_inv_def)
  have len: "length (logs_of (tc_db c) run) = length (stored (tc_db c) run)" by (simp add: stored_def)
  have read: "replay_lines (tc_db c) run = drop (length (stored (tc_db c) run) - nat sse_log_limit) (stored (tc_db c) run)"
    if "\<not> is_err (GetLogLinesTail (tc_db c) run sse_log_limit)"
  proof (cases "GetLogLinesTail (tc_db c) run sse_log_limit")
    case (Inr rows)
    have pos: "0 < sse_log_limit" by (simp add: sse_log_limit_def)
    from Inr have "rows = drop (length (logs_of (tc_db c) run) - nat sse_log_limit) (logs_of (tc_db c) run)"
      unfolding GetLogLinesTail_eq[OF wf pos] by (simp add: sql_rows_def)
    then show ?thesis using Inr by (simp add: replay_lines_def stored_def drop_map)
  qed (use that in simp)
  have "length (taken (take (tc_mark c) (tc_log c))) \<le> length (taken (tc_log c))"
    by (metis append_take_drop_id length_append le_add1 taken_simps(2))
  then have "history_inv run old d" using step_replay(1) k read st by (auto simp: history_inv_def len)
  moreover have "live_inv run d" using live step_replay(1) by (simp add: live_inv_def)
  ultimately show ?thesis using inv step_replay(1) by (simp add: tail_inv_def reader_inv_def writer_inv_def)
next
  case (step_receive k a bc' l)
  have "tc_reader c \<noteq> follow_code" using step_receive(2) by (simp add: follow_code_def)
  then have live: "live_inv run c" and hist: "history_inv run old c"
    using inv by (simp_all add: tail_inv_def reader_inv_def begun_def)
  from live step_receive(3) have a: "a \<in> set (subs_of (tc_bc c) run)" by (simp add: live_inv_def)
  from inv have ok: "bc_ok (tc_bc c)" by (simp add: tail_inv_def)
  note e = receive_effect[OF ok a step_receive(4)]
  have "live_inv run d" using live step_receive(1,3) e by (simp add: live_inv_def)
  moreover have "history_inv run old d" using hist step_receive(1,2) by (auto simp: history_inv_def)
  ultimately show ?thesis using inv step_receive(1) e(1) by (simp add: tail_inv_def reader_inv_def writer_inv_def)
next
  case (step_driver down)
  have "stored ((tc_db c)\<lparr>db_down := down\<rparr>) run = stored (tc_db c) run" by (rule stored_same) simp
  moreover have "reader_inv run old d"
    using inv calculation by (intro reader_inv_more[of run old c d "[]" "[]"]) (simp_all add: tail_inv_def writer_inv_def step_driver)
  ultimately show ?thesis using inv driver_wf by (simp add: step_driver tail_inv_def writer_inv_def)
qed

lemma tail_reach_inv: "tail_reach run c d \<Longrightarrow> tail_inv run old c \<Longrightarrow> tail_inv run old d"
  by (induction rule: tail_reach.induct) (auto intro: tail_step_inv)

lemma tail_start_inv: "db_wf db \<Longrightarrow> bc_ok bc \<Longrightarrow> tail_inv run (stored db run) (tail_start db bc batches)"
  by (auto simp: tail_inv_def tail_start_def writer_inv_def reader_inv_def begun_def)

section \<open>Properties\<close>

text \<open>C20. What a follower of a run in flight sees, in any interleaving of the streamer's flushes
  with the handler and whatever statements fail. The lines it gets live are lines flushed after it
  subscribed, in order and each at most once. If no line found its buffer of 64 lines full (a flush
  publishes its whole batch, up to 200 lines, without a pause), it gets every such line: received,
  waiting in the channel, or still to be published, those the store refused included. If the history
  could be read, the replay is the end of what was stored at that moment, at most 5000 lines. If
  both hold and the log had at most 5000 lines then, replay and live lines together are the stored
  log without a gap: after the replay come, once the first few that it already showed are left
  out, exactly the live lines the store took. (The stream is not closed and the run's log not pruned
  meanwhile.)\<close>

theorem live_tail_no_gap:
  assumes "db_wf db" and "bc_ok bc" and "tail_reach run (tail_start db bc batches) c"
    and "tc_chan c = Some a" and "tc_replay c = Some h"
  shows "let live = tc_got c @ inbox_of (tc_bc c) a @ map fst (drop (tc_sent c) (tc_log c));
             flushed = drop (tc_mark c) (tc_log c);
             kept = stored (tc_db c) run in
     kept = stored db run @ taken (tc_log c)
     \<and> subseq live (map fst flushed)
     \<and> (\<not> tc_lost c \<longrightarrow> live = map fst flushed)
     \<and> (\<not> tc_unread c \<longrightarrow> h = drop (tc_seen c - nat sse_log_limit) (take (tc_seen c) kept))
     \<and> (\<not> tc_unread c \<and> int (tc_seen c) \<le> sse_log_limit \<longrightarrow> (\<exists>dup. h @ drop dup (taken flushed) = kept))"
proof -
  let ?old = "stored db run" and ?all = "stored (tc_db c) run"
  have inv: "tail_inv run ?old c" by (rule tail_reach_inv[OF assms(3) tail_start_inv[OF assms(1,2)]])
  have "begun c" using assms(4) by (simp add: begun_def)
  with inv have live: "live_inv run c" and hist: "history_inv run ?old c" and st: "?all = ?old @ taken (tc_log c)"
    and sent: "tc_sent c \<le> length (tc_log c)" by (simp_all add: tail_inv_def reader_inv_def writer_inv_def)
  let ?rest = "map fst (drop (tc_sent c) (tc_log c))" and ?part = "map fst (drop (tc_mark c) (take (tc_sent c) (tc_log c)))"
  from live assms(4) have mark: "tc_mark c \<le> tc_sent c" and sub: "subseq (tc_got c @ inbox_of (tc_bc c) a) ?part"
    and eq: "\<not> tc_lost c \<longrightarrow> tc_got c @ inbox_of (tc_bc c) a = ?part" by (auto simp: live_inv_def)
  have flushed: "map fst (drop (tc_mark c) (tc_log c)) = ?part @ ?rest"
  proof -
    have "drop (tc_mark c) (take (tc_sent c) (tc_log c) @ drop (tc_sent c) (tc_log c))
        = drop (tc_mark c) (take (tc_sent c) (tc_log c)) @ drop (tc_sent c) (tc_log c)"
      using mark sent by (simp only: drop_append) simp
    then show ?thesis by (metis append_take_drop_id map_append)
  qed
  from hist assms(5) have seen: "length ?old + length (taken (take (tc_mark c) (tc_log c))) \<le> tc_seen c"
    and h: "\<not> tc_unread c \<longrightarrow> h = drop (tc_seen c - nat sse_log_limit) (take (tc_seen c) ?all)"
    by (auto simp: history_inv_def)
  have "\<exists>dup. h @ drop dup (taken (drop (tc_mark c) (tc_log c))) = ?all"
    if "\<not> tc_unread c" "int (tc_seen c) \<le> sse_log_limit"
  proof -
    let ?pre = "?old @ taken (take (tc_mark c) (tc_log c))"
    have all: "?all = ?pre @ taken (drop (tc_mark c) (tc_log c))"
      unfolding st by (metis append.assoc append_take_drop_id taken_simps(2))
    have "h = take (tc_seen c) ?all" using h that by (simp add: nat_le_iff)
    moreover have "drop (tc_seen c - length ?pre) (taken (drop (tc_mark c) (tc_log c))) = drop (tc_seen c) ?all"
      unfolding all using seen by simp
    ultimately have "h @ drop (tc_seen c - length ?pre) (taken (drop (tc_mark c) (tc_log c))) = ?all" by simp
    then show ?thesis by blast
  qed
  moreover have "subseq (tc_got c @ inbox_of (tc_bc c) a @ ?rest) (map fst (drop (tc_mark c) (tc_log c)))"
    unfolding flushed using list_emb_append_mono[OF sub, of ?rest ?rest] by simp
  moreover have "\<not> tc_lost c \<longrightarrow> tc_got c @ inbox_of (tc_bc c) a @ ?rest = map fst (drop (tc_mark c) (tc_log c))"
    unfolding flushed using eq by (simp flip: append_assoc)
  ultimately show ?thesis using st h unfolding Let_def by blast
qed

text \<open>But it may be shown a line twice, which the handler's comment rules out: for every
  line there is an execution in which the line is stored once, replayed, and then received
  again as a live line.\<close>

lemma live_tail_repeats_a_line:
  assumes wf: "db_wf db" and run: "run \<in> set (jr_ids db)" and up: "all_up db" and ok: "bc_ok bc"
  shows "\<exists>c h. tail_reach run (tail_start db bc [([x], 1)]) c \<and> stored (tc_db c) run = stored db run @ [x]
    \<and> tc_replay c = Some (h @ [x]) \<and> tc_got c = [x] \<and> tc_chan c \<noteq> None
    \<and> tc_seen c = Suc (length (stored db run)) \<and> \<not> tc_unread c \<and> \<not> tc_lost c"
proof -
  let ?c0 = "tail_start db bc [([x], 1)]"
  from batch_up[OF up run] obtain db1 new where ins: "BatchInsertLogLines 0 db run [x] = Inr db1"
    and down: "db_down db1 = db_down db" by meson
  have st: "stored db1 run = stored db run @ [x]" by (rule stored_insert[OF ins])
  have wf1: "db_wf db1" by (rule BatchInsertLogLines_wf[OF wf ins])
  let ?db2 = "keep_on_error db1 (AddLogSize db1 run 1)"
  let ?c1 = "?c0\<lparr>tc_writer := [Insert_Batch [x], Add_Size 1, Publish_Line x], tc_rest := []\<rparr>"
  let ?c2 = "?c1\<lparr>tc_log := [(x, True)], tc_db := db1, tc_writer := [Add_Size 1, Publish_Line x]\<rparr>"
  let ?c3 = "?c2\<lparr>tc_db := ?db2, tc_writer := [Publish_Line x]\<rparr>"
  have s1: "tail_step run ?c0 ?c1"
    using step_flush[of ?c0 "[x]" 1 "[]" run] by (simp add: tail_start_def flush_code_def)
  have s2: "tail_step run ?c1 ?c2"
    using step_write[of ?c1 "Insert_Batch [x]" "[Add_Size 1, Publish_Line x]" 0 run db1 bc]
    by (simp add: tail_start_def ins)
  have s3: "tail_step run ?c2 ?c3"
    using step_write[of ?c2 "Add_Size 1" "[Publish_Line x]" 0 run ?db2 bc] by (simp add: tail_start_def)
  obtain bc2 a where sub: "Subscribe bc run = (bc2, a)" by fastforce
  note sub_eff = Subscribe_effect[OF ok sub]
  let ?c4 = "?c3\<lparr>tc_bc := bc2, tc_chan := Some a, tc_reader := [Read_History, Forward_Live]\<rparr>"
  have s4: "tail_step run ?c3 ?c4"
    using step_subscribe[of ?c3 "[Read_History, Forward_Live]" run bc2 a] by (simp add: tail_start_def follow_code_def sub)
  have st2: "stored ?db2 run = stored db run @ [x]" by (simp add: count_stored st)
  have "db_down ?db2 = db_down db1"
  proof (cases "AddLogSize db1 run 1")
    case (Inr db')
    then have "db_down db' = db_down db1" by (auto simp: AddLogSize_def set_runs_def)
    then show ?thesis by (simp add: Inr)
  qed simp
  then have up2: "db_down ?db2 op = None" for op using down up by (simp add: all_up_def)
  have pos: "0 < sse_log_limit" by (simp add: sse_log_limit_def)
  note tail = GetLogLinesTail_eq[OF count_wf[OF wf1] pos]
  have read: "\<not> is_err (GetLogLinesTail ?db2 run sse_log_limit)"
    by (simp add: tail sql_rows_def exec_sql_up up2)
  have "replay_lines ?db2 run = drop (length (stored ?db2 run) - nat sse_log_limit) (stored ?db2 run)"
    by (simp add: replay_lines_def tail sql_rows_def exec_sql_up up2 stored_def drop_map)
  moreover have "length (stored ?db2 run) - nat sse_log_limit \<le> length (stored db run)"
    by (simp add: st2 sse_log_limit_def)
  ultimately obtain h where h: "replay_lines ?db2 run = h @ [x]" by (simp add: st2)
  let ?c5 = "?c4\<lparr>tc_replay := Some (h @ [x]), tc_seen := length (logs_of ?db2 run),
      tc_unread := is_err (GetLogLinesTail ?db2 run sse_log_limit), tc_reader := [Forward_Live]\<rparr>"
  have s5: "tail_step run ?c4 ?c5"
    using step_replay[of ?c4 "[Forward_Live]" run] by (simp add: tail_start_def h)
  from bc.publish_total[OF sub_eff(1)] obtain bc6 where pub: "Publish bc2 run x = Inr bc6" by blast
  let ?c6 = "?c5\<lparr>tc_sent := 1, tc_lost := full bc2 (Some a), tc_bc := bc6, tc_writer := []\<rparr>"
  have s6: "tail_step run ?c5 ?c6"
    using step_write[of ?c5 "Publish_Line x" "[]" 0 run ?db2 bc6] by (simp add: tail_start_def pub)
  have "inbox_of bc6 a = [x]"
    using bc.publish_inbox[OF sub_eff(1) pub, of a] sub_eff(2,3) by (simp add: chan_buffer_size_def)
  then obtain bc7 where rec: "receive bc6 a = (bc7, Line x)"
    by (auto simp: receive_def inbox_of_def split: if_splits)
  let ?c7 = "?c6\<lparr>tc_bc := bc7, tc_got := [x]\<rparr>"
  have s7: "tail_step run ?c6 ?c7"
    using step_receive[of ?c6 "[]" a bc7 x run] by (simp add: tail_start_def rec)
  have "tail_reach run ?c0 ?c7" by (intro reach_step[OF _ s7] reach_step[OF _ s6] reach_step[OF _ s5]
      reach_step[OF _ s4] reach_step[OF _ s3] reach_step[OF _ s2] reach_step[OF _ s1] reach_refl)
  moreover have "length (logs_of ?db2 run) = Suc (length (stored db run))"
    using arg_cong[OF st2, of length] by (simp add: stored_def)
  moreover have "\<not> full bc2 (Some a)" using sub_eff(3) by (simp add: full_def chan_buffer_size_def)
  ultimately show ?thesis using read by (intro exI[of _ ?c7] exI[of _ h]) (simp add: st2)
qed

text \<open>Witness\<close>

theorem live_tail_no_gap_witness:
  "\<exists>c h. tail_reach ''r2'' (tail_start demo_db new_broadcaster [([''x''], 1)]) c
     \<and> tc_got c = [''x''] \<and> tc_replay c = Some (h @ [''x''])
     \<and> stored (tc_db c) ''r2'' = stored demo_db ''r2'' @ taken (tc_log c)
     \<and> (\<exists>dup. (h @ [''x'']) @ drop dup (taken (drop (tc_mark c) (tc_log c))) = stored (tc_db c) ''r2'')"
proof -
  have "''r2'' \<in> set (jr_ids demo_db)" "all_up demo_db" by (simp_all add: jr_ids_def demo_defs all_up_def)
  from live_tail_repeats_a_line[OF demo_wf this bc_ok_new, of "''x''"] obtain c h a where
    c: "tail_reach ''r2'' (tail_start demo_db new_broadcaster [([''x''], 1)]) c" "tc_chan c = Some a"
      "tc_replay c = Some (h @ [''x''])" "tc_got c = [''x'']" "\<not> tc_unread c"
      "tc_seen c = Suc (length (stored demo_db ''r2''))" by blast
  have "length (stored demo_db ''r2'') = 1" by (simp add: stored_def logs_of_def demo_defs)
  then have "int (tc_seen c) \<le> sse_log_limit" by (simp add: c(6) sse_log_limit_def)
  with c(5) live_tail_no_gap[OF demo_wf bc_ok_new c(1-3)]
  have "stored (tc_db c) ''r2'' = stored demo_db ''r2'' @ taken (tc_log c)"
    "\<exists>dup. (h @ [''x'']) @ drop dup (taken (drop (tc_mark c) (tc_log c))) = stored (tc_db c) ''r2''"
    unfolding Let_def by blast+
  with c show ?thesis by blast
qed

end
