(* ===== verification/Kube_Metrics.thy ===== *)
theory Kube_Metrics
  imports Schedule_Spec Store_Props
begin

text \<open>
  The model of \<open>internal/metrics/metrics.go\<close> and \<open>internal/metrics/collector.go\<close>.

  The Prometheus registry is a record of three maps from a series (metric name and label
  values) to its value: gauges, counters, and the observations of the histograms. A float is
  the rational it stands for. The cron library is the parameter of \<open>Schedule\<close>.
\<close>

type_synonym series = "string \<times> string list"

record prom =
  pr_gauge :: "series \<rightharpoonup> rat"
  pr_counter :: "series \<rightharpoonup> int"
  pr_hist :: "series \<rightharpoonup> rat list"

definition new_prom :: prom where
  "new_prom = \<lparr>pr_gauge = Map.empty, pr_counter = Map.empty, pr_hist = Map.empty\<rparr>"

definition set_gauge :: "string \<Rightarrow> string list \<Rightarrow> rat \<Rightarrow> prom \<Rightarrow> prom" where
  "set_gauge nm ls v p = p\<lparr>pr_gauge := (pr_gauge p)((nm, ls) \<mapsto> v)\<rparr>"

definition inc_counter :: "string \<Rightarrow> string list \<Rightarrow> prom \<Rightarrow> prom" where
  "inc_counter nm ls p = p\<lparr>pr_counter := (pr_counter p)((nm, ls) \<mapsto>
     (case pr_counter p (nm, ls) of None \<Rightarrow> 1 | Some n \<Rightarrow> n + 1))\<rparr>"

definition observe :: "string \<Rightarrow> string list \<Rightarrow> rat \<Rightarrow> prom \<Rightarrow> prom" where
  "observe nm ls v p = p\<lparr>pr_hist := (pr_hist p)((nm, ls) \<mapsto>
     (case pr_hist p (nm, ls) of None \<Rightarrow> [v] | Some vs \<Rightarrow> vs @ [v]))\<rparr>"

definition SetBuildInfo :: "string \<Rightarrow> prom \<Rightarrow> prom" where
  "SetBuildInfo v p = set_gauge ''build_info'' [v] 1 p"

text \<open>\<open>DeletePartialMatch\<close> on the labels cluster, namespace and cronjob, which are the first
  three of every metric concerned.\<close>

definition cronjob_metrics :: "string set" where
  "cronjob_metrics = {''job_runs_total'', ''job_duration_seconds'', ''last_run_timestamp'',
     ''last_run_status'', ''next_run_timestamp'', ''cronjob_suspended'', ''last_run_duration_seconds'',
     ''runs_active'', ''cronjob_missed'', ''last_run_cpu_millicores'', ''last_run_memory_bytes''}"

definition matches_cronjob :: "string \<Rightarrow> string \<Rightarrow> string \<Rightarrow> series \<Rightarrow> bool" where
  "matches_cronjob cl ns nm s \<longleftrightarrow> fst s \<in> cronjob_metrics \<and> take 3 (snd s) = [cl, ns, nm]"

definition drop_series :: "(series \<Rightarrow> bool) \<Rightarrow> (series \<rightharpoonup> 'v) \<Rightarrow> (series \<rightharpoonup> 'v)" where
  "drop_series P m = (\<lambda>s. if P s then None else m s)"

definition DeleteCronJobSeries :: "string \<Rightarrow> string \<Rightarrow> string \<Rightarrow> prom \<Rightarrow> prom" where
  "DeleteCronJobSeries cl ns nm p =
     (let P = matches_cronjob cl ns nm in
      p\<lparr>pr_gauge := drop_series P (pr_gauge p), pr_counter := drop_series P (pr_counter p),
        pr_hist := drop_series P (pr_hist p)\<rparr>)"

definition boolGauge :: "bool \<Rightarrow> rat" where "boolGauge b = (if b then 1 else 0)"

definition RecordCompletion ::
  "string \<Rightarrow> string \<Rightarrow> string \<Rightarrow> string \<Rightarrow> gotime \<Rightarrow> gotime \<Rightarrow> prom \<Rightarrow> prom" where
  "RecordCompletion cl i status trigger started finished p =
     (case split_n 3 CHR ''/'' i of
        [_, ns, nm] \<Rightarrow>
          (let ls = [cl, ns, nm]; s = seconds_of (time_sub finished started);
               p1 = inc_counter ''job_runs_total'' (ls @ [status, trigger]) p;
               p2 = observe ''job_duration_seconds'' ls s p1;
               p3 = set_gauge ''last_run_timestamp'' ls (of_int (unix_sec started)) p2;
               p4 = set_gauge ''last_run_duration_seconds'' ls s p3
           in set_gauge ''last_run_status'' ls (boolGauge (status = ''failed'')) p4)
      | _ \<Rightarrow> p)"

section \<open>The state collector\<close>

definition to_last_run :: "job_run \<Rightarrow> last_run" where
  "to_last_run r = \<lparr>lr_started = jr_started r, lr_running = (jr_status r = ''running'')\<rparr>"

definition opt_gauge :: "string \<Rightarrow> string list \<Rightarrow> rat option \<Rightarrow> prom \<Rightarrow> prom" where
  "opt_gauge nm ls v p = (case v of None \<Rightarrow> p | Some x \<Rightarrow> set_gauge nm ls x p)"

definition collectCronJob ::
  "('s, 'l) cron_lib \<Rightarrow> cronjob \<Rightarrow> cj_summary option \<Rightarrow> int \<Rightarrow> gotime \<Rightarrow> prom \<Rightarrow> prom" where
  "collectCronJob lib c summ active now p =
     (let ls = [cj_cluster c, cj_ns c, cj_name c];
          p1 = set_gauge ''cronjob_suspended'' ls (boolGauge (cj_suspended c)) p;
          p2 = set_gauge ''runs_active'' ls (of_int active) p1;
          p3 = (case NextRun lib (cj_schedule c) (TZ c) now of
                  Inl _ \<Rightarrow> p2
                | Inr next \<Rightarrow> set_gauge ''next_run_timestamp'' ls (of_int (unix_sec next)) p2);
          last' = map_option sm_last summ;
          p4 = set_gauge ''cronjob_missed'' ls
                 (boolGauge (IsMissed lib (cj_schedule c) (TZ c) (cj_suspended c) (map_option to_last_run last') now)) p3
      in case last' of
           None \<Rightarrow> p4
         | Some r \<Rightarrow>
             (let p5 = set_gauge ''last_run_timestamp'' ls (of_int (unix_sec (jr_started r))) p4 in
              if jr_status r = ''running'' then p5
              else
                (let p6 = set_gauge ''last_run_status'' ls (boolGauge (jr_status r = ''failed'')) p5;
                     p7 = opt_gauge ''last_run_duration_seconds'' ls (map_option (\<lambda>d. of_int d / 1000) (jr_duration r)) p6;
                     p8 = opt_gauge ''last_run_cpu_millicores'' ls (map_option of_int (jr_max_cpu r)) p7
                 in opt_gauge ''last_run_memory_bytes'' ls (map_option of_int (jr_max_mem r)) p8)))"

fun collect_cronjobs ::
  "('s, 'l) cron_lib \<Rightarrow> (string \<Rightarrow> cj_summary option) \<Rightarrow> (string \<Rightarrow> int option) \<Rightarrow> gotime
   \<Rightarrow> cronjob list \<Rightarrow> prom \<Rightarrow> prom" where
  "collect_cronjobs lib smap running now [] p = p"
| "collect_cronjobs lib smap running now (c # cs) p =
     collect_cronjobs lib smap running now cs
       (collectCronJob lib c (smap (cj_id c)) (case running (cj_id c) of None \<Rightarrow> 0 | Some n \<Rightarrow> n) now p)"

text \<open>\<open>collectCluster\<close>: an error leaves the registry as it is.\<close>

definition collectCluster ::
  "('s, 'l) cron_lib \<Rightarrow> (gotime \<Rightarrow> string) \<Rightarrow> (int \<Rightarrow> string) \<Rightarrow> db \<Rightarrow> cluster \<Rightarrow> (string \<Rightarrow> int option)
   \<Rightarrow> gotime \<Rightarrow> prom \<Rightarrow> prom result" where
  "collectCluster lib tx dn db cl running now p =
     (case ListCronJobs db (cl_id cl) of
        Inl e \<Rightarrow> Inl e
      | Inr cjs \<Rightarrow>
          (case GetCronJobSummaries tx dn db (cl_id cl) 1 of
             Inl e \<Rightarrow> Inl e
           | Inr smap \<Rightarrow>
               (let p1 = set_gauge ''cluster_cronjobs'' [cl_id cl] (of_nat (length cjs)) p;
                    p2 = set_gauge ''cluster_metrics_api_available'' [cl_id cl] (boolGauge (cl_metrics cl)) p1
                in Inr (collect_cronjobs lib smap running now cjs p2))))"

fun collect_clusters ::
  "('s, 'l) cron_lib \<Rightarrow> (gotime \<Rightarrow> string) \<Rightarrow> (int \<Rightarrow> string) \<Rightarrow> db \<Rightarrow> (string \<Rightarrow> int option)
   \<Rightarrow> gotime \<Rightarrow> cluster list \<Rightarrow> prom \<Rightarrow> prom" where
  "collect_clusters lib tx dn db running now [] p = p"
| "collect_clusters lib tx dn db running now (c # cs) p =
     collect_clusters lib tx dn db running now cs (keep_on_error p (collectCluster lib tx dn db c running now p))"

definition collect ::
  "('s, 'l) cron_lib \<Rightarrow> (gotime \<Rightarrow> string) \<Rightarrow> (int \<Rightarrow> string) \<Rightarrow> db \<Rightarrow> gotime \<Rightarrow> prom \<Rightarrow> prom" where
  "collect lib tx dn db now p =
     (case ListClusters db of
        Inl _ \<Rightarrow> p
      | Inr cls \<Rightarrow>
          (let running = (case CountRunningRuns db of Inl _ \<Rightarrow> Map.empty | Inr m \<Rightarrow> m) in
           collect_clusters lib tx dn db running now cls p))"

text \<open>\<open>Run\<close>: one pass at once, then one per tick; every pass reads the store as it then is.\<close>

definition default_collect_interval :: duration where "default_collect_interval = 30 * second"

definition collect_interval :: "duration \<Rightarrow> duration" where
  "collect_interval i = (if i \<le> 0 then default_collect_interval else i)"

fun collector_run ::
  "('s, 'l) cron_lib \<Rightarrow> (gotime \<Rightarrow> string) \<Rightarrow> (int \<Rightarrow> string) \<Rightarrow> (gotime \<times> db) list \<Rightarrow> prom \<Rightarrow> prom" where
  "collector_run lib tx dn [] p = p"
| "collector_run lib tx dn ((now, db) # ticks) p = collector_run lib tx dn ticks (collect lib tx dn db now p)"

section \<open>Lemmas\<close>

lemma gauge_simps [simp]:
  "pr_gauge (set_gauge nm ls v p) = (pr_gauge p)((nm, ls) \<mapsto> v)"
  "pr_gauge (inc_counter nm ls p) = pr_gauge p" "pr_gauge (observe nm ls v p) = pr_gauge p"
  "pr_counter (set_gauge nm ls v p) = pr_counter p" "pr_hist (set_gauge nm ls v p) = pr_hist p"
  by (simp_all add: set_gauge_def inc_counter_def observe_def)

lemma opt_gauge_gauge [simp]:
  "pr_gauge (opt_gauge nm ls v p) = (case v of None \<Rightarrow> pr_gauge p | Some x \<Rightarrow> (pr_gauge p)((nm, ls) \<mapsto> x))"
  by (simp add: opt_gauge_def split: option.split)

text \<open>Collecting a CronJob writes only series with its own labels.\<close>

lemma collectCronJob_other:
  "ls \<noteq> [cj_cluster c, cj_ns c, cj_name c] \<Longrightarrow>
   pr_gauge (collectCronJob lib c summ active now p) (nm, ls) = pr_gauge p (nm, ls)"
  by (simp add: collectCronJob_def Let_def split: option.split sum.split)

lemma collect_cronjobs_other:
  "\<forall>c \<in> set cs. ls \<noteq> [cj_cluster c, cj_ns c, cj_name c] \<Longrightarrow>
   pr_gauge (collect_cronjobs lib smap running now cs p) (nm, ls) = pr_gauge p (nm, ls)"
  by (induction cs arbitrary: p) (simp_all add: collectCronJob_other)

lemma collect_cronjobs_at:
  assumes "distinct (map cj_key cs)" and "c \<in> set cs"
  shows "\<exists>q. \<forall>nm. pr_gauge (collect_cronjobs lib smap running now cs p) (nm, [cj_cluster c, cj_ns c, cj_name c])
    = pr_gauge (collectCronJob lib c (smap (cj_id c)) (case running (cj_id c) of None \<Rightarrow> 0 | Some n \<Rightarrow> n) now q)
        (nm, [cj_cluster c, cj_ns c, cj_name c])
    \<and> pr_gauge q (nm, [cj_cluster c, cj_ns c, cj_name c]) = pr_gauge p (nm, [cj_cluster c, cj_ns c, cj_name c])"
  using assms
proof (induction cs arbitrary: p)
  case (Cons x xs)
  show ?case
  proof (cases "c = x")
    case True
    have "\<forall>y \<in> set xs. [cj_cluster c, cj_ns c, cj_name c] \<noteq> [cj_cluster y, cj_ns y, cj_name y]"
      using Cons.prems(1) True by (auto simp: cj_key_def image_iff)
    note other = collect_cronjobs_other[OF this]
    show ?thesis by (intro exI[of _ p] allI) (simp add: True[symmetric] other)
  next
    case False
    with Cons.prems have "c \<in> set xs" "cj_key x \<notin> cj_key ` set xs" by auto
    then have "cj_key c \<noteq> cj_key x" by (metis image_eqI)
    then have "[cj_cluster c, cj_ns c, cj_name c] \<noteq> [cj_cluster x, cj_ns x, cj_name x]"
      by (auto simp: cj_key_def)
    note skip = collectCronJob_other[OF this]
    show ?thesis
      using Cons.IH[of "collectCronJob lib x (smap (cj_id x)) (case running (cj_id x) of None \<Rightarrow> 0 | Some n \<Rightarrow> n) now p"]
        Cons.prems \<open>c \<in> set xs\<close> by (simp add: skip)
  qed
qed simp

text \<open>What the queries of a pass return when they succeed.\<close>

definition last_run_of :: "(gotime \<Rightarrow> string) \<Rightarrow> db \<Rightarrow> string \<Rightarrow> job_run option" where
  "last_run_of tx db i =
     (case newest_first tx (runs_of db i) of [] \<Rightarrow> None | r # _ \<Rightarrow> Some (scanJobRun r))"

lemma summaries_last:
  assumes "db_down db = (\<lambda>_. None)"
  shows "\<exists>m. summaries tx dn db n is out = Inr m
    \<and> (\<forall>i. map_option sm_last (m i) = (if i \<in> set is \<and> last_run_of tx db i \<noteq> None
          then last_run_of tx db i else map_option sm_last (out i)))"
proof (induction "is" arbitrary: out)
  case Nil
  then show ?case by simp
next
  case (Cons i "is")
  have last': "GetLastJobRun tx db i = Inr (last_run_of tx db i)"
    using assms by (simp add: GetLastJobRun_def last_run_of_def sql_rows_def exec_sql_up)
  show ?case
  proof (cases "last_run_of tx db i")
    case None
    with Cons.IH[of out] last' show ?thesis by auto
  next
    case (Some r)
    obtain st where st: "GetRunStats7d tx dn db i = Inr st"
      using assms by (simp add: GetRunStats7d_def sql_rows_def exec_sql_up)
    obtain ds where ds: "GetRecentDurations tx db i n = Inr ds"
      using assms by (simp add: GetRecentDurations_def sql_rows_def exec_sql_up)
    let ?out = "out(i \<mapsto> \<lparr>sm_last = r, sm_stats = st, sm_durations = ds\<rparr>)"
    from Cons.IH[of ?out] obtain m where m: "summaries tx dn db n is ?out = Inr m"
      "\<forall>j. map_option sm_last (m j) = (if j \<in> set is \<and> last_run_of tx db j \<noteq> None
          then last_run_of tx db j else map_option sm_last (?out j))" by blast
    have "summaries tx dn db n (i # is) out = Inr m" using last' Some st ds m(1) by simp
    moreover have "map_option sm_last (m j) = (if j \<in> set (i # is) \<and> last_run_of tx db j \<noteq> None
          then last_run_of tx db j else map_option sm_last (out j))" for j
      using m(2)[rule_format, of j] Some by (cases "j = i") auto
    ultimately show ?thesis by blast
  qed
qed

lemma GetCronJobSummaries_last:
  assumes "db_down db = (\<lambda>_. None)" and "c \<in> set (live_cronjobs db cl)"
  shows "\<exists>m. GetCronJobSummaries tx dn db cl n = Inr m
    \<and> map_option sm_last (m (cj_id c)) = last_run_of tx db (cj_id c)"
proof -
  from summaries_last[OF assms(1), of tx dn n "map cj_id (live_cronjobs db cl)" Map.empty] obtain m where
    m: "summaries tx dn db n (map cj_id (live_cronjobs db cl)) Map.empty = Inr m"
    "\<forall>i. map_option sm_last (m i) = (if i \<in> set (map cj_id (live_cronjobs db cl)) \<and> last_run_of tx db i \<noteq> None
          then last_run_of tx db i else None)" by auto
  have "cj_id c \<in> set (map cj_id (live_cronjobs db cl))" using assms(2) by simp
  with m(2) have "map_option sm_last (m (cj_id c)) = last_run_of tx db (cj_id c)" by simp
  with m(1) assms(1) show ?thesis by (simp add: GetCronJobSummaries_def liveCronJobIDs_def sql_rows_def exec_sql_up)
qed

lemma map_of_pairs: "i \<in> set xs \<Longrightarrow> map_of (map (\<lambda>i. (i, f i)) xs) i = Some (f i)"
  by (induction xs) auto

definition running_count :: "db \<Rightarrow> string \<Rightarrow> int" where
  "running_count db i = int (length (filter (\<lambda>r. jr_cronjob r = i \<and> jr_status r = ''running'') (db_runs db)))"

lemma CountRunningRuns_count:
  assumes "CountRunningRuns db = Inr m"
  shows "(case m i of None \<Rightarrow> 0 | Some n \<Rightarrow> n) = running_count db i"
proof -
  let ?rs = "filter (\<lambda>r. jr_status r = ''running'') (db_runs db)"
  have m: "m = map_of (map (\<lambda>i. (i, int (length (filter (\<lambda>r. jr_cronjob r = i) ?rs)))) (remdups (map jr_cronjob ?rs)))"
    using assms by (simp add: CountRunningRuns_def Let_def)
  have eq: "filter (\<lambda>r. jr_cronjob r = i) ?rs = filter (\<lambda>r. jr_cronjob r = i \<and> jr_status r = ''running'') (db_runs db)"
    by (simp add: conj_commute)
  show ?thesis
  proof (cases "i \<in> set (remdups (map jr_cronjob ?rs))")
    case True
    then have "m i = Some (int (length (filter (\<lambda>r. jr_cronjob r = i) ?rs)))"
      unfolding m by (rule map_of_pairs)
    then show ?thesis unfolding eq running_count_def by simp
  next
    case False
    then have "m i = None" unfolding m by (simp add: map_of_eq_None_iff image_iff)
    moreover have "filter (\<lambda>r. jr_cronjob r = i \<and> jr_status r = ''running'') (db_runs db) = []"
      using False by (auto simp: filter_empty_conv)
    ultimately show ?thesis by (simp add: running_count_def)
  qed
qed

lemma live_cronjobs_set:
  "set (live_cronjobs db cl) = {c \<in> set (db_cronjobs db). cj_cluster c = cl \<and> cj_deleted c = None}"
  by (auto simp: live_cronjobs_def)

lemma live_cronjobs_distinct: "db_wf db \<Longrightarrow> distinct (map cj_key (live_cronjobs db cl))"
proof -
  assume wf: "db_wf db"
  have "distinct (map cj_key (filter (\<lambda>c. cj_cluster c = cl \<and> cj_deleted c = None) (db_cronjobs db)))"
    by (rule distinct_map_filter_key[OF db_wfD(3)[OF wf]])
  then show ?thesis by (simp add: live_cronjobs_def distinct_map)
qed

lemma collectCluster_other:
  assumes "length ls = 3" and "ls ! 0 \<noteq> cl_id cl"
  shows "pr_gauge (keep_on_error p (collectCluster lib tx dn db cl running now p)) (nm, ls) = pr_gauge p (nm, ls)"
proof -
  have "\<forall>c \<in> set (live_cronjobs db (cl_id cl)). ls \<noteq> [cj_cluster c, cj_ns c, cj_name c]"
    using assms(2) by (auto simp: live_cronjobs_set)
  moreover have "ls \<noteq> [cl_id cl]" using assms(1) by auto
  ultimately show ?thesis
    by (auto simp: collectCluster_def ListCronJobs_def Let_def sql_rows_def exec_sql_def collect_cronjobs_other
        split: sum.splits option.splits)
qed

lemma collect_clusters_other:
  "length ls = 3 \<Longrightarrow> \<forall>c \<in> set cs. ls ! 0 \<noteq> cl_id c \<Longrightarrow>
   pr_gauge (collect_clusters lib tx dn db running now cs p) (nm, ls) = pr_gauge p (nm, ls)"
  by (induction cs arbitrary: p) (simp_all add: collectCluster_other)

lemma collect_clusters_at:
  assumes "distinct (map cl_id cs)" and "cl \<in> set cs" and "length ls = 3" and "ls ! 0 = cl_id cl"
  shows "\<exists>q. \<forall>nm. pr_gauge (collect_clusters lib tx dn db running now cs p) (nm, ls)
    = pr_gauge (keep_on_error q (collectCluster lib tx dn db cl running now q)) (nm, ls)
    \<and> pr_gauge q (nm, ls) = pr_gauge p (nm, ls)"
  using assms(1,2)
proof (induction cs arbitrary: p)
  case (Cons x xs)
  show ?case
  proof (cases "cl = x")
    case True
    have "\<forall>c \<in> set xs. ls ! 0 \<noteq> cl_id c" using Cons.prems(1) True assms(4) by (auto simp: image_iff)
    note other = collect_clusters_other[OF assms(3) this]
    show ?thesis unfolding collect_cronjobs.simps collect_clusters.simps other True by blast
  next
    case False
    with Cons.prems have in_xs: "cl \<in> set xs" "distinct (map cl_id xs)" and "cl_id x \<notin> cl_id ` set xs" by auto
    then have "cl_id cl \<noteq> cl_id x" by (metis image_eqI)
    then have skip: "pr_gauge (keep_on_error p (collectCluster lib tx dn db x running now p)) (nm, ls) = pr_gauge p (nm, ls)"
      for nm using collectCluster_other[OF assms(3)] assms(4) by simp
    show ?thesis
      using Cons.IH[OF in_xs(2,1), of "keep_on_error p (collectCluster lib tx dn db x running now p)"]
      by (simp add: skip)
  qed
qed simp

text \<open>One pass shows every live CronJob through its own row of the store.\<close>

lemma collected_row:
  assumes wf: "db_wf db" and up: "db_down db = (\<lambda>_. None)"
    and cl: "cl \<in> set (db_clusters db)" "cl_deleted cl = None"
    and c: "c \<in> set (db_cronjobs db)" "cj_cluster c = cl_id cl" "cj_deleted c = None"
  shows "\<exists>sm q. map_option sm_last sm = last_run_of tx db (cj_id c)
    \<and> (\<forall>nm. pr_gauge (collect lib tx dn db now p) (nm, [cj_cluster c, cj_ns c, cj_name c])
          = pr_gauge (collectCronJob lib c sm (running_count db (cj_id c)) now q) (nm, [cj_cluster c, cj_ns c, cj_name c])
        \<and> pr_gauge q (nm, [cj_cluster c, cj_ns c, cj_name c]) = pr_gauge p (nm, [cj_cluster c, cj_ns c, cj_name c]))"
proof -
  let ?ls = "[cj_cluster c, cj_ns c, cj_name c]"
  let ?cls = "sort_key cl_name (filter (\<lambda>c. cl_deleted c = None) (db_clusters db))"
  obtain m where cnt: "CountRunningRuns db = Inr m"
    using up by (simp add: CountRunningRuns_def Let_def sql_rows_def exec_sql_up)
  have col: "collect lib tx dn db now p = collect_clusters lib tx dn db m now ?cls p"
    using up cnt by (simp add: collect_def ListClusters_def sql_rows_def exec_sql_up)
  have d: "distinct (map cl_id ?cls)"
    using db_wfD(1)[OF wf] by (simp add: cl_ids_def distinct_map inj_on_def)
  have "cl \<in> set ?cls" using cl by simp
  from collect_clusters_at[OF d this, of ?ls lib tx dn db m now p] c(2) obtain q where
    q: "\<forall>nm. pr_gauge (collect lib tx dn db now p) (nm, ?ls)
      = pr_gauge (keep_on_error q (collectCluster lib tx dn db cl m now q)) (nm, ?ls)
      \<and> pr_gauge q (nm, ?ls) = pr_gauge p (nm, ?ls)"
    unfolding col by auto
  have live: "c \<in> set (live_cronjobs db (cl_id cl))" using c by (simp add: live_cronjobs_set)
  from GetCronJobSummaries_last[OF up live] obtain sm where sm: "GetCronJobSummaries tx dn db (cl_id cl) 1 = Inr sm"
    "map_option sm_last (sm (cj_id c)) = last_run_of tx db (cj_id c)" by blast
  let ?p2 = "set_gauge ''cluster_metrics_api_available'' [cl_id cl] (boolGauge (cl_metrics cl))
      (set_gauge ''cluster_cronjobs'' [cl_id cl] (of_nat (length (live_cronjobs db (cl_id cl)))) q)"
  have cc: "collectCluster lib tx dn db cl m now q
      = Inr (collect_cronjobs lib sm m now (live_cronjobs db (cl_id cl)) ?p2)"
    using up sm(1) by (simp add: collectCluster_def ListCronJobs_def Let_def sql_rows_def exec_sql_up)
  from collect_cronjobs_at[OF live_cronjobs_distinct[OF wf] live, of lib sm m now ?p2] obtain q2 where
    q2: "\<forall>nm. pr_gauge (collect_cronjobs lib sm m now (live_cronjobs db (cl_id cl)) ?p2) (nm, ?ls)
      = pr_gauge (collectCronJob lib c (sm (cj_id c)) (running_count db (cj_id c)) now q2) (nm, ?ls)
      \<and> pr_gauge q2 (nm, ?ls) = pr_gauge ?p2 (nm, ?ls)"
    unfolding CountRunningRuns_count[OF cnt] by blast
  show ?thesis by (intro exI[of _ "sm (cj_id c)"] exI[of _ q2]) (use q q2 cc sm(2) in simp)
qed

section \<open>Properties\<close>

text \<open>The gauges that only a run that has ended rewrites.\<close>

definition outcome_metrics :: "string set" where
  "outcome_metrics = {''last_run_status'', ''last_run_duration_seconds'', ''last_run_cpu_millicores'',
     ''last_run_memory_bytes''}"

text \<open>C22. The nine gauges of a CronJob after one pass over a working store, as a function of the
  stored state: \<open>old\<close> is what the registry held before. Suspension, runs in flight and the missed
  verdict are always rewritten; the next run is when the schedule and its zone resolve, and keeps its
  old value otherwise; the start of the last run is when there is one; its outcome, its duration in
  seconds and its peaks of CPU and memory are when that run has ended and the value is stored, and
  keep the old values otherwise. So after a restart, when the registry is empty, every gauge is what
  the database says, and absent where it says nothing.\<close>

theorem collected_gauges:
  assumes wf: "db_wf db" and up: "db_down db = (\<lambda>_. None)"
    and cl: "cl \<in> set (db_clusters db)" "cl_deleted cl = None"
    and c: "c \<in> set (db_cronjobs db)" "cj_cluster c = cl_id cl" "cj_deleted c = None"
  shows "let ls = [cj_cluster c, cj_ns c, cj_name c];
             g = (\<lambda>nm. pr_gauge (collect lib tx dn db now p) (nm, ls));
             old = (\<lambda>nm. pr_gauge p (nm, ls));
             last = last_run_of tx db (cj_id c) in
     g ''cronjob_suspended'' = Some (boolGauge (cj_suspended c))
     \<and> g ''runs_active'' = Some (of_int (running_count db (cj_id c)))
     \<and> g ''cronjob_missed'' = Some (boolGauge (IsMissed lib (cj_schedule c) (TZ c) (cj_suspended c)
          (map_option to_last_run last) now))
     \<and> g ''next_run_timestamp'' = (case NextRun lib (cj_schedule c) (TZ c) now of
          Inl _ \<Rightarrow> old ''next_run_timestamp'' | Inr next \<Rightarrow> Some (of_int (unix_sec next)))
     \<and> g ''last_run_timestamp'' = (case last of
          None \<Rightarrow> old ''last_run_timestamp'' | Some r \<Rightarrow> Some (of_int (unix_sec (jr_started r))))
     \<and> (case last of
          None \<Rightarrow> \<forall>nm \<in> outcome_metrics. g nm = old nm
        | Some r \<Rightarrow>
            if jr_status r = ''running'' then \<forall>nm \<in> outcome_metrics. g nm = old nm
            else g ''last_run_status'' = Some (boolGauge (jr_status r = ''failed''))
              \<and> g ''last_run_duration_seconds'' = (case jr_duration r of
                   None \<Rightarrow> old ''last_run_duration_seconds'' | Some ms \<Rightarrow> Some (of_int ms / 1000))
              \<and> g ''last_run_cpu_millicores'' = (case jr_max_cpu r of
                   None \<Rightarrow> old ''last_run_cpu_millicores'' | Some v \<Rightarrow> Some (of_int v))
              \<and> g ''last_run_memory_bytes'' = (case jr_max_mem r of
                   None \<Rightarrow> old ''last_run_memory_bytes'' | Some v \<Rightarrow> Some (of_int v)))"
proof -
  let ?ls = "[cj_cluster c, cj_ns c, cj_name c]"
  obtain sm q where sm: "map_option sm_last sm = last_run_of tx db (cj_id c)"
    and g: "pr_gauge (collect lib tx dn db now p) (nm, ?ls)
      = pr_gauge (collectCronJob lib c sm (running_count db (cj_id c)) now q) (nm, ?ls)"
    and q: "pr_gauge q (nm, ?ls) = pr_gauge p (nm, ?ls)" for nm
    using collected_row[OF wf up cl c, of tx lib dn now p] by blast
  show ?thesis unfolding Let_def g
    by (cases "last_run_of tx db (cj_id c)"; cases "NextRun lib (cj_schedule c) (TZ c) now")
      (simp_all add: sm collectCronJob_def Let_def q outcome_metrics_def split: option.split)
qed

text \<open>The series of a deleted CronJob can come back: deleting drops all of them, but the
  completion of a run that was still in flight writes them again, and no pass of the collector
  will touch them, since the CronJob is no longer listed.\<close>

lemma deleted_series_come_back:
  assumes "CHR ''/'' \<notin> set cl" and "CHR ''/'' \<notin> set ns"
    and "\<forall>c \<in> set (db_cronjobs db). cj_key c = (cl, ns, nm) \<longrightarrow> cj_deleted c \<noteq> None"
  shows "let p0 = DeleteCronJobSeries cl ns nm p;
             p1 = RecordCompletion cl (cl @ ''/'' @ ns @ ''/'' @ nm) ''failed'' trigger started finished p0 in
     pr_gauge p0 (''last_run_status'', [cl, ns, nm]) = None
     \<and> pr_gauge p1 (''last_run_status'', [cl, ns, nm]) = Some 1
     \<and> pr_gauge (collect lib tx dn db now p1) (''last_run_status'', [cl, ns, nm]) = Some 1"
proof -
  have split: "split_n 3 CHR ''/'' (cl @ ''/'' @ ns @ ''/'' @ nm) = [cl, ns, nm]"
    using split_at_hit[OF assms(1), of "ns @ ''/'' @ nm"] split_at_hit[OF assms(2), of nm]
    by (simp add: numeral_3_eq_3)
  let ?p0 = "DeleteCronJobSeries cl ns nm p"
  let ?p1 = "RecordCompletion cl (cl @ ''/'' @ ns @ ''/'' @ nm) ''failed'' trigger started finished ?p0"
  have one: "pr_gauge ?p1 (''last_run_status'', [cl, ns, nm]) = Some 1"
    by (simp add: RecordCompletion_def split[simplified] Let_def boolGauge_def)
  have cluster: "pr_gauge (keep_on_error q (collectCluster lib tx dn db x m now q)) (''last_run_status'', [cl, ns, nm])
      = pr_gauge q (''last_run_status'', [cl, ns, nm])" for q x m
  proof -
    have "\<forall>c \<in> set (live_cronjobs db (cl_id x)). [cl, ns, nm] \<noteq> [cj_cluster c, cj_ns c, cj_name c]"
      using assms(3) by (auto simp: live_cronjobs_set cj_key_def)
    then show ?thesis
      by (auto simp: collectCluster_def ListCronJobs_def Let_def sql_rows_def exec_sql_def collect_cronjobs_other
          split: sum.splits option.splits)
  qed
  have "pr_gauge (collect_clusters lib tx dn db m now cs q) (''last_run_status'', [cl, ns, nm])
      = pr_gauge q (''last_run_status'', [cl, ns, nm])" for m cs q
    by (induction cs arbitrary: q) (simp_all add: cluster)
  then have "pr_gauge (collect lib tx dn db now ?p1) (''last_run_status'', [cl, ns, nm]) = Some 1"
    using one by (simp add: collect_def Let_def split: sum.split)
  moreover have "pr_gauge ?p0 (''last_run_status'', [cl, ns, nm]) = None"
    by (simp add: DeleteCronJobSeries_def Let_def drop_series_def matches_cronjob_def cronjob_metrics_def)
  ultimately show ?thesis using one by simp
qed

text \<open>A schedule that never fires (\<open>0 0 30 2 *\<close>) parses, and \<open>Next\<close> answers the zero time:
  the gauge then publishes the first second of the year 1 instead of being left out.\<close>

lemma never_due_publishes_year_one:
  assumes "Parse lib (cj_schedule c) (TZ c) = Inr s" and "sched_next lib s now = zero_time"
  shows "pr_gauge (collectCronJob lib c None active now p) (''next_run_timestamp'', [cj_cluster c, cj_ns c, cj_name c])
    = Some (- 62135596800)"
  using assms by (simp add: collectCronJob_def Let_def NextRun_def NextRuns_def unix_sec_def zero_time_def)

text \<open>Witnesses\<close>

definition demo_live :: cronjob where "demo_live = demo_cronjob ''live'' None"

theorem collected_gauges_witness:
  "pr_gauge (collect (fixed_lib (every_tick minute)) unary_text demo_now demo_db 10 new_prom)
     (''runs_active'', [''c'', ''ns'', ''live'']) = Some 1"
proof -
  let ?cl = "\<lparr>cl_id = ''c'', cl_name = ''c'', cl_metrics = False, cl_created = 1, cl_deleted = None\<rparr>"
  have cl: "?cl \<in> set (db_clusters demo_db)" "cl_deleted ?cl = None" by (simp_all add: demo_defs)
  have c: "demo_live \<in> set (db_cronjobs demo_db)" "cj_cluster demo_live = cl_id ?cl" "cj_deleted demo_live = None"
    by (simp_all add: demo_live_def demo_defs)
  have n: "running_count demo_db (cj_id demo_live) = 1"
    by (simp add: running_count_def demo_live_def demo_defs)
  have "pr_gauge (collect (fixed_lib (every_tick minute)) unary_text demo_now demo_db 10 new_prom)
     (''runs_active'', [cj_cluster demo_live, cj_ns demo_live, cj_name demo_live]) = Some (of_int 1)"
    using collected_gauges[OF demo_wf demo_up cl c, of "fixed_lib (every_tick minute)" unary_text demo_now 10 new_prom]
    unfolding Let_def n by blast
  then show ?thesis by (simp add: demo_live_def demo_cronjob_def)
qed


end
