(* ===== verification/Keyed_Table.thy ===== *)
theory Keyed_Table
  imports Kube_Prelude
begin

text \<open>
  The two mutex-protected maps of the program: \<open>internal/watcher/run_index.go\<close> (job name to
  run id) and \<open>internal/cluster/registry.go\<close> (cluster id to client). Every method holds the
  lock for its whole body, so it is one atomic step. \<open>keyed_table\<close> is the contract both
  offer their clients.
\<close>

locale keyed_table =
  fixes put :: "'t \<Rightarrow> 'v \<Rightarrow> 't"
    and key :: "'v \<Rightarrow> 'k"
    and get :: "'t \<Rightarrow> 'k \<Rightarrow> 'v option"
  assumes get_put_same: "get (put t v) (key v) = Some v"
    and get_put_other: "k \<noteq> key v \<Longrightarrow> get (put t v) k = get t k"

locale shrinking_table = keyed_table put key get
  for put :: "'t \<Rightarrow> 'v \<Rightarrow> 't" and key :: "'v \<Rightarrow> 'k" and get :: "'t \<Rightarrow> 'k \<Rightarrow> 'v option" +
  fixes remove :: "'t \<Rightarrow> 'k \<Rightarrow> 't"
  assumes get_remove_same: "get (remove t k) k = None"
    and get_remove_other: "k \<noteq> k' \<Longrightarrow> get (remove t k) k' = get t k'"

context keyed_table begin

text \<open>After a series of writes a key holds the last value written for it.\<close>

lemma get_puts:
  "get (foldl put t vs) k = (case find (\<lambda>v. key v = k) (rev vs) of None \<Rightarrow> get t k | Some v \<Rightarrow> Some v)"
proof (induction vs arbitrary: t)
  case Nil
  then show ?case by simp
next
  case (Cons v vs)
  show ?case
    by (cases "key v = k") (auto simp: Cons.IH find_append get_put_same get_put_other split: option.split)
qed

end

section \<open>The run index\<close>

type_synonym run_index = "string \<rightharpoonup> string"

definition NewRunIndex :: run_index where "NewRunIndex = Map.empty"

definition Index_Set :: "run_index \<Rightarrow> string \<Rightarrow> string \<Rightarrow> run_index" where
  "Index_Set m job run = m(job \<mapsto> run)"

text \<open>\<open>Get\<close> returns the empty string for a missing key.\<close>

definition Index_Get :: "run_index \<Rightarrow> string \<Rightarrow> string" where
  "Index_Get m job = (case m job of None \<Rightarrow> [] | Some r \<Rightarrow> r)"

definition Index_Delete :: "run_index \<Rightarrow> string \<Rightarrow> run_index" where
  "Index_Delete m job = m(job := None)"

interpretation ix: shrinking_table "\<lambda>m (job, run). Index_Set m job run" fst
  "\<lambda>m job. map_option (Pair job) (m job)" Index_Delete
  by unfold_locales (auto simp: Index_Set_def Index_Delete_def)

lemma Index_Get_simps [simp]:
  "Index_Get (Index_Set m j r) j = r" "j \<noteq> k \<Longrightarrow> Index_Get (Index_Set m j r) k = Index_Get m k"
  "Index_Get (Index_Delete m j) j = []" "j \<noteq> k \<Longrightarrow> Index_Get (Index_Delete m j) k = Index_Get m k"
  using ix.get_put_same[where t = m and v = "(j, r)"] ix.get_put_other[where k = k and t = m and v = "(j, r)"]
    ix.get_remove_same[where t = m and k = j] ix.get_remove_other[where t = m and k = j and k' = k]
  by (auto simp: Index_Get_def split: option.splits)

section \<open>The cluster registry\<close>

text \<open>
  The fields of a \<open>ClusterClient\<close> that the program's own logic reads; \<open>cc_metrics_on\<close> is
  the atomic flag of the metrics probe. \<open>cc_metrics_client\<close> is an interface: nil itself, an
  interface holding a nil pointer (which does not compare equal to nil), or a client.
\<close>

datatype metrics_iface = No_Client | Nil_Pointer | Metrics_Client

record cluster_client =
  cc_id :: string
  cc_metrics_client :: metrics_iface
  cc_metrics_on :: bool

definition SetMetricsEnabled :: "bool \<Rightarrow> cluster_client \<Rightarrow> cluster_client" where
  "SetMetricsEnabled v c = c\<lparr>cc_metrics_on := v\<rparr>"

type_synonym registry = "string \<rightharpoonup> cluster_client"

definition NewRegistry :: registry where "NewRegistry = Map.empty"

definition Register :: "registry \<Rightarrow> cluster_client \<Rightarrow> registry" where
  "Register r c = r(cc_id c \<mapsto> c)"

definition Registry_Get :: "registry \<Rightarrow> string \<Rightarrow> cluster_client option" where
  "Registry_Get r i = r i"

definition Registry_All :: "registry \<Rightarrow> cluster_client set" where
  "Registry_All r = ran r"

interpretation reg: keyed_table Register cc_id Registry_Get
  by unfold_locales (simp_all add: Register_def Registry_Get_def)

end
