(* ===== verification/Watcher.thy ===== *)
theory Watcher
  imports Kube_Metrics Keyed_Table
begin

text \<open>
  The informer handlers of \<open>internal/watcher\<close>: \<open>cronjob.go\<close>, \<open>job.go\<close> and \<open>pod.go\<close>.

  The Kubernetes objects are the API's; the records hold the fields the handlers read. An
  \<open>interface{}\<close> is \<open>k_obj\<close>, so that type assertions are matches. A handler is a function on
  \<open>watch_state\<close>: the store, the Prometheus registry, the run index of the cluster, and the
  calls made so far into the log streamer and the sampler (\<open>w_calls\<close>), whose own behaviour is
  in \<open>Log_Stream\<close> and \<open>Sampler\<close>. Instants read from the clock are arguments. Errors that the
  code only logs leave no trace.
\<close>

section \<open>Objects\<close>

record owner_ref =
  or_kind :: string
  or_name :: string

record k_container =
  kc_requests :: "(string \<rightharpoonup> string) option"
  kc_limits :: "(string \<rightharpoonup> string) option"

record k_cronjob =
  kcj_ns :: string
  kcj_name :: string
  kcj_schedule :: string
  kcj_zone :: "string option"
  kcj_suspend :: "bool option"
  kcj_containers :: "k_container list"
  kcj_last_success :: "gotime option"

record k_job =
  kj_ns :: string
  kj_name :: string
  kj_uid :: string
  kj_labels :: "string \<rightharpoonup> string"
  kj_owners :: "owner_ref list"
  kj_start :: "gotime option"
  kj_completion :: "gotime option"
  kj_conditions :: "(string \<times> string) list" \<comment> \<open>type and status\<close>

record k_terminated =
  kt_exit :: int
  kt_finished :: gotime

record k_status =
  ks_image :: string
  ks_restarts :: int
  ks_terminated :: "k_terminated option"

record k_pod =
  kp_ns :: string
  kp_name :: string
  kp_node :: string
  kp_phase :: string
  kp_owners :: "owner_ref list"
  kp_created :: gotime
  kp_statuses :: "k_status list"

datatype k_obj =
    K_CronJob k_cronjob
  | K_Job k_job
  | K_Pod k_pod
  | K_Tombstone k_obj \<comment> \<open>\<open>cache.DeletedFinalStateUnknown\<close>\<close>
  | K_Other

datatype watch_call =
    Call_Stream string string string \<comment> \<open>namespace, pod, run\<close>
  | Call_Sample string string string string \<comment> \<open>cluster, namespace, pod, run\<close>
  | Call_Stop string

record watch_state =
  w_db :: db
  w_prom :: prom
  w_index :: run_index
  w_calls :: "watch_call list"

definition store_try :: "db result \<Rightarrow> watch_state \<Rightarrow> watch_state" where
  "store_try r s = s\<lparr>w_db := keep_on_error (w_db s) r\<rparr>"

definition call :: "watch_call \<Rightarrow> watch_state \<Rightarrow> watch_state" where
  "call c s = s\<lparr>w_calls := w_calls s @ [c]\<rparr>"

section \<open>CronJobs\<close>

text \<open>\<open>CronJobHandler.id\<close>\<close>

definition cronjob_key :: "string \<Rightarrow> string \<Rightarrow> string \<Rightarrow> string" where
  "cronjob_key cl ns nm = cl @ ''/'' @ ns @ ''/'' @ nm"

definition quantityPtr :: "(string \<rightharpoonup> string) option \<Rightarrow> string \<Rightarrow> string option" where
  "quantityPtr rl nm = (case rl of None \<Rightarrow> None | Some m \<Rightarrow> m nm)"

definition cronjob_record :: "string \<Rightarrow> gotime \<Rightarrow> k_cronjob \<Rightarrow> cronjob" where
  "cronjob_record cl now k =
     (let q = (\<lambda>sel res. case kcj_containers k of [] \<Rightarrow> None | c # _ \<Rightarrow> quantityPtr (sel c) res) in
      \<lparr>cj_id = cronjob_key cl (kcj_ns k) (kcj_name k), cj_cluster = cl, cj_ns = kcj_ns k,
       cj_name = kcj_name k, cj_schedule = kcj_schedule k, cj_zone = kcj_zone k,
       cj_suspended = (kcj_suspend k = Some True),
       cj_cpu_request = q kc_requests ''cpu'', cj_cpu_limit = q kc_limits ''cpu'',
       cj_mem_request = q kc_requests ''memory'', cj_mem_limit = q kc_limits ''memory'',
       cj_last_success = kcj_last_success k, cj_updated = now, cj_deleted = None\<rparr>)"

definition CronJob_upsert ::
  "('s, 'l) cron_lib \<Rightarrow> string \<Rightarrow> gotime \<Rightarrow> k_cronjob \<Rightarrow> watch_state \<Rightarrow> watch_state" where
  "CronJob_upsert lib cl now k s =
     (let r = cronjob_record cl now k;
          s1 = store_try (UpsertCronJob (w_db s) r) s;
          ls = [cl, kcj_ns k, kcj_name k];
          s2 = s1\<lparr>w_prom := set_gauge ''cronjob_suspended'' ls (boolGauge (cj_suspended r)) (w_prom s1)\<rparr>
      in case NextRun lib (cj_schedule r) (TZ r) now of
           Inl _ \<Rightarrow> s2
         | Inr next \<Rightarrow> s2\<lparr>w_prom := set_gauge ''next_run_timestamp'' ls (of_int (unix_sec next)) (w_prom s2)\<rparr>)"

definition CronJob_OnAdd ::
  "('s, 'l) cron_lib \<Rightarrow> string \<Rightarrow> gotime \<Rightarrow> k_obj \<Rightarrow> bool \<Rightarrow> watch_state \<Rightarrow> watch_state" where
  "CronJob_OnAdd lib cl now ob initial s =
     (case ob of K_CronJob k \<Rightarrow> CronJob_upsert lib cl now k s | _ \<Rightarrow> s)"

definition CronJob_OnUpdate ::
  "('s, 'l) cron_lib \<Rightarrow> string \<Rightarrow> gotime \<Rightarrow> k_obj \<Rightarrow> watch_state \<Rightarrow> watch_state" where
  "CronJob_OnUpdate lib cl now ob s =
     (case ob of K_CronJob k \<Rightarrow> CronJob_upsert lib cl now k s | _ \<Rightarrow> s)"

definition CronJob_markDeleted :: "string \<Rightarrow> gotime \<Rightarrow> string \<Rightarrow> string \<Rightarrow> watch_state \<Rightarrow> watch_state" where
  "CronJob_markDeleted cl now ns nm s =
     (case MarkCronJobDeleted now (w_db s) (cronjob_key cl ns nm) of
        Inl _ \<Rightarrow> s
      | Inr db \<Rightarrow> s\<lparr>w_db := db, w_prom := DeleteCronJobSeries cl ns nm (w_prom s)\<rparr>)"

definition CronJob_OnDelete :: "string \<Rightarrow> gotime \<Rightarrow> k_obj \<Rightarrow> watch_state \<Rightarrow> watch_state" where
  "CronJob_OnDelete cl now ob s =
     (case ob of
        K_CronJob k \<Rightarrow> CronJob_markDeleted cl now (kcj_ns k) (kcj_name k) s
      | K_Tombstone (K_CronJob k) \<Rightarrow> CronJob_markDeleted cl now (kcj_ns k) (kcj_name k) s
      | _ \<Rightarrow> s)"

fun reconcile_loop ::
  "string \<Rightarrow> gotime \<Rightarrow> string set \<Rightarrow> cronjob list \<Rightarrow> watch_state \<Rightarrow> watch_state" where
  "reconcile_loop cl now present [] s = s"
| "reconcile_loop cl now present (c # cs) s =
     (if cj_id c \<in> present then reconcile_loop cl now present cs s
      else reconcile_loop cl now present cs (CronJob_markDeleted cl now (cj_ns c) (cj_name c) s))"

definition CronJob_Reconcile :: "string \<Rightarrow> gotime \<Rightarrow> k_cronjob list \<Rightarrow> watch_state \<Rightarrow> watch_state" where
  "CronJob_Reconcile cl now live s =
     (let present = set (map (\<lambda>k. cronjob_key cl (kcj_ns k) (kcj_name k)) live) in
      case ListCronJobs (w_db s) cl of
        Inl _ \<Rightarrow> s
      | Inr stored \<Rightarrow> reconcile_loop cl now present stored s)"

section \<open>Jobs\<close>

definition jobIsDone :: "k_job \<Rightarrow> bool" where
  "jobIsDone j \<longleftrightarrow> kj_completion j \<noteq> None
     \<or> (\<exists>c \<in> set (kj_conditions j). snd c = ''True'' \<and> fst c \<in> {''Complete'', ''Failed''})"

definition owner_of :: "string \<Rightarrow> owner_ref list \<Rightarrow> string option" where
  "owner_of kind refs = map_option or_name (find (\<lambda>r. or_kind r = kind) refs)"

definition cronJobOwner :: "k_job \<Rightarrow> string option" where
  "cronJobOwner j = owner_of ''CronJob'' (kj_owners j)"

definition jobOwner :: "k_pod \<Rightarrow> string option" where
  "jobOwner p = owner_of ''Job'' (kp_owners p)"

definition terminal_phase :: "string \<Rightarrow> bool" where
  "terminal_phase ph \<longleftrightarrow> ph = ''Succeeded'' \<or> ph = ''Failed''"

text \<open>\<open>selectBestPod\<close>: two scans that keep the first of the newest.\<close>

fun newest_pod :: "k_pod list \<Rightarrow> k_pod option \<Rightarrow> k_pod option" where
  "newest_pod [] best = best"
| "newest_pod (p # ps) best =
     newest_pod ps (case best of None \<Rightarrow> Some p
                    | Some b \<Rightarrow> (if kp_created b < kp_created p then Some p else Some b))"

definition selectBestPod :: "k_pod list \<Rightarrow> k_pod option" where
  "selectBestPod pods =
     (case newest_pod (filter (\<lambda>p. terminal_phase (kp_phase p)) pods) None of
        Some p \<Rightarrow> Some p
      | None \<Rightarrow> newest_pod pods None)"

definition job_trigger :: "k_job \<Rightarrow> string" where
  "job_trigger j = (if kj_labels j ''kubecron/trigger'' = Some ''manual'' then ''manual'' else ''scheduled'')"

definition job_started :: "gotime \<Rightarrow> k_job \<Rightarrow> gotime" where
  "job_started now j = (case kj_start j of None \<Rightarrow> now | Some t \<Rightarrow> t)"

definition job_run_record :: "gotime \<Rightarrow> k_job \<Rightarrow> string \<Rightarrow> string \<Rightarrow> job_run" where
  "job_run_record now j cj status =
     \<lparr>jr_id = kj_uid j, jr_cronjob = cj, jr_pod = kj_name j, jr_node = None, jr_image = None,
      jr_trigger = job_trigger j, jr_started = job_started now j, jr_finished = None,
      jr_status = status, jr_exit = None, jr_retry = 0, jr_log_size = 0, jr_duration = None,
      jr_avg_cpu = None, jr_max_cpu = None, jr_avg_mem = None, jr_max_mem = None\<rparr>"

definition backfill_status :: "k_job \<Rightarrow> string" where
  "backfill_status j = (if (''Complete'', ''True'') \<in> set (kj_conditions j) then ''succeeded'' else ''failed'')"

text \<open>The second half of \<open>backfillRun\<close>: what the pod of the job tells.\<close>

definition backfill_pod ::
  "k_job \<Rightarrow> string \<Rightarrow> gotime option \<Rightarrow> bool \<Rightarrow> k_pod \<Rightarrow> watch_state \<Rightarrow> watch_state" where
  "backfill_pod j status finished has_logs p s =
     (let run = kj_uid j;
          image = (case kp_statuses p of [] \<Rightarrow> [] | cs # _ \<Rightarrow> ks_image cs);
          term = (case kp_statuses p of [] \<Rightarrow> None | cs # _ \<Rightarrow> ks_terminated cs);
          exit = (case term of None \<Rightarrow> 0 | Some t \<Rightarrow> kt_exit t);
          fin = (case finished of Some t \<Rightarrow> Some t
                 | None \<Rightarrow> (case term of None \<Rightarrow> None
                            | Some t \<Rightarrow> if is_zero (kt_finished t) then None else Some (kt_finished t)));
          s1 = store_try (UpdateJobRunNode (w_db s) run (kp_node p) image) s;
          s2 = store_try (UpdateJobRunStatus (w_db s1) run status fin exit 0) s1
      in if has_logs then s2 else call (Call_Stream (kj_ns j) (kp_name p) run) s2)"

definition backfillRun ::
  "gotime \<Rightarrow> k_pod list result \<Rightarrow> k_job \<Rightarrow> string \<Rightarrow> watch_state \<Rightarrow> watch_state" where
  "backfillRun now pods j cj s =
     (let run = kj_uid j;
          existing = (case GetJobRun (w_db s) run of Inl _ \<Rightarrow> None | Inr r \<Rightarrow> r)
      in if (case existing of None \<Rightarrow> False | Some r \<Rightarrow> jr_status r = ''succeeded'') then s
         else
           (let has_logs = (case existing of None \<Rightarrow> False | Some r \<Rightarrow> 0 < jr_log_size r);
                status = backfill_status j
            in case UpsertJobRun (w_db s) (job_run_record now j cj status) of
                 Inl _ \<Rightarrow> s
               | Inr db \<Rightarrow>
                   (let s1 = s\<lparr>w_db := db\<rparr>;
                        s2 = (case kj_completion j of
                                None \<Rightarrow> s1
                              | Some t \<Rightarrow> store_try (UpdateJobRunStatus (w_db s1) run status (Some t) 0 0) s1)
                    in case pods of
                         Inl _ \<Rightarrow> s2
                       | Inr ps \<Rightarrow>
                           (case selectBestPod ps of
                              None \<Rightarrow> s2
                            | Some p \<Rightarrow> backfill_pod j status (kj_completion j) has_logs p s2))))"

definition Job_OnAdd ::
  "string \<Rightarrow> gotime \<Rightarrow> k_pod list result \<Rightarrow> k_obj \<Rightarrow> bool \<Rightarrow> watch_state \<Rightarrow> watch_state" where
  "Job_OnAdd cl now pods ob initial s =
     (case ob of
        K_Job j \<Rightarrow>
          (case cronJobOwner j of
             None \<Rightarrow> s
           | Some owner \<Rightarrow>
               (let cj = cronjob_key cl (kj_ns j) owner in
                if initial \<and> jobIsDone j then backfillRun now pods j cj s
                else
                  (let s1 = store_try (UpsertJobRun (w_db s) (job_run_record now j cj ''running'')) s
                   in s1\<lparr>w_index := Index_Set (w_index s1) (kj_name j) (kj_uid j)\<rparr>)))
      | _ \<Rightarrow> s)"

definition Job_OnUpdate :: "k_obj \<Rightarrow> watch_state \<Rightarrow> watch_state" where
  "Job_OnUpdate ob s = s"

definition Job_OnDelete :: "gotime \<Rightarrow> k_obj \<Rightarrow> watch_state \<Rightarrow> watch_state" where
  "Job_OnDelete now ob s =
     (case ob of
        K_Job j \<Rightarrow>
          (let unindex = (\<lambda>s. s\<lparr>w_index := Index_Delete (w_index s) (kj_name j)\<rparr>) in
           case GetJobRun (w_db s) (kj_uid j) of
             Inl _ \<Rightarrow> unindex s
           | Inr None \<Rightarrow> unindex s
           | Inr (Some r) \<Rightarrow>
               (if jr_status r \<noteq> ''running'' then unindex s
                else unindex (store_try (MarkRunFailed now (w_db s) (kj_uid j)) s)))
      | _ \<Rightarrow> s)"

section \<open>Pods\<close>

definition findRunID :: "watch_state \<Rightarrow> string \<Rightarrow> string" where
  "findRunID s job =
     (if Index_Get (w_index s) job \<noteq> [] then Index_Get (w_index s) job
      else case GetRunningRuns (w_db s) of
             Inl _ \<Rightarrow> []
           | Inr runs \<Rightarrow> (case find (\<lambda>r. jr_pod r = job) runs of None \<Rightarrow> [] | Some r \<Rightarrow> jr_id r))"

definition stored_run :: "watch_state \<Rightarrow> string \<Rightarrow> job_run option" where
  "stored_run s run = (case GetJobRun (w_db s) run of Inl _ \<Rightarrow> None | Inr r \<Rightarrow> r)"

text \<open>\<open>if run, err := GetJobRun(...); err == nil && run != nil && run.LogSizeBytes == 0\<close>\<close>

definition stream_if_no_logs :: "k_pod \<Rightarrow> string \<Rightarrow> watch_state \<Rightarrow> watch_state" where
  "stream_if_no_logs p run s =
     (case stored_run s run of
        None \<Rightarrow> s
      | Some r \<Rightarrow> if jr_log_size r = 0 then call (Call_Stream (kp_ns p) (kp_name p) run) s else s)"

definition pod_running :: "string \<Rightarrow> bool \<Rightarrow> k_pod \<Rightarrow> string \<Rightarrow> watch_state \<Rightarrow> watch_state" where
  "pod_running cl metrics_on p run s =
     (let image = (case kp_statuses p of [] \<Rightarrow> [] | cs # _ \<Rightarrow> ks_image cs);
          s1 = store_try (UpdateJobRunNode (w_db s) run (kp_node p) image) s;
          s2 = stream_if_no_logs p run s1
      in if metrics_on then call (Call_Sample cl (kp_ns p) (kp_name p) run) s2 else s2)"

definition pod_finish :: "gotime \<Rightarrow> k_pod \<Rightarrow> string \<times> gotime \<times> int \<times> int" where
  "pod_finish now p =
     (let status = (if kp_phase p = ''Failed'' then ''failed'' else ''succeeded'') in
      case kp_statuses p of
        [] \<Rightarrow> (status, now, 0, 0)
      | cs # _ \<Rightarrow>
          (case ks_terminated cs of
             None \<Rightarrow> (status, now, 0, ks_restarts cs)
           | Some t \<Rightarrow> (status, if is_zero (kt_finished t) then now else kt_finished t, kt_exit t, ks_restarts cs)))"

definition pod_terminal :: "string \<Rightarrow> gotime \<Rightarrow> k_pod \<Rightarrow> string \<Rightarrow> string \<Rightarrow> watch_state \<Rightarrow> watch_state" where
  "pod_terminal cl now p job run s =
     (case pod_finish now p of
        (status, finished, exit, retry) \<Rightarrow>
          (let s1 = store_try (UpdateJobRunStatus (w_db s) run status (Some finished) exit retry) s;
               s2 = (case stored_run s1 run of
                       None \<Rightarrow> s1
                     | Some r \<Rightarrow> s1\<lparr>w_prom := RecordCompletion cl (jr_cronjob r) status (jr_trigger r)
                                     (jr_started r) finished (w_prom s1)\<rparr>);
               s3 = stream_if_no_logs p run s2;
               s4 = call (Call_Stop run) s3
           in s4\<lparr>w_index := Index_Delete (w_index s4) job\<rparr>))"

definition Pod_OnUpdate :: "string \<Rightarrow> bool \<Rightarrow> gotime \<Rightarrow> k_obj \<Rightarrow> watch_state \<Rightarrow> watch_state" where
  "Pod_OnUpdate cl metrics_on now ob s =
     (case ob of
        K_Pod p \<Rightarrow>
          (case jobOwner p of
             None \<Rightarrow> s
           | Some job \<Rightarrow>
               (let run = findRunID s job in
                if run = [] then s
                else if kp_phase p = ''Running'' then pod_running cl metrics_on p run s
                else if terminal_phase (kp_phase p) then pod_terminal cl now p job run s
                else s))
      | _ \<Rightarrow> s)"

text \<open>\<open>retryOnAdd\<close>: ten attempts; \<open>env\<close> is what the other goroutines do during each pause
  (it is asked for the \<open>n\<close>-th pause).\<close>

fun retry_loop ::
  "nat \<Rightarrow> (nat \<Rightarrow> watch_state \<Rightarrow> watch_state) \<Rightarrow> string \<Rightarrow> bool \<Rightarrow> gotime \<Rightarrow> k_pod \<Rightarrow> string
   \<Rightarrow> watch_state \<Rightarrow> watch_state" where
  "retry_loop 0 env cl metrics_on now p job s = s"
| "retry_loop (Suc n) env cl metrics_on now p job s =
     (if findRunID s job \<noteq> [] then Pod_OnUpdate cl metrics_on now (K_Pod p) s
      else retry_loop n env cl metrics_on now p job (env n s))"

definition retryOnAdd ::
  "(nat \<Rightarrow> watch_state \<Rightarrow> watch_state) \<Rightarrow> string \<Rightarrow> bool \<Rightarrow> gotime \<Rightarrow> k_pod \<Rightarrow> watch_state \<Rightarrow> watch_state" where
  "retryOnAdd env cl metrics_on now p s =
     (case jobOwner p of None \<Rightarrow> s | Some job \<Rightarrow> retry_loop 10 env cl metrics_on now p job s)"

definition Pod_OnAdd ::
  "(nat \<Rightarrow> watch_state \<Rightarrow> watch_state) \<Rightarrow> string \<Rightarrow> bool \<Rightarrow> gotime \<Rightarrow> k_obj \<Rightarrow> bool \<Rightarrow> watch_state \<Rightarrow> watch_state" where
  "Pod_OnAdd env cl metrics_on now ob initial s =
     (case ob of
        K_Pod p \<Rightarrow>
          (if kp_phase p \<noteq> ''Running'' \<and> \<not> terminal_phase (kp_phase p) then s
           else if initial \<and> kp_phase p = ''Running'' then retryOnAdd env cl metrics_on now p s
           else Pod_OnUpdate cl metrics_on now ob s)
      | _ \<Rightarrow> s)"

definition Pod_OnDelete :: "k_obj \<Rightarrow> watch_state \<Rightarrow> watch_state" where
  "Pod_OnDelete ob s = s"

section \<open>Cache synchronisation\<close>

text \<open>\<open>Controller.CacheSynced\<close>, over the answers of the three \<open>HasSynced\<close> functions (none
  before \<open>Start\<close> has run).\<close>

definition CacheSynced :: "bool list \<Rightarrow> bool" where
  "CacheSynced synced \<longleftrightarrow> (\<forall>b \<in> set synced. b) \<and> 0 < length synced"

section \<open>Start-up\<close>

text \<open>Step 6 of \<open>main\<close>: the runs that were in flight when the process died.\<close>

fun mark_stale :: "gotime \<Rightarrow> job_run list \<Rightarrow> db \<Rightarrow> db" where
  "mark_stale now [] db = db"
| "mark_stale now (r # rs) db = mark_stale now rs (keep_on_error db (MarkRunFailed now db (jr_id r)))"

definition restart_recovery :: "gotime \<Rightarrow> db \<Rightarrow> db" where
  "restart_recovery now db = (case GetRunningRuns db of Inl _ \<Rightarrow> db | Inr runs \<Rightarrow> mark_stale now runs db)"

end
