(* ===== verification/Watch_Props.thy ===== *)
theory Watch_Props
  imports Watcher Log_Stream
begin

text \<open>
  What the handlers do to the store over the life of a run: the end of a run, the restart of
  the program, the reconciliation of the CronJobs, and the confusion of Jobs of equal name.
\<close>

section \<open>Effects of the storage statements on single runs\<close>

definition run_row :: "db \<Rightarrow> string \<Rightarrow> job_run option" where
  "run_row db i = find (\<lambda>r. jr_id r = i) (db_runs db)"

lemma run_row_id: "run_row db i = Some r \<Longrightarrow> jr_id r = i \<and> r \<in> set (db_runs db)"
  by (auto simp: run_row_def dest: find_Some_in)

lemma run_row_in: "i \<in> set (jr_ids db) \<longleftrightarrow> run_row db i \<noteq> None"
  by (auto simp: run_row_def jr_ids_def find_None_all)

lemma set_runs_row:
  assumes "\<And>r. jr_id (f r) = jr_id r"
  shows "run_row (set_runs (\<lambda>r. jr_id r = i) f db) j = (if j = i then map_option f (run_row db j) else run_row db j)"
proof -
  have "run_row (set_runs (\<lambda>r. jr_id r = i) f db) j = map_option (\<lambda>r. if jr_id r = i then f r else r) (run_row db j)"
    unfolding run_row_def set_runs_def by (simp add: find_upd_where assms)
  then show ?thesis by (cases "run_row db j") (auto dest: run_row_id)
qed

lemma set_runs_down [simp]: "db_down (set_runs P f db) = db_down db"
  by (simp add: set_runs_def)

lemma all_up_simps [simp]: "all_up (set_runs P f db) = all_up db"
  by (simp add: all_up_def)

lemma all_upD: "all_up db \<Longrightarrow> db_down db op = None"
  by (simp add: all_up_def)

lemma stored_run_up: "all_up (w_db s) \<Longrightarrow> stored_run s i = map_option scanJobRun (run_row (w_db s) i)"
  by (simp add: stored_run_def GetJobRun_def sql_rows_def exec_sql_up all_upD run_row_def)

definition with_status :: "string \<Rightarrow> gotime \<Rightarrow> int \<Rightarrow> int \<Rightarrow> job_run \<Rightarrow> job_run" where
  "with_status st fin ex retry r = r\<lparr>jr_status := st, jr_finished := Some fin, jr_exit := Some ex,
     jr_retry := retry, jr_duration := Some (elapsed_ms fin (jr_started r))\<rparr>"

lemma with_status_simps [simp]:
  "jr_id (with_status st fin ex retry r) = jr_id r" "jr_cronjob (with_status st fin ex retry r) = jr_cronjob r"
  "jr_pod (with_status st fin ex retry r) = jr_pod r" "jr_status (with_status st fin ex retry r) = st"
  "jr_started (with_status st fin ex retry r) = jr_started r" "jr_finished (with_status st fin ex retry r) = Some fin"
  "jr_exit (with_status st fin ex retry r) = Some ex" "jr_trigger (with_status st fin ex retry r) = jr_trigger r"
  "jr_log_size (with_status st fin ex retry r) = jr_log_size r"
  by (simp_all add: with_status_def)

lemma UpdateJobRunStatus_up:
  assumes "all_up db" and "status_ok st"
  shows "\<exists>db'. UpdateJobRunStatus db i st (Some fin) ex retry = Inr db' \<and> all_up db'
    \<and> jr_ids db' = jr_ids db \<and> db_cronjobs db' = db_cronjobs db
    \<and> (\<forall>j. run_row db' j = (if j = i then map_option (with_status st fin ex retry) (run_row db j) else run_row db j))"
proof -
  let ?f = "\<lambda>r. r\<lparr>jr_status := st, jr_finished := Some fin, jr_exit := Some ex, jr_retry := retry,
      jr_duration := coalesce (durationFromStart db i (Some fin)) (jr_duration r)\<rparr>"
  let ?db = "set_runs (\<lambda>r. jr_id r = i) ?f db"
  have dur: "durationFromStart db i (Some fin) = map_option (\<lambda>r. elapsed_ms fin (jr_started r)) (run_row db i)"
    by (simp add: durationFromStart_def all_upD[OF assms(1)] run_row_def split: option.split)
  have "run_row ?db j = (if j = i then map_option (with_status st fin ex retry) (run_row db j) else run_row db j)" for j
  proof -
    have "run_row ?db j = (if j = i then map_option ?f (run_row db j) else run_row db j)"
      by (rule set_runs_row) simp
    then show ?thesis using dur by (cases "run_row db i") (auto simp: with_status_def)
  qed
  then show ?thesis using assms
    by (intro exI[of _ ?db]) (simp add: UpdateJobRunStatus_def Let_def exec_sql_up all_upD)
qed

lemma find_append_none: "find P xs = None \<Longrightarrow> find P (xs @ ys) = find P ys"
  by (simp add: find_append)

lemma UpsertJobRun_up:
  assumes "all_up db" "trigger_ok (jr_trigger r)" "status_ok (jr_status r)" "jr_cronjob r \<in> set (cj_ids db)"
  shows "\<exists>db'. UpsertJobRun db r = Inr db' \<and> all_up db' \<and> cj_ids db' = cj_ids db
    \<and> (\<forall>j. run_row db' j = (if j = jr_id r then Some (case run_row db j of None \<Rightarrow> new_run r | Some o' \<Rightarrow> refresh_run r o')
           else run_row db j))"
proof (cases "jr_id r \<in> set (jr_ids db)")
  case True
  then obtain o' where o': "run_row db (jr_id r) = Some o'" by (auto simp: run_row_in)
  have "run_row (set_runs (\<lambda>o'. jr_id o' = jr_id r) (refresh_run r) db) j
      = (if j = jr_id r then map_option (refresh_run r) (run_row db j) else run_row db j)" for j
    by (rule set_runs_row) simp
  with True assms o' show ?thesis
    by (intro exI[of _ "set_runs (\<lambda>o'. jr_id o' = jr_id r) (refresh_run r) db"])
      (simp add: UpsertJobRun_def exec_sql_up all_upD)
next
  case False
  then have none: "run_row db (jr_id r) = None" by (simp add: run_row_in)
  have "run_row (db\<lparr>db_runs := db_runs db @ [new_run r]\<rparr>) j
      = (if j = jr_id r then Some (new_run r) else run_row db j)" for j
    using none by (simp add: run_row_def find_append split: option.split)
  with False assms none show ?thesis
    by (intro exI[of _ "db\<lparr>db_runs := db_runs db @ [new_run r]\<rparr>"])
      (simp add: UpsertJobRun_def exec_sql_up all_upD cj_ids_def all_up_def)
qed

lemma store_try_simps [simp]:
  "w_prom (store_try r s) = w_prom s" "w_index (store_try r s) = w_index s" "w_calls (store_try r s) = w_calls s"
  "w_db (store_try (Inr db) s) = db"
  by (simp_all add: store_try_def)

lemma call_simps [simp]:
  "w_db (call c s) = w_db s" "w_prom (call c s) = w_prom s" "w_index (call c s) = w_index s"
  "w_calls (call c s) = w_calls s @ [c]"
  by (simp_all add: call_def)

lemma stream_if_no_logs_simps [simp]:
  "w_db (stream_if_no_logs p r s) = w_db s" "w_prom (stream_if_no_logs p r s) = w_prom s"
  "w_index (stream_if_no_logs p r s) = w_index s"
  by (simp_all add: stream_if_no_logs_def split: option.split)

lemma stream_if_no_logs_calls: "\<exists>cs. w_calls (stream_if_no_logs p r s) = w_calls s @ cs"
  by (simp add: stream_if_no_logs_def split: option.split)

section \<open>The end of a run\<close>

lemma pod_finish_cases:
  "\<exists>fin ex retry. pod_finish now p = (if kp_phase p = ''Failed'' then ''failed'' else ''succeeded'', fin, ex, retry)"
  by (simp add: pod_finish_def Let_def split: list.split option.split)

definition other_running :: "db \<Rightarrow> string \<Rightarrow> string \<Rightarrow> bool" where
  "other_running db job run \<longleftrightarrow>
     (\<exists>r \<in> set (db_runs db). jr_pod r = job \<and> jr_status r = ''running'' \<and> jr_id r \<noteq> run)"

lemma pod_terminal_effect:
  assumes up: "all_up (w_db s)" and fin: "pod_finish now p = (st, f, ex, retry)"
    and row: "run_row (w_db s) run = Some r"
  shows "all_up (w_db (pod_terminal cl now p job run s))"
    and "run_row (w_db (pod_terminal cl now p job run s)) j
       = (if j = run then Some (with_status st f ex retry r) else run_row (w_db s) j)"
    and "w_index (pod_terminal cl now p job run s) = Index_Delete (w_index s) job"
    and "Call_Stop run \<in> set (w_calls (pod_terminal cl now p job run s))"
    and "w_prom (pod_terminal cl now p job run s)
       = RecordCompletion cl (jr_cronjob r) st (jr_trigger r) (jr_started r) f (w_prom s)"
    and "db_wf (w_db s) \<Longrightarrow> db_wf (w_db (pod_terminal cl now p job run s))"
    and "cj_ids (w_db (pod_terminal cl now p job run s)) = cj_ids (w_db s)"
proof -
  have "status_ok st" using fin pod_finish_cases[of now p] by (auto simp: status_ok_def split: if_splits)
  from UpdateJobRunStatus_up[OF up this] obtain db' where db':
    "UpdateJobRunStatus (w_db s) run st (Some f) ex retry = Inr db'" "all_up db'" "db_cronjobs db' = db_cronjobs (w_db s)"
    "\<forall>j. run_row db' j = (if j = run then map_option (with_status st f ex retry) (run_row (w_db s) j)
        else run_row (w_db s) j)" by metis
  let ?s1 = "store_try (Inr db') s"
  have st: "stored_run ?s1 run = Some (scanJobRun (with_status st f ex retry r))"
    using db'(2,4) row by (simp add: stored_run_up)
  have tr: "jr_trigger (scanJobRun x) = jr_trigger x" for x by (simp add: scanJobRun_def split: option.split)
  note unf = pod_terminal_def fin db'(1) st Let_def
  show "all_up (w_db (pod_terminal cl now p job run s))" using db'(2) by (simp add: unf)
  show "run_row (w_db (pod_terminal cl now p job run s)) j
       = (if j = run then Some (with_status st f ex retry r) else run_row (w_db s) j)"
    using db'(4) row by (simp add: unf)
  show "w_index (pod_terminal cl now p job run s) = Index_Delete (w_index s) job" by (simp add: unf)
  show "Call_Stop run \<in> set (w_calls (pod_terminal cl now p job run s))" by (simp add: unf)
  show "w_prom (pod_terminal cl now p job run s)
       = RecordCompletion cl (jr_cronjob r) st (jr_trigger r) (jr_started r) f (w_prom s)" by (simp add: unf tr)
  show "db_wf (w_db s) \<Longrightarrow> db_wf (w_db (pod_terminal cl now p job run s))"
    using UpdateJobRunStatus_wf[OF _ db'(1)] by (simp add: unf)
  show "cj_ids (w_db (pod_terminal cl now p job run s)) = cj_ids (w_db s)"
    using db'(3) by (simp add: unf cj_ids_def)
qed

lemma row_of_member: "db_wf db \<Longrightarrow> r \<in> set (db_runs db) \<Longrightarrow> run_row db (jr_id r) = Some r"
  using db_wfD(4)[of db] find_distinct_key[of jr_id "db_runs db" r] by (simp add: run_row_def jr_ids_def)

lemma findRunID_none:
  assumes "all_up (w_db s)" and "Index_Get (w_index s) job = []"
    and "\<forall>r \<in> set (db_runs (w_db s)). \<not> (jr_status r = ''running'' \<and> jr_pod r = job)"
  shows "findRunID s job = []"
proof -
  have "jr_pod (scanJobRun r) = jr_pod r" for r by (simp add: scanJobRun_def split: option.split)
  then have "find (\<lambda>r. jr_pod r = job) (map scanJobRun (filter (\<lambda>r. jr_status r = ''running'') (db_runs (w_db s)))) = None"
    using assms(3) by (auto simp: find_None_all)
  then show ?thesis using assms(1,2)
    by (simp add: findRunID_def GetRunningRuns_def sql_rows_def exec_sql_up all_upD)
qed

lemma Pod_OnUpdate_untracked:
  "jobOwner p = Some job \<Longrightarrow> findRunID s job = [] \<Longrightarrow> Pod_OnUpdate cl m now (K_Pod p) s = s"
  by (simp add: Pod_OnUpdate_def)

lemma Pod_OnUpdate_terminal:
  "jobOwner p = Some job \<Longrightarrow> findRunID s job = run \<Longrightarrow> run \<noteq> [] \<Longrightarrow> terminal_phase (kp_phase p) \<Longrightarrow>
   Pod_OnUpdate cl m now (K_Pod p) s = pod_terminal cl now p job run s"
  by (auto simp: Pod_OnUpdate_def terminal_phase_def)

section \<open>Restart\<close>

definition mark_failed :: "gotime \<Rightarrow> job_run \<Rightarrow> job_run" where
  "mark_failed now r = r\<lparr>jr_status := ''failed'', jr_exit := Some (- 1), jr_finished := Some now,
     jr_duration := Some (elapsed_ms now (jr_started r))\<rparr>"

lemma mark_failed_simps [simp]:
  "jr_id (mark_failed now r) = jr_id r" "jr_status (mark_failed now r) = ''failed''"
  "mark_failed now (mark_failed now r) = mark_failed now r"
  by (simp_all add: mark_failed_def)

lemma MarkRunFailed_up:
  assumes "all_up db"
  shows "\<exists>db'. MarkRunFailed now db i = Inr db' \<and> all_up db' \<and> jr_ids db' = jr_ids db \<and> cj_ids db' = cj_ids db
    \<and> (\<forall>j. run_row db' j = (if j = i then map_option (mark_failed now) (run_row db j) else run_row db j))"
proof -
  let ?f = "\<lambda>r. r\<lparr>jr_status := ''failed'', jr_exit := Some (- 1), jr_finished := Some now,
      jr_duration := coalesce (durationFromStart db i (Some now)) (jr_duration r)\<rparr>"
  let ?db = "set_runs (\<lambda>r. jr_id r = i) ?f db"
  have dur: "durationFromStart db i (Some now) = map_option (\<lambda>r. elapsed_ms now (jr_started r)) (run_row db i)"
    by (simp add: durationFromStart_def all_upD[OF assms(1)] run_row_def split: option.split)
  have "run_row ?db j = (if j = i then map_option (mark_failed now) (run_row db j) else run_row db j)" for j
  proof -
    have "run_row ?db j = (if j = i then map_option ?f (run_row db j) else run_row db j)"
      by (rule set_runs_row) simp
    then show ?thesis using dur by (cases "run_row db i") (auto simp: mark_failed_def)
  qed
  then show ?thesis using assms
    by (intro exI[of _ ?db]) (simp add: MarkRunFailed_def Let_def exec_sql_up all_upD)
qed

lemma mark_stale_effect:
  "all_up db \<Longrightarrow> db_wf db \<Longrightarrow> all_up (mark_stale now rs db) \<and> db_wf (mark_stale now rs db)
     \<and> jr_ids (mark_stale now rs db) = jr_ids db \<and> cj_ids (mark_stale now rs db) = cj_ids db
     \<and> (\<forall>j. run_row (mark_stale now rs db) j =
          (if j \<in> jr_id ` set rs then map_option (mark_failed now) (run_row db j) else run_row db j))"
proof (induction rs arbitrary: db)
  case Nil
  then show ?case by simp
next
  case (Cons r rs)
  from MarkRunFailed_up[OF Cons.prems(1), of now "jr_id r"] obtain db' where db':
    "MarkRunFailed now db (jr_id r) = Inr db'" "all_up db'" "jr_ids db' = jr_ids db" "cj_ids db' = cj_ids db"
    "\<forall>j. run_row db' j = (if j = jr_id r then map_option (mark_failed now) (run_row db j) else run_row db j)" by metis
  have "db_wf db'" by (rule MarkRunFailed_wf[OF Cons.prems(2) db'(1)])
  note IH = Cons.IH[OF db'(2) this]
  have "run_row (mark_stale now rs db') j =
      (if j \<in> jr_id ` set (r # rs) then map_option (mark_failed now) (run_row db j) else run_row db j)" for j
    using IH db'(5) by (auto simp: option.map_comp comp_def)
  then show ?case using IH db' by simp
qed

lemma restart_recovery_effect:
  assumes "all_up db" and "db_wf db"
  shows "all_up (restart_recovery now db) \<and> db_wf (restart_recovery now db)
     \<and> jr_ids (restart_recovery now db) = jr_ids db \<and> cj_ids (restart_recovery now db) = cj_ids db
     \<and> (\<forall>j. run_row (restart_recovery now db) j =
          map_option (\<lambda>r. if jr_status r = ''running'' then mark_failed now r else r) (run_row db j))"
proof -
  let ?rs = "map scanJobRun (filter (\<lambda>r. jr_status r = ''running'') (db_runs db))"
  have eq: "restart_recovery now db = mark_stale now ?rs db"
    using assms(1) by (simp add: restart_recovery_def GetRunningRuns_def sql_rows_def exec_sql_up all_upD)
  have "j \<in> jr_id ` set ?rs \<longleftrightarrow> jr_status r = ''running''" if "run_row db j = Some r" for j r
  proof
    assume "j \<in> jr_id ` set ?rs"
    then obtain r' where "r' \<in> set (db_runs db)" "jr_status r' = ''running''" "j = jr_id r'" by auto
    with row_of_member[OF assms(2)] that show "jr_status r = ''running''" by auto
  next
    assume "jr_status r = ''running''"
    with run_row_id[OF that] have "scanJobRun r \<in> set ?rs" "j = jr_id (scanJobRun r)" by auto
    then show "j \<in> jr_id ` set ?rs" by (metis imageI)
  qed
  then have "(if j \<in> jr_id ` set ?rs then map_option (mark_failed now) (run_row db j) else run_row db j)
      = map_option (\<lambda>r. if jr_status r = ''running'' then mark_failed now r else r) (run_row db j)" for j
    by (cases "run_row db j") auto
  with mark_stale_effect[OF assms, of now ?rs] show ?thesis unfolding eq by simp
qed

section \<open>Reconciliation\<close>

lemma MarkCronJobDeleted_up:
  assumes "all_up db"
  shows "\<exists>db'. MarkCronJobDeleted now db i = Inr db' \<and> all_up db' \<and> db_runs db' = db_runs db
    \<and> db_cronjobs db' = map (\<lambda>c. if cj_id c = i \<and> cj_deleted c = None then c\<lparr>cj_deleted := Some now\<rparr> else c) (db_cronjobs db)"
  using assms
  by (simp add: MarkCronJobDeleted_def exec_sql_up all_upD all_up_def set_cronjobs_def upd_where_def)

text \<open>The ids of the CronJobs a cluster's watcher stores are built from their key.\<close>

definition keyed_ids :: "string \<Rightarrow> cronjob list \<Rightarrow> bool" where
  "keyed_ids cl cs \<longleftrightarrow> (\<forall>c \<in> set cs. cj_id c = cronjob_key cl (cj_ns c) (cj_name c))"

lemma reconcile_loop_effect:
  "all_up (w_db s) \<Longrightarrow> keyed_ids cl cs \<Longrightarrow>
   (let s' = reconcile_loop cl now present cs s; gone = {i \<in> cj_id ` set cs. i \<notin> present} in
     all_up (w_db s') \<and> db_runs (w_db s') = db_runs (w_db s)
     \<and> db_cronjobs (w_db s') = map (\<lambda>c. if cj_id c \<in> gone \<and> cj_deleted c = None
          then c\<lparr>cj_deleted := Some now\<rparr> else c) (db_cronjobs (w_db s)))"
proof (induction cs arbitrary: s)
  case Nil
  then show ?case by (simp add: Let_def)
next
  case (Cons c cs)
  have keyed: "keyed_ids cl cs" and id: "cj_id c = cronjob_key cl (cj_ns c) (cj_name c)"
    using Cons.prems(2) by (simp_all add: keyed_ids_def)
  show ?case
  proof (cases "cj_id c \<in> present")
    case True
    then have "{i \<in> cj_id ` set (c # cs). i \<notin> present} = {i \<in> cj_id ` set cs. i \<notin> present}" by auto
    with True Cons.IH[OF Cons.prems(1) keyed] show ?thesis by (simp only: reconcile_loop.simps if_True)
  next
    case False
    from MarkCronJobDeleted_up[OF Cons.prems(1), of now "cj_id c"] obtain db' where db':
      "MarkCronJobDeleted now (w_db s) (cj_id c) = Inr db'" "all_up db'" "db_runs db' = db_runs (w_db s)"
      "db_cronjobs db' = map (\<lambda>x. if cj_id x = cj_id c \<and> cj_deleted x = None then x\<lparr>cj_deleted := Some now\<rparr> else x)
        (db_cronjobs (w_db s))" by blast
    let ?s = "CronJob_markDeleted cl now (cj_ns c) (cj_name c) s"
    have s: "w_db ?s = db'" using db'(1) by (simp add: CronJob_markDeleted_def id[symmetric])
    have step: "reconcile_loop cl now present (c # cs) s = reconcile_loop cl now present cs ?s" using False by simp
    have "{i \<in> cj_id ` set (c # cs). i \<notin> present} = insert (cj_id c) {i \<in> cj_id ` set cs. i \<notin> present}"
      using False by auto
    with Cons.IH[of ?s] keyed db' show ?thesis unfolding step s Let_def by (auto simp: o_def)
  qed
qed

section \<open>Properties\<close>

text \<open>The events of a Job whose run has ended and whose name no run in flight bears.\<close>

lemma ended_pod_events:
  assumes "findRunID s job = []" and "jobOwner p = Some job"
  shows "Pod_OnUpdate cl m now (K_Pod p) s = s" "Pod_OnAdd (\<lambda>_ t. t) cl m now (K_Pod p) ini s = s"
    "Pod_OnDelete (K_Pod p) s = s"
proof -
  show u: "Pod_OnUpdate cl m now (K_Pod p) s = s" by (rule Pod_OnUpdate_untracked[OF assms(2,1)])
  have "retry_loop k (\<lambda>_ t. t) cl m now p job s = s" for k using assms(1) by (induction k) simp_all
  then show "Pod_OnAdd (\<lambda>_ t. t) cl m now (K_Pod p) ini s = s"
    using u assms(2) by (simp add: Pod_OnAdd_def retryOnAdd_def del: retry_loop.simps)
qed (simp add: Pod_OnDelete_def)

lemma ended_job_events:
  assumes up: "all_up (w_db s)" and row: "run_row (w_db s) (kj_uid j) = Some r" and st: "jr_status r \<noteq> ''running''"
    and ix: "w_index s (kj_name j) = None"
  shows "Job_OnUpdate (K_Job j) s = s" "Job_OnDelete now (K_Job j) s = s"
    "jr_status r = ''succeeded'' \<Longrightarrow> jobIsDone j \<Longrightarrow> Job_OnAdd cl now pods (K_Job j) True s = s"
proof -
  have get: "GetJobRun (w_db s) (kj_uid j) = Inr (Some (scanJobRun r))"
    using up row by (simp add: GetJobRun_def sql_rows_def exec_sql_up all_upD run_row_def)
  have [simp]: "jr_status (scanJobRun r) = jr_status r" by (simp add: scanJobRun_def split: option.split)
  have "Index_Delete (w_index s) (kj_name j) = w_index s" using ix by (auto simp: Index_Delete_def)
  then show "Job_OnDelete now (K_Job j) s = s" using get st by (simp add: Job_OnDelete_def)
  show "Job_OnAdd cl now pods (K_Job j) True s = s" if "jr_status r = ''succeeded''" "jobIsDone j"
    using get that by (simp add: Job_OnAdd_def backfillRun_def split: option.split)
qed (simp add: Job_OnUpdate_def)

lemma job_added_reopens:
  assumes up: "all_up (w_db s)" and own: "cronJobOwner j = Some o1" "cronjob_key cl (kj_ns j) o1 \<in> set (cj_ids (w_db s))"
    and "\<not> (ini \<and> jobIsDone j)"
  shows "\<exists>r. run_row (w_db (Job_OnAdd cl now pods (K_Job j) ini s)) (kj_uid j) = Some r \<and> jr_status r = ''running''
    \<and> Index_Get (w_index (Job_OnAdd cl now pods (K_Job j) ini s)) (kj_name j) = kj_uid j"
proof -
  let ?r = "job_run_record now j (cronjob_key cl (kj_ns j) o1) ''running''"
  have rec: "trigger_ok (jr_trigger ?r)" "status_ok (jr_status ?r)" "jr_id ?r = kj_uid j"
    "jr_cronjob ?r = cronjob_key cl (kj_ns j) o1" "jr_status ?r = ''running''"
    by (simp_all add: job_run_record_def job_trigger_def trigger_ok_def status_ok_def)
  from UpsertJobRun_up[OF up rec(1,2)] own(2) obtain db' where
    "UpsertJobRun (w_db s) ?r = Inr db'" "run_row db' (kj_uid j) = Some (case run_row (w_db s) (kj_uid j) of
        None \<Rightarrow> new_run ?r | Some o' \<Rightarrow> refresh_run ?r o')" by (auto simp: rec)
  with own(1) assms(4) rec show ?thesis
    by (auto simp: Job_OnAdd_def Let_def new_run_def refresh_run_def split: option.split)
qed


text \<open>C25. Jobs are told apart by their name alone, not by their namespace: when two
  namespaces have a Job of the same name (CronJobs of equal name and schedule produce them),
  the end of the first one's pod is written to the second one's run, and the first run stays
  \<open>running\<close>.\<close>

theorem same_name_jobs_collide:
  assumes up: "all_up (w_db s)" and wf: "db_wf (w_db s)"
    and j1: "cronJobOwner j1 = Some o1" "cronjob_key cl (kj_ns j1) o1 \<in> set (cj_ids (w_db s))"
    and j2: "cronJobOwner j2 = Some o2" "cronjob_key cl (kj_ns j2) o2 \<in> set (cj_ids (w_db s))"
    and diff: "kj_ns j1 \<noteq> kj_ns j2" "kj_uid j1 \<noteq> kj_uid j2" "kj_uid j2 \<noteq> []" and same: "kj_name j1 = kj_name j2"
    and pod: "kp_ns p = kj_ns j1" "jobOwner p = Some (kj_name j1)" "terminal_phase (kp_phase p)"
    and fin: "pod_finish now p = (st, f, ex, retry)"
  shows "let s' = Pod_OnUpdate cl m now (K_Pod p)
                    (Job_OnAdd cl t2 ps2 (K_Job j2) False (Job_OnAdd cl t1 ps1 (K_Job j1) False s)) in
     (\<exists>r1. run_row (w_db s') (kj_uid j1) = Some r1 \<and> jr_status r1 = ''running'')
     \<and> (\<exists>r2. run_row (w_db s') (kj_uid j2) = Some r2 \<and> jr_status r2 = st \<and> jr_exit r2 = Some ex
          \<and> jr_cronjob r2 = cronjob_key cl (kj_ns j2) o2)"
proof -
  let ?r1 = "job_run_record t1 j1 (cronjob_key cl (kj_ns j1) o1) ''running''"
  let ?r2 = "job_run_record t2 j2 (cronjob_key cl (kj_ns j2) o2) ''running''"
  have rec: "trigger_ok (jr_trigger (job_run_record t j c ''running''))" "status_ok (jr_status (job_run_record t j c ''running''))"
    "jr_id (job_run_record t j c ''running'') = kj_uid j" "jr_cronjob (job_run_record t j c ''running'') = c" for t j c
    by (simp_all add: job_run_record_def job_trigger_def trigger_ok_def status_ok_def)
  from UpsertJobRun_up[OF up rec(1,2), of t1 j1 "cronjob_key cl (kj_ns j1) o1"] j1(2) obtain db1 where db1:
    "UpsertJobRun (w_db s) ?r1 = Inr db1" "all_up db1" "cj_ids db1 = cj_ids (w_db s)"
    "\<forall>j. run_row db1 j = (if j = kj_uid j1 then Some (case run_row (w_db s) j of None \<Rightarrow> new_run ?r1 | Some o' \<Rightarrow> refresh_run ?r1 o')
       else run_row (w_db s) j)" by (auto simp: rec)
  from UpsertJobRun_up[OF db1(2) rec(1,2), of t2 j2 "cronjob_key cl (kj_ns j2) o2"] j2(2) db1(3) obtain db2 where db2:
    "UpsertJobRun db1 ?r2 = Inr db2" "all_up db2"
    "\<forall>j. run_row db2 j = (if j = kj_uid j2 then Some (case run_row db1 j of None \<Rightarrow> new_run ?r2 | Some o' \<Rightarrow> refresh_run ?r2 o')
       else run_row db1 j)" by (auto simp: rec)
  let ?s2 = "Job_OnAdd cl t2 ps2 (K_Job j2) False (Job_OnAdd cl t1 ps1 (K_Job j1) False s)"
  have s2: "w_db ?s2 = db2" "Index_Get (w_index ?s2) (kj_name j1) = kj_uid j2"
    using db1(1) db2(1) j1(1) j2(1) same by (simp_all add: Job_OnAdd_def Let_def)
  obtain r2 where r2: "run_row db2 (kj_uid j2) = Some r2" "jr_cronjob r2 = cronjob_key cl (kj_ns j2) o2"
    using db2(3) by (auto simp: rec split: option.splits)
  obtain r1 where r1: "run_row db2 (kj_uid j1) = Some r1" "jr_status r1 = ''running''"
  proof -
    have "run_row db2 (kj_uid j1) = run_row db1 (kj_uid j1)" using db2(3) diff(2) by simp
    with db1(4) show thesis by (intro that) (auto simp: job_run_record_def split: option.splits)
  qed
  have found: "findRunID ?s2 (kj_name j1) = kj_uid j2" using s2(2) diff(3) by (simp add: findRunID_def)
  have step: "Pod_OnUpdate cl m now (K_Pod p) ?s2 = pod_terminal cl now p (kj_name j1) (kj_uid j2) ?s2"
    by (rule Pod_OnUpdate_terminal[OF pod(2) found diff(3) pod(3)])
  have up2: "all_up (w_db ?s2)" and row2: "run_row (w_db ?s2) (kj_uid j2) = Some r2" using s2(1) db2(2) r2(1) by simp_all
  note eff = pod_terminal_effect(2)[OF up2 fin row2, of cl "kj_name j1"]
  have one: "run_row (w_db (pod_terminal cl now p (kj_name j1) (kj_uid j2) ?s2)) (kj_uid j1) = Some r1"
    using eff[of "kj_uid j1"] diff(2) r1(1) s2(1) by simp
  have two: "run_row (w_db (pod_terminal cl now p (kj_name j1) (kj_uid j2) ?s2)) (kj_uid j2) = Some (with_status st f ex retry r2)"
    using eff[of "kj_uid j2"] by simp
  show ?thesis unfolding Let_def step by (intro conjI exI, rule one, rule r1(2), rule two) (simp_all add: r2(2))
qed

text \<open>A run that survived the restart is put back in flight by the first event of its
  Job, but keeps what the recovery wrote: a finish time, the exit code -1 and a duration stay
  on a run whose status is \<open>running\<close>.\<close>

lemma revived_run_keeps_failure_marks:
  assumes up: "all_up db" and wf: "db_wf db"
    and row: "run_row db (kj_uid j) = Some r" and st: "jr_status r = ''running''"
    and own: "cronJobOwner j = Some o1" "cronjob_key cl (kj_ns j) o1 \<in> set (cj_ids db)"
    and not_done: "\<not> jobIsDone j" and s: "w_db s = restart_recovery now db"
  shows "\<exists>r'. run_row (w_db (Job_OnAdd cl t ps (K_Job j) True s)) (kj_uid j) = Some r'
     \<and> jr_status r' = ''running'' \<and> jr_finished r' = Some now \<and> jr_exit r' = Some (- 1)
     \<and> jr_duration r' = Some (elapsed_ms now (jr_started r))"
proof -
  let ?cj = "cronjob_key cl (kj_ns j) o1"
  let ?r = "job_run_record t j ?cj ''running''"
  have rec: "trigger_ok (jr_trigger ?r)" "status_ok (jr_status ?r)" "jr_id ?r = kj_uid j" "jr_cronjob ?r = ?cj"
    by (simp_all add: job_run_record_def job_trigger_def trigger_ok_def status_ok_def)
  note eff = restart_recovery_effect[OF up wf, of now]
  have old: "run_row (w_db s) (kj_uid j) = Some (mark_failed now r)" using eff row st s by simp
  have ups: "all_up (w_db s)" and "jr_cronjob ?r \<in> set (cj_ids (w_db s))" using eff own(2) s rec(4) by simp_all
  from UpsertJobRun_up[OF ups rec(1,2) this(2)] rec(3) old obtain db' where db':
    "UpsertJobRun (w_db s) ?r = Inr db'" "run_row db' (kj_uid j) = Some (refresh_run ?r (mark_failed now r))" by auto
  have "w_db (Job_OnAdd cl t ps (K_Job j) True s) = db'"
    using own(1) not_done db'(1) by (simp add: Job_OnAdd_def Let_def)
  with db'(2) show ?thesis
    by (simp add: refresh_run_def mark_failed_def job_run_record_def)
qed

text \<open>C26. Restart recovery: after it no run is in flight; the runs that were are failed, with
  exit code -1 and the elapsed time, the others are as they were, and none is removed. The
  first event of a Job that is still active puts its run back in flight, but what the recovery
  wrote stays: the run is \<open>running\<close> with a finish time, the exit code -1 and a duration.\<close>

theorem recovery_fails_stale_runs:
  assumes up: "all_up db" and wf: "db_wf db"
  shows "let db' = restart_recovery now db in
     (\<forall>r \<in> set (db_runs db'). jr_status r \<noteq> ''running'') \<and> jr_ids db' = jr_ids db
     \<and> (\<forall>j. run_row db' j = map_option (\<lambda>r. if jr_status r = ''running'' then mark_failed now r else r) (run_row db j))
     \<and> (\<forall>j r cl o1 t ps s. run_row db (kj_uid j) = Some r \<and> jr_status r = ''running'' \<and> cronJobOwner j = Some o1
          \<and> cronjob_key cl (kj_ns j) o1 \<in> set (cj_ids db) \<and> \<not> jobIsDone j \<and> w_db s = db'
        \<longrightarrow> (\<exists>r'. run_row (w_db (Job_OnAdd cl t ps (K_Job j) True s)) (kj_uid j) = Some r'
             \<and> jr_status r' = ''running'' \<and> jr_finished r' = Some now \<and> jr_exit r' = Some (- 1)
             \<and> jr_duration r' = Some (elapsed_ms now (jr_started r))))"
proof -
  note eff = restart_recovery_effect[OF up wf, of now]
  have "jr_status r \<noteq> ''running''" if r: "r \<in> set (db_runs (restart_recovery now db))" for r
  proof -
    have "run_row (restart_recovery now db) (jr_id r) = Some r" using row_of_member r eff by blast
    with eff obtain r' where "r = (if jr_status r' = ''running'' then mark_failed now r' else r')" by force
    then show ?thesis by (auto split: if_splits)
  qed
  with eff revived_run_keeps_failure_marks[OF up wf] show ?thesis by (simp add: Let_def)
qed

text \<open>C28. Reconciliation makes the listing agree with the cluster: the CronJobs listed
  afterwards are those listed before whose object is still present, in the same order, and
  no run is touched.\<close>

theorem reconcile_converges:
  assumes up: "all_up (w_db s)" and keyed: "keyed_ids cl (live_cronjobs (w_db s) cl)"
  shows "let s' = CronJob_Reconcile cl now live s;
           present = (\<lambda>k. cronjob_key cl (kcj_ns k) (kcj_name k)) ` set live in
     ListCronJobs (w_db s') cl = Inr (filter (\<lambda>c. cj_id c \<in> present) (live_cronjobs (w_db s) cl))
     \<and> db_runs (w_db s') = db_runs (w_db s)"
proof -
  let ?live = "live_cronjobs (w_db s) cl"
  let ?present = "(\<lambda>k. cronjob_key cl (kcj_ns k) (kcj_name k)) ` set live"
  let ?s = "reconcile_loop cl now ?present ?live s"
  let ?gone = "{i \<in> cj_id ` set ?live. i \<notin> ?present}"
  let ?g = "\<lambda>c. if cj_id c \<in> ?gone \<and> cj_deleted c = None then c\<lparr>cj_deleted := Some now\<rparr> else c"
  let ?P = "\<lambda>c. cj_cluster c = cl \<and> cj_deleted c = None"
  let ?k = "\<lambda>c. (cj_ns c, cj_name c)"
  have eq: "CronJob_Reconcile cl now live s = ?s"
    using up by (simp add: CronJob_Reconcile_def ListCronJobs_def sql_rows_def exec_sql_up all_upD)
  have loop: "all_up (w_db ?s)" "db_runs (w_db ?s) = db_runs (w_db s)" "db_cronjobs (w_db ?s) = map ?g (db_cronjobs (w_db s))"
    using reconcile_loop_effect[OF up keyed, of now ?present] by (simp_all add: Let_def)
  have kept: "filter ?P (map ?g xs) = filter (\<lambda>c. cj_id c \<in> ?present) (filter ?P xs)"
    if "set xs \<subseteq> set (db_cronjobs (w_db s))" for xs
    using that
  proof (induction xs)
    case (Cons c xs)
    have "?P c \<Longrightarrow> cj_id c \<in> ?gone \<longleftrightarrow> cj_id c \<notin> ?present" using Cons.prems by (auto simp: live_cronjobs_set)
    with Cons show ?case by auto
  qed simp
  have "live_cronjobs (w_db ?s) cl = sort_key ?k (filter ?P (map ?g (db_cronjobs (w_db s))))"
    by (subst live_cronjobs_def) (simp only: loop(3))
  also have "\<dots> = filter (\<lambda>c. cj_id c \<in> ?present) ?live"
    unfolding kept[OF order_refl] by (simp add: live_cronjobs_def filter_sort)
  finally show ?thesis unfolding Let_def eq using loop(1,2)
    by (simp add: ListCronJobs_def sql_rows_def exec_sql_up all_upD)
qed

section \<open>Witnesses\<close>

definition demo_pod :: k_pod where
  "demo_pod = \<lparr>kp_ns = ''ns'', kp_name = ''p-x'', kp_node = ''n'', kp_phase = ''Succeeded'',
     kp_owners = [\<lparr>or_kind = ''Job'', or_name = ''p''\<rparr>], kp_created = 8,
     kp_statuses = [\<lparr>ks_image = ''i'', ks_restarts = 0, ks_terminated = Some \<lparr>kt_exit = 0, kt_finished = 20\<rparr>\<rparr>]\<rparr>"

definition demo_job :: "string \<Rightarrow> string \<Rightarrow> k_job" where
  "demo_job ns u = \<lparr>kj_ns = ns, kj_name = ''p'', kj_uid = u, kj_labels = Map.empty,
     kj_owners = [\<lparr>or_kind = ''CronJob'', or_name = ''live''\<rparr>], kj_start = Some 8, kj_completion = None, kj_conditions = []\<rparr>"

definition demo_watch :: "db \<Rightarrow> watch_state" where
  "demo_watch db = \<lparr>w_db = db, w_prom = new_prom, w_index = Index_Set NewRunIndex ''p'' ''r2'', w_calls = []\<rparr>"

lemma demo_pod_facts:
  "jobOwner demo_pod = Some ''p''" "terminal_phase (kp_phase demo_pod)"
  "pod_finish now demo_pod = (''succeeded'', 20, 0, 0)"
  by (simp_all add: demo_pod_def jobOwner_def owner_of_def terminal_phase_def pod_finish_def is_zero_def zero_time_def)

lemma demo_r2: "run_row demo_db ''r2'' = Some (demo_run ''r2'' ''live'' 8 ''running'')"
  by (simp add: run_row_def demo_defs)


text \<open>A database with the same CronJob name in two namespaces.\<close>

definition demo_twins :: db where
  "demo_twins = demo_db\<lparr>db_cronjobs :=
     [(demo_cronjob ''live'' None)\<lparr>cj_id := ''c/a/live'', cj_ns := ''a''\<rparr>,
      (demo_cronjob ''live'' None)\<lparr>cj_id := ''c/b/live'', cj_ns := ''b''\<rparr>], db_runs := [], db_logs := []\<rparr>"

lemma demo_twins_facts: "db_wf demo_twins" "all_up demo_twins" "cj_ids demo_twins = [''c/a/live'', ''c/b/live'']"
  by (simp_all add: db_wf_def wf_defs demo_twins_def demo_defs cl_ids_def cj_ids_def jr_ids_def cj_key_def all_up_def)

lemma demo_job_facts: "cronJobOwner (demo_job ns u) = Some ''live''" "kj_name (demo_job ns u) = ''p''"
  "kj_ns (demo_job ns u) = ns" "kj_uid (demo_job ns u) = u" "\<not> jobIsDone (demo_job ns u)"
  by (simp_all add: demo_job_def cronJobOwner_def owner_of_def jobIsDone_def)

theorem same_name_jobs_collide_witness:
  "\<exists>r1. run_row (w_db (Pod_OnUpdate ''c'' True 30 (K_Pod (demo_pod\<lparr>kp_ns := ''a''\<rparr>))
     (Job_OnAdd ''c'' 9 (Inr []) (K_Job (demo_job ''b'' ''u2'')) False
       (Job_OnAdd ''c'' 9 (Inr []) (K_Job (demo_job ''a'' ''u1'')) False (demo_watch demo_twins))))) ''u1'' = Some r1
     \<and> jr_status r1 = ''running''"
proof -
  have st: "all_up (w_db (demo_watch demo_twins))" "db_wf (w_db (demo_watch demo_twins))"
    using demo_twins_facts by (simp_all add: demo_watch_def)
  have ids: "cronjob_key ''c'' (kj_ns (demo_job ns u)) ''live'' \<in> set (cj_ids (w_db (demo_watch demo_twins)))"
    if "ns \<in> {''a'', ''b''}" for ns u
    using that by (auto simp: demo_watch_def demo_twins_facts demo_job_facts cronjob_key_def)
  have pod: "kp_ns (demo_pod\<lparr>kp_ns := ''a''\<rparr>) = kj_ns (demo_job ''a'' ''u1'')"
    "jobOwner (demo_pod\<lparr>kp_ns := ''a''\<rparr>) = Some (kj_name (demo_job ''a'' ''u1''))"
    "terminal_phase (kp_phase (demo_pod\<lparr>kp_ns := ''a''\<rparr>))"
    "pod_finish 30 (demo_pod\<lparr>kp_ns := ''a''\<rparr>) = (''succeeded'', 20, 0, 0)"
    using demo_pod_facts by (simp_all add: demo_job_facts jobOwner_def pod_finish_def)
  show ?thesis
    using same_name_jobs_collide[OF st demo_job_facts(1) ids demo_job_facts(1) ids _ _ _ _ pod, of "''b''" "''u2''" True 9 "Inr []" 9 "Inr []"]
    by (simp add: Let_def demo_job_facts)
qed

definition demo_keyed :: db where
  "demo_keyed = demo_twins\<lparr>db_runs := [demo_run ''u1'' ''c/a/live'' 8 ''running'']\<rparr>"

lemma demo_keyed_facts: "db_wf demo_keyed" "all_up demo_keyed" "cj_ids demo_keyed = [''c/a/live'', ''c/b/live'']"
  "run_row demo_keyed ''u1'' = Some (demo_run ''u1'' ''c/a/live'' 8 ''running'')"
  by (simp_all add: db_wf_def wf_defs demo_keyed_def demo_twins_def demo_defs cl_ids_def cj_ids_def jr_ids_def
      cj_key_def all_up_def run_ok_def trigger_ok_def status_ok_def run_row_def)

theorem recovery_fails_stale_runs_witness:
  "\<exists>r'. run_row (w_db (Job_OnAdd ''c'' 60 (Inr []) (K_Job (demo_job ''a'' ''u1'')) True
       (demo_watch (restart_recovery 50 demo_keyed)))) ''u1'' = Some r'
     \<and> jr_status r' = ''running'' \<and> jr_exit r' = Some (- 1)"
proof -
  have "run_row demo_keyed (kj_uid (demo_job ''a'' ''u1'')) = Some (demo_run ''u1'' ''c/a/live'' 8 ''running'')"
    "jr_status (demo_run ''u1'' ''c/a/live'' 8 ''running'') = ''running''"
    "cronjob_key ''c'' (kj_ns (demo_job ''a'' ''u1'')) ''live'' \<in> set (cj_ids demo_keyed)"
    "w_db (demo_watch (restart_recovery 50 demo_keyed)) = restart_recovery 50 demo_keyed"
    using demo_keyed_facts by (simp_all add: demo_job_facts demo_run_def cronjob_key_def demo_watch_def)
  note facts = this
  note revived = recovery_fails_stale_runs[OF demo_keyed_facts(2,1), of 50, unfolded Let_def, THEN conjunct2,
    THEN conjunct2, THEN conjunct2, rule_format, where t = 60 and ps = "Inr []"]
  from revived[OF conjI[OF facts(1) conjI[OF facts(2) conjI[OF demo_job_facts(1) conjI[OF facts(3)
      conjI[OF demo_job_facts(5) facts(4)]]]]]]
  show ?thesis by (auto simp: demo_job_facts)
qed

theorem reconcile_converges_witness:
  "map cj_id (live_cronjobs (w_db (CronJob_Reconcile ''c'' 70
     [\<lparr>kcj_ns = ''b'', kcj_name = ''live'', kcj_schedule = [], kcj_zone = None, kcj_suspend = None, kcj_containers = [],
       kcj_last_success = None\<rparr>] (demo_watch demo_twins))) ''c'') = [''c/b/live'']"
proof -
  have live: "live_cronjobs (w_db (demo_watch demo_twins)) ''c''
      = [(demo_cronjob ''live'' None)\<lparr>cj_id := ''c/a/live'', cj_ns := ''a''\<rparr>,
         (demo_cronjob ''live'' None)\<lparr>cj_id := ''c/b/live'', cj_ns := ''b''\<rparr>]"
    by (simp add: live_cronjobs_def demo_watch_def demo_twins_def demo_cronjob_def)
  have "keyed_ids ''c'' (live_cronjobs (w_db (demo_watch demo_twins)) ''c'')"
    unfolding live by (simp add: keyed_ids_def demo_cronjob_def cronjob_key_def)
  moreover have "all_up (w_db (demo_watch demo_twins))" using demo_twins_facts by (simp add: demo_watch_def)
  ultimately show ?thesis
    using reconcile_converges[of "demo_watch demo_twins" "''c''" 70 "[\<lparr>kcj_ns = ''b'', kcj_name = ''live'', kcj_schedule = [],
      kcj_zone = None, kcj_suspend = None, kcj_containers = [], kcj_last_success = None\<rparr>]"]
    by (simp add: Let_def ListCronJobs_def live cronjob_key_def demo_cronjob_def)
qed

end
