(* ===== verification/Auth.thy ===== *)
theory Auth
  imports Go_Http
begin

text \<open>
  OIDC login and sessions (src/internal/auth/auth.go): the allow and operator lists, the
  signed session cookie, the session guard, the operator guard, and the login, callback and
  logout handlers.

  The identity provider (go-oidc and oauth2) is the argument \<open>od\<close>; the keyed hash, the
  digest and the JSON text of a session are the argument \<open>cr\<close>. base64, splitting, cookies
  and redirects are those of \<open>Go_Http\<close>.
\<close>

section \<open>Data\<close>

record config =
  cfg_redirect_url :: string
  cfg_session_key :: string
  cfg_allowed :: "string list"
  cfg_operators :: "string list"

record session =
  ss_subject :: string
  ss_email :: string
  ss_expiry :: int

record authenticator =
  au_key :: string
  au_secure :: bool
  au_allowed :: "string set option"
  au_operators :: "string set option"

text \<open>\<open>cr_mac key text\<close> is HMAC-SHA256, \<open>cr_digest\<close> SHA-256.\<close>

record crypto =
  cr_mac :: "string \<Rightarrow> string \<Rightarrow> string"
  cr_digest :: "string \<Rightarrow> string"
  js_encode :: "session \<Rightarrow> string option"
  js_decode :: "string \<Rightarrow> session option"

text \<open>
  The provider: the authorization URL for a state, the token response to a code (which may
  lack an id token), and the verified token's claims (subject and email), if they decode.
\<close>

record provider =
  od_url :: "string \<Rightarrow> string"
  od_exchange :: "string \<Rightarrow> string option option"
  od_verify :: "string \<Rightarrow> (string \<times> string) option option"

definition sessionCookie :: string where "sessionCookie = ''kubecron_session''"
definition stateCookie :: string where "stateCookie = ''kubecron_state''"
definition sessionTTL :: duration where "sessionTTL = 24 * hour"

section \<open>Construction and access lists\<close>

definition emailSet :: "string list \<Rightarrow> string set option" where
  "emailSet emails =
     (if emails = [] then None
      else Some (set (filter (\<lambda>e. e \<noteq> []) (map (\<lambda>e. to_lower (trim_space e)) emails))))"

datatype auth_error = Discovery | Short_Key | No_Random

definition NewAuthenticator ::
    "crypto \<Rightarrow> bool \<Rightarrow> string option \<Rightarrow> config \<Rightarrow> auth_error + authenticator" where
  "NewAuthenticator cr discovered random_key cfg =
     (if \<not> discovered then Inl Discovery
      else
        (let build = (\<lambda>key. Inr \<lparr>au_key = key, au_secure = has_prefix (cfg_redirect_url cfg) ''https://'',
                              au_allowed = emailSet (cfg_allowed cfg),
                              au_operators = emailSet (cfg_operators cfg)\<rparr>)
         in if cfg_session_key cfg \<noteq> [] then
              (if length (cfg_session_key cfg) < 32 then Inl Short_Key
               else build (cr_digest cr (cfg_session_key cfg)))
            else (case random_key of None \<Rightarrow> Inl No_Random | Some key \<Rightarrow> build key)))"

definition listed :: "string set option \<Rightarrow> string \<Rightarrow> bool" where
  "listed l email \<longleftrightarrow> (case l of None \<Rightarrow> True | Some es \<Rightarrow> to_lower email \<in> es)"

definition IsAllowed :: "authenticator \<Rightarrow> string \<Rightarrow> bool" where
  "IsAllowed a email \<longleftrightarrow> listed (au_allowed a) email"

definition CanOperate :: "authenticator \<Rightarrow> string \<Rightarrow> bool" where
  "CanOperate a email \<longleftrightarrow> listed (au_operators a) email"

section \<open>The signed session\<close>

definition signature :: "crypto \<Rightarrow> authenticator \<Rightarrow> string \<Rightarrow> string" where
  "signature cr a payload = b64_encode (cr_mac cr (au_key a) payload)"

definition sign :: "crypto \<Rightarrow> authenticator \<Rightarrow> session \<Rightarrow> string option" where
  "sign cr a s =
     (case js_encode cr s of
        None \<Rightarrow> None
      | Some b \<Rightarrow> (let payload = b64_encode b in Some (payload @ ''.'' @ signature cr a payload)))"

definition parse :: "crypto \<Rightarrow> authenticator \<Rightarrow> gotime \<Rightarrow> string \<Rightarrow> session option" where
  "parse cr a now cookie =
     (case split_n 2 CHR ''.'' cookie of
        [payload, mac] \<Rightarrow>
          (if signature cr a payload \<noteq> mac then None
           else (case b64_decode payload of
                   None \<Rightarrow> None
                 | Some b \<Rightarrow>
                     (case js_decode cr b of
                        None \<Rightarrow> None
                      | Some s \<Rightarrow> (if ss_expiry s \<le> unix_sec now then None else Some s))))
      | _ \<Rightarrow> None)"

section \<open>Redirect targets and random text\<close>

definition safeRedirect :: "string \<Rightarrow> string \<Rightarrow> string" where
  "safeRedirect raw fallback =
     (if has_prefix raw ''/'' \<and> \<not> has_prefix raw ''//'' then raw else fallback)"

definition redirectToLogin :: "'a handler" where
  "redirectToLogin r x =
     (let target = ''/auth/login?redirect='' @ request_uri r in
      if header_get r ''HX-Request'' = ''true''
      then write_header 401 (set_header ''HX-Redirect'' target x)
      else http_redirect target 302 x)"

definition randStr :: "nat \<Rightarrow> request \<Rightarrow> string" where
  "randStr n r = take n (b64_encode (take n (rq_rand r)))"

section \<open>Guards\<close>

definition RequireOperator :: "authenticator \<Rightarrow> 'a handler \<Rightarrow> 'a handler" where
  "RequireOperator a next r x =
     (if \<not> CanOperate a (rq_email r) then http_error ''forbidden: read-only access'' 403 x
      else next r x)"

definition session_exempt :: "string \<Rightarrow> bool" where
  "session_exempt p \<longleftrightarrow>
     p = ''/healthz'' \<or> p = ''/readyz'' \<or> p = ''/metrics'' \<or> has_prefix p ''/auth/''"

definition request_session :: "crypto \<Rightarrow> authenticator \<Rightarrow> request \<Rightarrow> session option" where
  "request_session cr a r =
     (case cookie_get r sessionCookie of None \<Rightarrow> None | Some c \<Rightarrow> parse cr a (rq_now r) c)"

definition Middleware :: "crypto \<Rightarrow> authenticator \<Rightarrow> 'a handler \<Rightarrow> 'a handler" where
  "Middleware cr a next r x =
     (if session_exempt (url_path r) then next r x
      else (case request_session cr a r of
              None \<Rightarrow> redirectToLogin r x
            | Some s \<Rightarrow> next (r\<lparr>rq_email := ss_email s\<rparr>) x))"

section \<open>Login, callback, logout\<close>

definition state_cookie :: "authenticator \<Rightarrow> string \<Rightarrow> set_cookie" where
  "state_cookie a st =
     \<lparr>ck_name = stateCookie, ck_value = st, ck_path = ''/auth/callback'', ck_max_age = 600,
      ck_http_only = True, ck_same_site = Lax, ck_secure = au_secure a\<rparr>"

definition session_cookie :: "authenticator \<Rightarrow> string \<Rightarrow> set_cookie" where
  "session_cookie a v =
     \<lparr>ck_name = sessionCookie, ck_value = v, ck_path = ''/'', ck_max_age = sessionTTL div second,
      ck_http_only = True, ck_same_site = Lax, ck_secure = au_secure a\<rparr>"

definition login_state :: "request \<Rightarrow> string" where
  "login_state r =
     randStr 16 r @ '':'' @ b64_encode (safeRedirect (query_get r ''redirect'') ''/'')"

definition HandleLogin :: "provider \<Rightarrow> authenticator \<Rightarrow> 'a handler" where
  "HandleLogin od a r x =
     http_redirect (od_url od (login_state r)) 302 (SetCookie (state_cookie a (randStr 16 r)) x)"

definition callback_redirect :: "string \<Rightarrow> string" where
  "callback_redirect part =
     (case b64_decode part of None \<Rightarrow> ''/'' | Some dec \<Rightarrow> safeRedirect dec ''/'')"

definition grant_session ::
    "crypto \<Rightarrow> authenticator \<Rightarrow> string \<Rightarrow> string \<times> string \<Rightarrow> 'a handler" where
  "grant_session cr a redirect claims r x =
     (case claims of
        (sub, email) \<Rightarrow>
          (if \<not> IsAllowed a email
           then http_error ''forbidden: this account is not authorized'' 403 x
           else (case sign cr a \<lparr>ss_subject = sub, ss_email = email,
                               ss_expiry = unix_sec (rq_now r + sessionTTL)\<rparr> of
                   None \<Rightarrow> http_error ''session signing failed'' 500 x
                 | Some signed \<Rightarrow>
                     http_redirect redirect 302 (SetCookie (session_cookie a signed) x))))"

definition exchange_code ::
    "crypto \<Rightarrow> provider \<Rightarrow> authenticator \<Rightarrow> string \<Rightarrow> 'a handler" where
  "exchange_code cr od a redirect r x =
     (case od_exchange od (query_get r ''code'') of
        None \<Rightarrow> http_error ''token exchange failed'' 500 x
      | Some None \<Rightarrow> http_error ''no id_token in response'' 500 x
      | Some (Some raw) \<Rightarrow>
          (case od_verify od raw of
             None \<Rightarrow> http_error ''token verification failed'' 401 x
           | Some None \<Rightarrow> http_error ''claims extraction failed'' 500 x
           | Some (Some claims) \<Rightarrow> grant_session cr a redirect claims r x))"

definition HandleCallback :: "crypto \<Rightarrow> provider \<Rightarrow> authenticator \<Rightarrow> 'a handler" where
  "HandleCallback cr od a r x =
     (case cookie_get r stateCookie of
        None \<Rightarrow> http_error ''missing state cookie'' 400 x
      | Some sc \<Rightarrow>
          (case split_n 2 CHR '':'' (query_get r ''state'') of
             [st, part] \<Rightarrow>
               (if st \<noteq> sc then http_error ''state mismatch'' 400 x
                else exchange_code cr od a (callback_redirect part) r
                       (SetCookie \<lparr>ck_name = stateCookie, ck_value = [], ck_path = ''/auth/callback'',
                                   ck_max_age = - 1, ck_http_only = False,
                                   ck_same_site = SiteDefault, ck_secure = False\<rparr> x))
           | _ \<Rightarrow> http_error ''state mismatch'' 400 x))"

definition HandleLogout :: "authenticator \<Rightarrow> 'a handler" where
  "HandleLogout a r x =
     (let x1 = SetCookie \<lparr>ck_name = sessionCookie, ck_value = [], ck_path = ''/'', ck_max_age = - 1,
                          ck_http_only = True, ck_same_site = SiteDefault,
                          ck_secure = au_secure a\<rparr> x
      in if header_get r ''HX-Request'' = ''true''
         then write_header 200 (set_header ''HX-Redirect'' ''/auth/logged-out'' x1)
         else http_redirect ''/auth/logged-out'' 303 x1)"

end
