(* ===== verification/Http_Guards.thy ===== *)
theory Http_Guards
  imports Auth
begin

text \<open>
  The middlewares of src/internal/api: \<open>rate_limiter.go\<close>, \<open>csrf.go\<close>, \<open>bearer.go\<close> and
  \<open>middleware.go\<close>, with the JSON error writer of \<open>handlers_runs.go\<close>. Log lines are
  left out; the request counter is the field \<open>x_counts\<close>, the observations of the latency
  histogram by route are \<open>x_latency\<close>.
\<close>

section \<open>JSON errors\<close>

definition json_error :: "string \<Rightarrow> string" where
  "json_error msg =
     CHR ''{'' # CHR 0x22 # ''error'' @ CHR 0x22 # CHR '':'' # CHR 0x22 # msg @ [CHR 0x22, CHR ''}'', CHR 0x0A]"

definition writeJSON :: "nat \<Rightarrow> string \<Rightarrow> 'a exchange \<Rightarrow> 'a exchange" where
  "writeJSON code body x =
     write_body body (write_header code (set_header ''Content-Type'' ''application/json'' x))"

definition writeError :: "nat \<Rightarrow> string \<Rightarrow> 'a exchange \<Rightarrow> 'a exchange" where
  "writeError code msg x = writeJSON code (json_error msg) x"

section \<open>Rate limiting\<close>

definition allow :: "int \<Rightarrow> duration \<Rightarrow> string \<Rightarrow> gotime \<Rightarrow> buckets \<Rightarrow> bool \<times> buckets" where
  "allow limit window ip now bs =
     (case bs ip of
        None \<Rightarrow> (True, bs(ip \<mapsto> (1, now + window)))
      | Some (n, reset) \<Rightarrow>
          (if reset < now then (True, bs(ip \<mapsto> (1, now + window)))
           else if limit \<le> n then (False, bs)
           else (True, bs(ip \<mapsto> (n + 1, reset)))))"

text \<open>\<open>net.SplitHostPort\<close>: the host, if the address has the form host:port or [host]:port.\<close>

definition split_host :: "string \<Rightarrow> string option" where
  "split_host s =
     (case split_at CHR '':'' (rev s) of
        (_, None) \<Rightarrow> None
      | (p, Some h) \<Rightarrow>
          (if has_prefix s ''['' then
             (case split_at CHR '']'' (tl s) of
                (host, Some rest) \<Rightarrow>
                  (if rest = CHR '':'' # rev p \<and> CHR ''['' \<notin> set (tl s) \<and> CHR '']'' \<notin> set rest
                   then Some host else None)
              | _ \<Rightarrow> None)
           else if CHR '':'' \<in> set h \<or> CHR ''['' \<in> set s \<or> CHR '']'' \<in> set s then None
           else Some (rev h)))"

definition remote_ip :: "request \<Rightarrow> string" where
  "remote_ip r = (case split_host (rq_remote r) of None \<Rightarrow> rq_remote r | Some ip \<Rightarrow> ip)"

text \<open>Each limiter has buckets of its own, read by \<open>rd\<close> and replaced by \<open>wr\<close>.\<close>

definition RateLimit ::
    "int \<Rightarrow> duration \<Rightarrow> ('a exchange \<Rightarrow> buckets) \<Rightarrow> (buckets \<Rightarrow> 'a exchange \<Rightarrow> 'a exchange)
     \<Rightarrow> 'a handler \<Rightarrow> 'a handler" where
  "RateLimit limit window rd wr next r x =
     (case allow limit window (remote_ip r) (rq_now r) (rd x) of
        (ok, bs) \<Rightarrow>
          (if \<not> ok then writeError 429 ''rate limit exceeded'' (set_header ''Retry-After'' ''60'' (wr bs x))
           else next r (wr bs x)))"

section \<open>CSRF\<close>

definition csrfCookieName :: string where "csrfCookieName = ''csrf_token''"
definition csrfHeaderName :: string where "csrfHeaderName = ''X-CSRF-Token''"

definition newCSRFToken :: "request \<Rightarrow> string" where
  "newCSRFToken r =
     concat (map (\<lambda>c. [hex_digit (byte c div 16), hex_digit (byte c mod 16)]) (take 16 (rq_rand r)))"

definition EnsureCSRFCookie :: "bool \<Rightarrow> 'a handler \<Rightarrow> 'a handler" where
  "EnsureCSRFCookie secure next r x =
     next r (if cookie_get r csrfCookieName = None
             then SetCookie \<lparr>ck_name = csrfCookieName, ck_value = newCSRFToken r, ck_path = ''/'',
                             ck_max_age = 0, ck_http_only = False, ck_same_site = Strict,
                             ck_secure = secure\<rparr> x
             else x)"

definition CSRFProtect :: "'a handler \<Rightarrow> 'a handler" where
  "CSRFProtect next r x =
     (if rq_method r = ''POST'' then
        (case cookie_get r csrfCookieName of
           None \<Rightarrow> writeError 403 ''missing CSRF token'' x
         | Some v \<Rightarrow>
             (if v = [] then writeError 403 ''missing CSRF token'' x
              else if header_get r csrfHeaderName \<noteq> v then writeError 403 ''invalid CSRF token'' x
              else next r x))
      else next r x)"

section \<open>The bearer token\<close>

definition bearerToken :: "request \<Rightarrow> string option" where
  "bearerToken r =
     (let h = header_get r ''Authorization'' in
      if length h \<le> 7 \<or> \<not> equal_fold (take 7 h) ''bearer '' then None
      else Some (trim_space (drop 7 h)))"

definition unauthorized :: "string \<Rightarrow> 'a exchange \<Rightarrow> 'a exchange" where
  "unauthorized msg x =
     writeError 401 msg
       (set_header ''WWW-Authenticate'' (''Bearer realm='' @ CHR 0x22 # ''kubecron'' @ [CHR 0x22]) x)"

definition BearerAuth :: "crypto \<Rightarrow> string \<Rightarrow> 'a handler \<Rightarrow> 'a handler" where
  "BearerAuth cr token next r x =
     (if url_path r = ''/healthz'' \<or> url_path r = ''/readyz'' then next r x
      else (case bearerToken r of
              None \<Rightarrow> unauthorized ''missing bearer token'' x
            | Some presented \<Rightarrow>
                (if cr_digest cr presented \<noteq> cr_digest cr token
                 then unauthorized ''invalid bearer token'' x
                 else next r x)))"

section \<open>Logging, metrics, panics, headers\<close>

definition Logger :: "'a handler \<Rightarrow> 'a handler" where
  "Logger next r x = next r x"

text \<open>The status the wrapping writer remembers: the last \<open>WriteHeader\<close>, 200 without one.\<close>

fun rw_status :: "wr_call list \<Rightarrow> nat" where
  "rw_status calls = foldl (\<lambda>st c. case c of Code n \<Rightarrow> n | Body _ \<Rightarrow> st) 200 calls"

definition route_label :: "string \<Rightarrow> string" where
  "route_label pat = (if pat = [] then ''unmatched'' else pat)"

definition Instrument :: "'a handler \<Rightarrow> 'a handler" where
  "Instrument next r x =
     (let x' = next r x in
      if x_panic x' then x'
      else (let key = (route_label (x_pattern x'), rq_method r,
                       rw_status (drop (length (x_out x)) (x_out x')))
            in x'\<lparr>x_counts := (x_counts x')(key := x_counts x' key + 1),
                  x_latency := (x_latency x')(fst key := x_latency x' (fst key) @ [seconds_of (rq_took r)])\<rparr>))"

definition Recover :: "'a handler \<Rightarrow> 'a handler" where
  "Recover next r x =
     (let x' = next r x in
      if x_panic x' then writeJSON 500 (json_error ''internal server error'') (x'\<lparr>x_panic := False\<rparr>)
      else x')"

definition SecurityHeaders :: "'a handler \<Rightarrow> 'a handler" where
  "SecurityHeaders next r x =
     next r (set_header ''Referrer-Policy'' ''same-origin''
              (set_header ''X-Frame-Options'' ''DENY''
                (set_header ''X-Content-Type-Options'' ''nosniff'' x)))"

definition Chain :: "'a handler \<Rightarrow> ('a handler \<Rightarrow> 'a handler) list \<Rightarrow> 'a handler" where
  "Chain h middlewares = foldr (\<lambda>m inner. m inner) middlewares h"

lemmas guard_defs = RateLimit_def EnsureCSRFCookie_def CSRFProtect_def BearerAuth_def Logger_def
  Instrument_def Recover_def SecurityHeaders_def Middleware_def RequireOperator_def

section \<open>What every guard promises\<close>

text \<open>
  A guard either answers itself, leaving the application alone, or hands the request (with
  what it adds to the context) and the exchange to the next handler; which one depends on
  the request only.
\<close>

locale guard =
  fixes mw :: "'a handler \<Rightarrow> 'a handler"
    and admits :: "request \<Rightarrow> bool"
    and enrich :: "request \<Rightarrow> request"
    and refuse :: "request \<Rightarrow> 'a exchange \<Rightarrow> 'a exchange"
  assumes admitted: "admits r \<Longrightarrow> mw next r x = next (enrich r) x"
    and refused: "\<not> admits r \<Longrightarrow> mw next r x = refuse r x"
    and refusal_app: "x_app (refuse r x) = x_app x"
    and refusal_panic: "x_panic (refuse r x) = x_panic x"
    and refusal_pattern: "x_pattern (refuse r x) = x_pattern x"
begin

lemma app_change_admitted: "x_app (mw next r x) \<noteq> x_app x \<Longrightarrow> admits r"
  by (metis refused refusal_app)

lemma app_kept: "(\<And>r x. x_app (next r x) = x_app x) \<Longrightarrow> x_app (mw next r x) = x_app x"
  by (cases "admits r") (simp_all add: admitted refused refusal_app)

lemma refused_ignores_next: "\<not> admits r \<Longrightarrow> mw next r x = mw next' r x"
  by (simp add: refused)

end

lemma writer_frame [simp]:
  "x_app (set_header k v x) = x_app x" "x_app (SetCookie c x) = x_app x"
  "x_app (write_header n x) = x_app x" "x_app (write_body b x) = x_app x"
  "x_panic (set_header k v x) = x_panic x" "x_panic (SetCookie c x) = x_panic x"
  "x_panic (write_header n x) = x_panic x" "x_panic (write_body b x) = x_panic x"
  "x_pattern (set_header k v x) = x_pattern x" "x_pattern (SetCookie c x) = x_pattern x"
  "x_pattern (write_header n x) = x_pattern x" "x_pattern (write_body b x) = x_pattern x"
  "x_out (set_header k v x) = x_out x" "x_out (SetCookie c x) = x_out x"
  "x_out (write_header n x) = x_out x @ [Code n]" "x_out (write_body b x) = x_out x @ [Body b]"
  by (simp_all add: writer_defs)

lemma answer_frame [simp]:
  "x_app (http_error m n x) = x_app x" "x_app (http_redirect u n x) = x_app x"
  "x_app (writeError n m x) = x_app x" "x_app (unauthorized m x) = x_app x"
  "x_app (redirectToLogin r x) = x_app x" "x_app (writeJSON n m x) = x_app x"
  "x_panic (http_error m n x) = x_panic x" "x_panic (http_redirect u n x) = x_panic x"
  "x_panic (writeError n m x) = x_panic x" "x_panic (unauthorized m x) = x_panic x"
  "x_panic (redirectToLogin r x) = x_panic x" "x_panic (writeJSON n m x) = x_panic x"
  "x_pattern (http_error m n x) = x_pattern x" "x_pattern (http_redirect u n x) = x_pattern x"
  "x_pattern (writeError n m x) = x_pattern x" "x_pattern (unauthorized m x) = x_pattern x"
  "x_pattern (redirectToLogin r x) = x_pattern x" "x_pattern (writeJSON n m x) = x_pattern x"
  by (simp_all add: http_error_def http_redirect_def writeError_def writeJSON_def unauthorized_def
      redirectToLogin_def Let_def)

definition csrf_ok :: "request \<Rightarrow> bool" where
  "csrf_ok r \<longleftrightarrow> rq_method r \<noteq> ''POST'' \<or>
     (\<exists>v. cookie_get r csrfCookieName = Some v \<and> v \<noteq> [] \<and> header_get r csrfHeaderName = v)"

definition bearer_ok :: "crypto \<Rightarrow> string \<Rightarrow> request \<Rightarrow> bool" where
  "bearer_ok cr token r \<longleftrightarrow> url_path r = ''/healthz'' \<or> url_path r = ''/readyz'' \<or>
     (\<exists>p. bearerToken r = Some p \<and> cr_digest cr p = cr_digest cr token)"

definition session_ok :: "crypto \<Rightarrow> authenticator \<Rightarrow> request \<Rightarrow> bool" where
  "session_ok cr a r \<longleftrightarrow> session_exempt (url_path r) \<or> request_session cr a r \<noteq> None"

definition as_user :: "crypto \<Rightarrow> authenticator \<Rightarrow> request \<Rightarrow> request" where
  "as_user cr a r =
     (if session_exempt (url_path r) then r
      else case request_session cr a r of None \<Rightarrow> r | Some s \<Rightarrow> r\<lparr>rq_email := ss_email s\<rparr>)"

interpretation csrf: guard CSRFProtect csrf_ok "\<lambda>r. r"
  "\<lambda>r x. writeError 403 (if cookie_get r csrfCookieName \<in> {None, Some []} then ''missing CSRF token''
                         else ''invalid CSRF token'') x"
  by unfold_locales
    (auto simp: CSRFProtect_def csrf_ok_def split: option.splits)

interpretation bearer: guard "BearerAuth cr token" "bearer_ok cr token" "\<lambda>r. r"
  "\<lambda>r x. unauthorized (if bearerToken r = None then ''missing bearer token''
                       else ''invalid bearer token'') x"
  for cr token
  by unfold_locales
    (auto simp: BearerAuth_def bearer_ok_def split: option.splits)

interpretation sessions: guard "Middleware cr a" "session_ok cr a" "as_user cr a" redirectToLogin
  for cr a
  by unfold_locales
    (auto simp: Middleware_def session_ok_def as_user_def split: option.splits)

interpretation operators: guard "RequireOperator a" "\<lambda>r. CanOperate a (rq_email r)" "\<lambda>r. r"
  "\<lambda>r x. http_error ''forbidden: read-only access'' 403 x"
  for a
  by unfold_locales
    (auto simp: RequireOperator_def)

end
