(* ===== verification/Modes.thy ===== *)
theory Modes
  imports Kube_Prelude
begin

text \<open>The two modes of the program (src/internal/api/mode.go).\<close>

datatype mode = ModeUI | ModeServer

text \<open>The error carries the text that \<open>fmt.Errorf\<close> quotes.\<close>

datatype mode_parse_error = Unknown_Mode string

definition ParseMode :: "string \<Rightarrow> mode_parse_error + mode" where
  "ParseMode s =
     (if s \<in> {'''', ''ui'', ''standalone''} then Inr ModeUI
      else if s \<in> {''server'', ''collector''} then Inr ModeServer
      else Inl (Unknown_Mode s))"

definition ServesUI :: "mode \<Rightarrow> bool" where "ServesUI m \<longleftrightarrow> m = ModeUI"
definition AllowsMutation :: "mode \<Rightarrow> bool" where "AllowsMutation m \<longleftrightarrow> m = ModeUI"

definition mode_text :: "mode \<Rightarrow> string" where
  "mode_text m = (case m of ModeUI \<Rightarrow> ''ui'' | ModeServer \<Rightarrow> ''server'')"

lemma ParseMode_text [simp]: "ParseMode (mode_text m) = Inr m"
  by (cases m) (simp_all add: ParseMode_def mode_text_def)

end
