(* ===== verification/Api.thy ===== *)
theory Api
  imports Sse Kube_Metrics Keyed_Table Http_Guards Modes
begin

text \<open>
  The JSON handlers: the collector contract of src/internal/api/handlers_v1.go and the
  dashboard's own reads in handlers_runs.go, handlers_cronjob.go and handlers_cluster.go, with
  the run cursors. A handler is a function on exchanges, as in \<open>Go_Http\<close>; what it answers is the
  byte text of the JSON the source encodes.
\<close>

section \<open>What the handlers are given\<close>

record collector_info =
  ci_mode :: mode
  ci_retention_days :: int
  ci_log_retention_days :: int
  ci_sample_interval :: int

text \<open>
  The handler's fields that no request changes, and the texts that depend on the clock and the
  zone of the process: \<open>ev_tx\<close> and \<open>ev_dn\<close> are those of the queries, \<open>ev_stamp\<close> writes an instant
  in RFC 3339 with nanoseconds, \<open>ev_parse\<close> reads it back, \<open>ev_format\<close> is \<open>Time.Format\<close>.
  \<open>ev_synced\<close> are the controllers' answers; \<open>ev_bc\<close> is the broadcaster and \<open>ev_events\<close> what a
  followed stream delivers.
\<close>

record ('s, 'l) api_env =
  ev_cron :: "('s, 'l) cron_lib"
  ev_tx :: "gotime \<Rightarrow> string"
  ev_dn :: "int \<Rightarrow> string"
  ev_stamp :: "gotime \<Rightarrow> string"
  ev_stamp_utc :: "gotime \<Rightarrow> string"
  ev_parse :: "string \<Rightarrow> gotime option"
  ev_format :: "string \<Rightarrow> gotime \<Rightarrow> string"
  ev_info :: collector_info
  ev_synced :: "bool list"
  ev_bc :: broadcaster
  ev_events :: "sse_event list"

text \<open>The state behind the routes: the store, the registry, and the clusters' own state.\<close>

record 'k app_state =
  ap_db :: db
  ap_registry :: registry
  ap_kube :: 'k

definition path_value :: "request \<Rightarrow> nat \<Rightarrow> string" where
  "path_value r n = (if n < length (rq_params r) then rq_params r ! n else [])"

abbreviation store_of :: "'k app_state exchange \<Rightarrow> db" where "store_of x \<equiv> ap_db (x_app x)"

definition answer_json :: "nat \<Rightarrow> json \<Rightarrow> 'a exchange \<Rightarrow> 'a exchange" where
  "answer_json code j x = writeJSON code (json_encode j) x"

section \<open>Stored values as JSON (models.go)\<close>

definition J_Time :: "('s, 'l) api_env \<Rightarrow> gotime \<Rightarrow> json" where
  "J_Time ev t = J_Str (ev_stamp ev t)"

definition job_run_json :: "('s, 'l) api_env \<Rightarrow> job_run \<Rightarrow> json" where
  "job_run_json ev r =
     J_Obj ([(''id'', J_Str (jr_id r)), (''cronjob_id'', J_Str (jr_cronjob r)),
             (''pod_name'', J_Str (jr_pod r))]
            @ opt_field ''node_name'' J_Str (jr_node r)
            @ opt_field ''container_image'' J_Str (jr_image r)
            @ [(''trigger'', J_Str (jr_trigger r)), (''started_at'', J_Time ev (jr_started r))]
            @ opt_field ''finished_at'' (J_Time ev) (jr_finished r)
            @ [(''status'', J_Str (jr_status r))]
            @ opt_field ''exit_code'' J_Int (jr_exit r)
            @ [(''retry_count'', J_Int (jr_retry r)), (''log_size_bytes'', J_Int (jr_log_size r))]
            @ opt_field ''duration_ms'' J_Int (jr_duration r)
            @ opt_field ''avg_cpu_millicores'' J_Int (jr_avg_cpu r)
            @ opt_field ''max_cpu_millicores'' J_Int (jr_max_cpu r)
            @ opt_field ''avg_memory_bytes'' J_Int (jr_avg_mem r)
            @ opt_field ''max_memory_bytes'' J_Int (jr_max_mem r))"

definition sample_json :: "('s, 'l) api_env \<Rightarrow> resource_sample \<Rightarrow> json" where
  "sample_json ev s =
     J_Obj [(''id'', J_Int (rs_id s)), (''run_id'', J_Str (rs_run s)),
            (''sampled_at'', J_Time ev (rs_at s)), (''cpu_millicores'', J_Int (rs_cpu s)),
            (''memory_bytes'', J_Int (rs_mem s))]"

definition run_stats_json :: "run_stats \<Rightarrow> json" where
  "run_stats_json s =
     J_Obj ([(''total'', J_Int (st_total s)), (''succeeded'', J_Int (st_succeeded s)),
             (''failed'', J_Int (st_failed s))]
            @ opt_field ''avg_duration_ms'' J_Int (st_avg_duration s)
            @ opt_field ''max_duration_ms'' J_Int (st_max_duration s)
            @ opt_field ''avg_cpu_millicores'' J_Int (st_avg_cpu s)
            @ opt_field ''avg_memory_bytes'' J_Int (st_avg_mem s))"

definition daily_json :: "daily_stat \<Rightarrow> json" where
  "daily_json d =
     J_Obj [(''day'', J_Str (dy_day d)), (''total'', J_Int (dy_total d)),
            (''succeeded'', J_Int (dy_succeeded d)), (''running'', J_Int (dy_running d))]"

section \<open>Helpers of the contract\<close>

definition APIVersion :: string where "APIVersion = ''v1''"
definition Version :: string where "Version = ''0.4.1''"
definition v1DefaultRunLimit :: int where "v1DefaultRunLimit = 100"
definition v1MaxRunLimit :: int where "v1MaxRunLimit = 1000"
definition v1DefaultHeatmapDays :: int where "v1DefaultHeatmapDays = 90"
definition sparklineRuns :: int where "sparklineRuns = 20"

definition clampLimit :: "string \<Rightarrow> int \<Rightarrow> int \<Rightarrow> int" where
  "clampLimit raw d m =
     (if raw = [] then d
      else case Atoi raw of
             None \<Rightarrow> d
           | Some n \<Rightarrow> if n \<le> 0 then d else if m > 0 \<and> n > m then m else n)"

record cronjob_ref =
  rf_id :: string
  rf_cluster :: string
  rf_ns :: string
  rf_name :: string

definition splitCronJobID :: "string \<Rightarrow> cronjob_ref" where
  "splitCronJobID i =
     (let parts = split_n 3 CHR ''/'' i; part = (\<lambda>n. if n < length parts then parts ! n else []) in
      \<lparr>rf_id = i, rf_cluster = part 0, rf_ns = part 1, rf_name = part 2\<rparr>)"

definition ref_json :: "cronjob_ref \<Rightarrow> json" where
  "ref_json c =
     J_Obj [(''id'', J_Str (rf_id c)), (''cluster_id'', J_Str (rf_cluster c)),
            (''namespace'', J_Str (rf_ns c)), (''name'', J_Str (rf_name c))]"

definition clusterByID :: "db \<Rightarrow> string \<Rightarrow> cluster option" where
  "clusterByID db i =
     (case ListClusters db of Inl _ \<Rightarrow> None | Inr cs \<Rightarrow> find (\<lambda>c. cl_id c = i) cs)"

definition lastRunForSchedule :: "job_run option \<Rightarrow> last_run option" where
  "lastRunForSchedule r =
     (case r of
        None \<Rightarrow> None
      | Some j \<Rightarrow> Some \<lparr>lr_started = jr_started j, lr_running = (jr_status j = ''running'')\<rparr>)"

definition runCursor :: "('s, 'l) api_env \<Rightarrow> job_run \<Rightarrow> string" where
  "runCursor ev r = ev_stamp ev (jr_started r)"

text \<open>\<open>strings.Replace(raw, " ", "+", 1)\<close>\<close>

fun plus_for_space :: "string \<Rightarrow> string" where
  "plus_for_space [] = []"
| "plus_for_space (c # s) = (if c = CHR '' '' then CHR ''+'' # s else c # plus_for_space s)"

definition parseRunCursor :: "('s, 'l) api_env \<Rightarrow> string \<Rightarrow> gotime" where
  "parseRunCursor ev raw =
     (if raw = [] then zero_time
      else case ev_parse ev raw of
             Some t \<Rightarrow> t
           | None \<Rightarrow> (case ev_parse ev (plus_for_space raw) of Some t \<Rightarrow> t | None \<Rightarrow> zero_time))"

section \<open>Discovery and clusters\<close>

definition clusterV1_json :: "('s, 'l) api_env \<Rightarrow> cluster \<Rightarrow> json" where
  "clusterV1_json ev c =
     J_Obj [(''id'', J_Str (cl_id c)), (''name'', J_Str (cl_name c)),
            (''metrics_enabled'', J_Bool (cl_metrics c)), (''observed_since'', J_Time ev (cl_created c))]"

definition toClustersV1 :: "('s, 'l) api_env \<Rightarrow> cluster list \<Rightarrow> json" where
  "toClustersV1 ev cs = J_List (map (clusterV1_json ev) cs)"

definition collector_capabilities :: "collector_info \<Rightarrow> json" where
  "collector_capabilities i =
     J_Obj [(''run_history'', J_Bool True), (''run_logs'', J_Bool True),
            (''resource_samples'', J_Bool True), (''live_log_stream'', J_Bool True),
            (''mutations'', J_Bool (AllowsMutation (ci_mode i)))]"

definition collector_response :: "('s, 'l) api_env \<Rightarrow> gotime \<Rightarrow> cluster list \<Rightarrow> json" where
  "collector_response ev now cs =
     (let i = ev_info ev in
      J_Obj [(''product'', J_Str ''kubecron''), (''version'', J_Str Version),
             (''api_version'', J_Str APIVersion), (''api_versions'', J_List [J_Str APIVersion]),
             (''mode'', J_Str (mode_text (ci_mode i))),
             (''read_only'', J_Bool (\<not> AllowsMutation (ci_mode i))),
             (''capabilities'', collector_capabilities i),
             (''retention'', J_Obj [(''run_days'', J_Int (ci_retention_days i)),
                                    (''log_days'', J_Int (ci_log_retention_days i))]),
             (''sample_interval_seconds'', J_Int (ci_sample_interval i)),
             (''clusters'', toClustersV1 ev cs), (''server_at'', J_Str (ev_stamp_utc ev now))])"

definition Collector :: "('s, 'l) api_env \<Rightarrow> 'k app_state handler" where
  "Collector ev r x =
     (case ListClusters (store_of x) of
        Inl _ \<Rightarrow> writeError 500 ''failed to list clusters'' x
      | Inr cs \<Rightarrow> answer_json 200 (collector_response ev (rq_now r) cs) x)"

definition ListClustersV1 :: "('s, 'l) api_env \<Rightarrow> 'k app_state handler" where
  "ListClustersV1 ev r x =
     (case ListClusters (store_of x) of
        Inl _ \<Rightarrow> writeError 500 ''failed to list clusters'' x
      | Inr cs \<Rightarrow> answer_json 200 (J_Obj [(''clusters'', toClustersV1 ev cs)]) x)"

section \<open>CronJobs\<close>

text \<open>
  Both listings compute the next run when the schedule is not empty and resolves; the contract
  adds the missed verdict.
\<close>

definition next_run_at :: "('s, 'l) api_env \<Rightarrow> gotime \<Rightarrow> cronjob \<Rightarrow> gotime option" where
  "next_run_at ev now c =
     (if cj_schedule c = [] then None
      else case NextRun (ev_cron ev) (cj_schedule c) (TZ c) now of Inl _ \<Rightarrow> None | Inr t \<Rightarrow> Some t)"

definition missed_v1 :: "('s, 'l) api_env \<Rightarrow> gotime \<Rightarrow> cj_summary option \<Rightarrow> cronjob \<Rightarrow> bool" where
  "missed_v1 ev now s c =
     IsMissed (ev_cron ev) (cj_schedule c) (TZ c) (cj_suspended c)
       (lastRunForSchedule (map_option sm_last s)) now"

definition resources_json :: "(string option \<Rightarrow> string) \<Rightarrow> cronjob \<Rightarrow> json" where
  "resources_json f c =
     J_Obj [(''cpu_request'', J_Str (f (cj_cpu_request c))), (''cpu_limit'', J_Str (f (cj_cpu_limit c))),
            (''memory_request'', J_Str (f (cj_mem_request c))),
            (''memory_limit'', J_Str (f (cj_mem_limit c)))]"

definition cronJobV1 :: "('s, 'l) api_env \<Rightarrow> gotime \<Rightarrow> cj_summary option \<Rightarrow> cronjob \<Rightarrow> json" where
  "cronJobV1 ev now s c =
     J_Obj ([(''id'', J_Str (cj_id c)), (''cluster_id'', J_Str (cj_cluster c)),
             (''namespace'', J_Str (cj_ns c)), (''name'', J_Str (cj_name c)),
             (''schedule'', J_Str (cj_schedule c)), (''time_zone'', J_Str (TZ c)),
             (''suspended'', J_Bool (cj_suspended c))]
            @ opt_field ''next_run_at'' (J_Time ev) (next_run_at ev now c)
            @ [(''missed'', J_Bool (missed_v1 ev now s c))]
            @ opt_field ''last_successful_time'' (J_Time ev) (cj_last_success c)
            @ [(''resources'', resources_json strOrEmpty c)]
            @ opt_field ''last_run'' (job_run_json ev) (map_option sm_last s)
            @ opt_field ''stats_7d'' run_stats_json (map_option sm_stats s)
            @ [(''updated_at'', J_Time ev (cj_updated c))])"

definition ListCronJobsV1 :: "('s, 'l) api_env \<Rightarrow> 'k app_state handler" where
  "ListCronJobsV1 ev r x =
     (let cl = path_value r 0 in
      case ListCronJobs (store_of x) cl of
        Inl _ \<Rightarrow> writeError 500 ''failed to list cronjobs'' x
      | Inr cjs \<Rightarrow>
          (case GetCronJobSummaries (ev_tx ev) (ev_dn ev) (store_of x) cl sparklineRuns of
             Inl _ \<Rightarrow> writeError 500 ''failed to list cronjobs'' x
           | Inr smap \<Rightarrow>
               answer_json 200
                 (J_Obj [(''cluster_id'', J_Str cl),
                         (''cronjobs'', J_List (map (\<lambda>c. cronJobV1 ev (rq_now r) (smap (cj_id c)) c) cjs))]) x))"

text \<open>The dashboard's listing (handlers_cronjob.go): an unset quantity is an em dash.\<close>

definition cronJobResponse :: "('s, 'l) api_env \<Rightarrow> gotime \<Rightarrow> cj_summary option \<Rightarrow> cronjob \<Rightarrow> json" where
  "cronJobResponse ev now s c =
     J_Obj ([(''id'', J_Str (cj_id c)), (''namespace'', J_Str (cj_ns c)), (''name'', J_Str (cj_name c)),
             (''schedule'', J_Str (cj_schedule c))]
            @ (if TZ c = [] then [] else [(''time_zone'', J_Str (TZ c))])
            @ [(''suspended'', J_Bool (cj_suspended c))]
            @ opt_field ''next_run_at'' (J_Time ev) (next_run_at ev now c)
            @ [(''resources'', resources_json derefStr c)]
            @ opt_field ''last_run'' (job_run_json ev) (map_option sm_last s)
            @ opt_field ''stats_7d'' run_stats_json (map_option sm_stats s))"

definition ListCronJobs_handler :: "('s, 'l) api_env \<Rightarrow> 'k app_state handler" where
  "ListCronJobs_handler ev r x =
     (let cl = path_value r 0 in
      case ListCronJobs (store_of x) cl of
        Inl _ \<Rightarrow> writeError 500 ''failed to list cronjobs'' x
      | Inr cjs \<Rightarrow>
          (case GetCronJobSummaries (ev_tx ev) (ev_dn ev) (store_of x) cl sparklineRuns of
             Inl _ \<Rightarrow> writeError 500 ''failed to list cronjobs'' x
           | Inr smap \<Rightarrow>
               answer_json 200
                 (J_List (map (\<lambda>c. cronJobResponse ev (rq_now r) (smap (cj_id c)) c) cjs)) x))"

section \<open>Run history\<close>

text \<open>
  The slice of runs goes out as the store returns it: without rows it is nil, which is \<open>null\<close>.
\<close>

definition slice_json :: "('a \<Rightarrow> json) \<Rightarrow> 'a list \<Rightarrow> json" where
  "slice_json f xs = (if xs = [] then J_Null else J_List (map f xs))"

definition runs_page ::
    "('s, 'l) api_env \<Rightarrow> db \<Rightarrow> string \<Rightarrow> string \<Rightarrow> string
     \<Rightarrow> job_run list result \<times> string" where
  "runs_page ev db cj limit before =
     (let n = clampLimit limit v1DefaultRunLimit v1MaxRunLimit;
          res = ListJobRunsPaged (ev_tx ev) db cj (parseRunCursor ev before) n
      in (res, case res of
                 Inl _ \<Rightarrow> []
               | Inr runs \<Rightarrow> if int (length runs) = n then runCursor ev (last runs) else []))"

definition ListRunsV1 :: "('s, 'l) api_env \<Rightarrow> 'k app_state handler" where
  "ListRunsV1 ev r x =
     (let cl = path_value r 0; db = store_of x in
      case GetCronJobByName db cl (path_value r 1) (path_value r 2) of
        Inl _ \<Rightarrow> writeError 500 ''failed to look up cronjob'' x
      | Inr None \<Rightarrow> writeError 404 ''cronjob not found'' x
      | Inr (Some cj) \<Rightarrow>
          (case runs_page ev db (cj_id cj) (query_get r ''limit'') (query_get r ''before'') of
             (Inl _, _) \<Rightarrow> writeError 500 ''failed to list runs'' x
           | (Inr runs, cursor) \<Rightarrow>
               answer_json 200
                 (J_Obj ([(''cronjob_id'', J_Str (cj_id cj)), (''cluster_id'', J_Str (cj_cluster cj)),
                          (''namespace'', J_Str (cj_ns cj)), (''name'', J_Str (cj_name cj)),
                          (''runs'', slice_json (job_run_json ev) runs)]
                         @ (if cursor = [] then [] else [(''next_cursor'', J_Str cursor)])
                         @ opt_field ''observed_since'' (\<lambda>c. J_Time ev (cl_created c)) (clusterByID db cl)))
                 x))"

text \<open>The answer is a map: its keys are encoded in order.\<close>

definition DailyRunStatsV1 :: "('s, 'l) api_env \<Rightarrow> 'k app_state handler" where
  "DailyRunStatsV1 ev r x =
     (let cl = path_value r 0; db = store_of x in
      case GetCronJobByName db cl (path_value r 1) (path_value r 2) of
        Inl _ \<Rightarrow> writeError 500 ''failed to look up cronjob'' x
      | Inr None \<Rightarrow> writeError 404 ''cronjob not found'' x
      | Inr (Some cj) \<Rightarrow>
          (let days = clampLimit (query_get r ''days'') v1DefaultHeatmapDays 365 in
           case GetDailyRunStats (ev_tx ev) (ev_dn ev) db (cj_id cj) days of
             Inl _ \<Rightarrow> writeError 500 ''failed to get daily run stats'' x
           | Inr stats \<Rightarrow>
               answer_json 200
                 (J_Obj ([(''cluster_id'', J_Str (cj_cluster cj)), (''cronjob_id'', J_Str (cj_id cj)),
                          (''daily'', J_List (map daily_json stats)), (''days'', J_Int days),
                          (''name'', J_Str (cj_name cj)), (''namespace'', J_Str (cj_ns cj))]
                         @ opt_field ''observed_since'' (\<lambda>c. J_Time ev (cl_created c)) (clusterByID db cl)))
                 x))"

definition ListRuns_handler :: "('s, 'l) api_env \<Rightarrow> 'k app_state handler" where
  "ListRuns_handler ev r x =
     (let db = store_of x in
      case GetCronJobByName db (path_value r 0) (path_value r 1) (path_value r 2) of
        Inl _ \<Rightarrow> writeError 500 ''failed to look up cronjob'' x
      | Inr None \<Rightarrow> writeError 404 ''cronjob not found'' x
      | Inr (Some cj) \<Rightarrow>
          (case ListJobRuns (ev_tx ev) db (cj_id cj) of
             Inl _ \<Rightarrow> writeError 500 ''failed to list runs'' x
           | Inr runs \<Rightarrow> answer_json 200 (slice_json (job_run_json ev) runs) x))"

section \<open>One run\<close>

definition GetRunV1 :: "('s, 'l) api_env \<Rightarrow> 'k app_state handler" where
  "GetRunV1 ev r x =
     (case GetJobRun (store_of x) (path_value r 0) of
        Inl _ \<Rightarrow> writeError 500 ''failed to get run'' x
      | Inr None \<Rightarrow> writeError 404 ''run not found'' x
      | Inr (Some run) \<Rightarrow>
          answer_json 200
            (J_Obj [(''run'', job_run_json ev run), (''cronjob'', ref_json (splitCronJobID (jr_cronjob run)))]) x)"

definition samples_summary :: "job_run \<Rightarrow> json" where
  "samples_summary run =
     J_Obj (opt_field ''avg_cpu_millicores'' J_Int (jr_avg_cpu run)
            @ opt_field ''max_cpu_millicores'' J_Int (jr_max_cpu run)
            @ opt_field ''avg_memory_bytes'' J_Int (jr_avg_mem run)
            @ opt_field ''max_memory_bytes'' J_Int (jr_max_mem run))"

definition GetResourceSamplesV1 :: "('s, 'l) api_env \<Rightarrow> 'k app_state handler" where
  "GetResourceSamplesV1 ev r x =
     (let i = path_value r 0 in
      case GetJobRun (store_of x) i of
        Inl _ \<Rightarrow> writeError 500 ''failed to get run'' x
      | Inr None \<Rightarrow> writeError 404 ''run not found'' x
      | Inr (Some run) \<Rightarrow>
          (case GetResourceSamples (store_of x) i of
             Inl _ \<Rightarrow> writeError 500 ''failed to get resource samples'' x
           | Inr ss \<Rightarrow>
               answer_json 200
                 (J_Obj [(''run_id'', J_Str i),
                         (''interval_seconds'', J_Int (ci_sample_interval (ev_info ev))),
                         (''samples'', J_List (map (sample_json ev) ss)),
                         (''summary'', samples_summary run)]) x))"

definition GetResourceSamples_handler :: "('s, 'l) api_env \<Rightarrow> 'k app_state handler" where
  "GetResourceSamples_handler ev r x =
     (let i = path_value r 0 in
      case GetResourceSamples (store_of x) i of
        Inl _ \<Rightarrow> writeError 500 ''failed to get resource samples'' x
      | Inr ss \<Rightarrow>
          answer_json 200 (J_Obj [(''run_id'', J_Str i), (''samples'', slice_json (sample_json ev) ss)]) x)"

section \<open>Logs\<close>

definition log_line_json :: "('s, 'l) api_env \<Rightarrow> log_line \<Rightarrow> json" where
  "log_line_json ev l = J_Obj [(''ts'', J_Time ev (ll_ts l)), (''line'', J_Str (ll_line l))]"

record logs_v1 =
  lg_lines :: "log_line list"
  lg_size :: int
  lg_expired :: bool
  lg_truncated :: bool
  lg_running :: bool

definition logs_v1_of :: "job_run \<Rightarrow> log_line list \<Rightarrow> int \<Rightarrow> logs_v1" where
  "logs_v1_of run ls limit =
     \<lparr>lg_lines = ls, lg_size = jr_log_size run, lg_expired = (ls = [] \<and> jr_log_size run > 0),
      lg_truncated = (limit > 0 \<and> int (length ls) = limit), lg_running = (jr_status run = ''running'')\<rparr>"

definition logs_json :: "('s, 'l) api_env \<Rightarrow> string \<Rightarrow> logs_v1 \<Rightarrow> json" where
  "logs_json ev i g =
     J_Obj [(''run_id'', J_Str i), (''lines'', J_List (map (log_line_json ev) (lg_lines g))),
            (''log_size_bytes'', J_Int (lg_size g)), (''expired'', J_Bool (lg_expired g)),
            (''truncated'', J_Bool (lg_truncated g)), (''running'', J_Bool (lg_running g))]"

definition GetLogsV1 :: "('s, 'l) api_env \<Rightarrow> 'k app_state handler" where
  "GetLogsV1 ev r x =
     (let i = path_value r 0 in
      case GetJobRun (store_of x) i of
        Inl _ \<Rightarrow> writeError 500 ''failed to get run'' x
      | Inr None \<Rightarrow> writeError 404 ''run not found'' x
      | Inr (Some run) \<Rightarrow>
          (let limit = clampLimit (query_get r ''limit'') 0 0 in
           case GetLogLinesTail (store_of x) i limit of
             Inl _ \<Rightarrow> writeError 500 ''failed to get logs'' x
           | Inr ls \<Rightarrow> answer_json 200 (logs_json ev i (logs_v1_of run ls limit)) x))"

definition DownloadLogs :: "'k app_state handler" where
  "DownloadLogs r x =
     (let i = path_value r 0;
          ls = (case GetLogLines (store_of x) i of Inl _ \<Rightarrow> [] | Inr ls \<Rightarrow> ls)
      in fold (\<lambda>l. write_body (ll_line l @ [LF])) ls
           (set_header ''Content-Disposition''
              (Sprintf ''attachment; filename=\"run-%s.log\"'' [take 8 i])
             (set_header ''Content-Type'' ''text/plain; charset=utf-8'' x)))"

definition DownloadLogsV1 :: "'k app_state handler" where
  "DownloadLogsV1 r x = DownloadLogs r x"

text \<open>Following a run: the bytes of \<open>Sse\<close> behind the headers of an event stream.\<close>

definition StreamLogs_handler :: "('s, 'l) api_env \<Rightarrow> 'k app_state handler" where
  "StreamLogs_handler ev r x =
     (case StreamLogs (store_of x) (ev_bc ev) (path_value r 0) (ev_events ev) of
        Inl (code, msg) \<Rightarrow> writeError code msg x
      | Inr outs \<Rightarrow>
          fold (\<lambda>e. write_body (sse_frame e)) outs
            (set_header ''Connection'' ''keep-alive''
              (set_header ''X-Accel-Buffering'' ''no''
                (set_header ''Cache-Control'' ''no-cache''
                  (set_header ''Content-Type'' ''text/event-stream'' x)))))"

section \<open>Clusters of the dashboard, probes, the rest\<close>

text \<open>The cluster of a CronJob id: what precedes its first slash, when there is anything.\<close>

definition id_cluster :: "string \<Rightarrow> string option" where
  "id_cluster i = (case split_at CHR ''/'' i of (c, Some _) \<Rightarrow> if c = [] then None else Some c | _ \<Rightarrow> None)"

text \<open>The keys of the counting map are CronJob ids of runs.\<close>

definition runningCountByCluster :: "db \<Rightarrow> string \<Rightarrow> int" where
  "runningCountByCluster db cl =
     (case CountRunningRuns db of
        Inl _ \<Rightarrow> 0
      | Inr m \<Rightarrow>
          sum_list (map (\<lambda>i. case m i of None \<Rightarrow> 0 | Some n \<Rightarrow> if id_cluster i = Some cl then n else 0)
            (remdups (map jr_cronjob (db_runs db)))))"

definition cronjob_count :: "db \<Rightarrow> string \<Rightarrow> nat" where
  "cronjob_count db cl = (case ListCronJobs db cl of Inl _ \<Rightarrow> 0 | Inr cjs \<Rightarrow> length cjs)"

definition ListClusters_handler :: "'k app_state handler" where
  "ListClusters_handler r x =
     (let db = store_of x in
      case ListClusters db of
        Inl _ \<Rightarrow> writeError 500 ''failed to list clusters'' x
      | Inr cs \<Rightarrow>
          answer_json 200
            (J_List (map (\<lambda>c.
               J_Obj [(''id'', J_Str (cl_id c)), (''name'', J_Str (cl_name c)),
                      (''cronjob_count'', J_Int (int (cronjob_count db (cl_id c)))),
                      (''running_count'', J_Int (runningCountByCluster db (cl_id c))),
                      (''metrics_enabled'', J_Bool (cl_metrics c))]) cs)) x)"

definition Healthz :: "'a handler" where
  "Healthz r x = answer_json 200 (J_Obj [(''status'', J_Str ''ok'')]) x"

definition cacheSynced :: "('s, 'l) api_env \<Rightarrow> bool" where
  "cacheSynced ev \<longleftrightarrow> (\<forall>b \<in> set (ev_synced ev). b)"

definition Readyz :: "('s, 'l) api_env \<Rightarrow> 'a handler" where
  "Readyz ev r x =
     (if cacheSynced ev then answer_json 200 (J_Obj [(''status'', J_Str ''ok'')]) x
      else answer_json 503 (J_Obj [(''status'', J_Str ''not ready'')]) x)"

definition v1NotFound :: "'a handler" where
  "v1NotFound r x =
     answer_json 404
       (J_Obj [(''api_version'', J_Str APIVersion),
               (''error'', J_Str (Sprintf ''no such endpoint in collector API %s'' [APIVersion])),
               (''product'', J_Str ''kubecron'')]) x"

section \<open>Reading leaves the state alone\<close>

lemma answer_json_frame [simp]:
  "x_app (answer_json n j x) = x_app x" "x_panic (answer_json n j x) = x_panic x"
  by (simp_all add: answer_json_def)

lemma fold_body_app [simp]: "x_app (fold (\<lambda>e. write_body (f e)) es x) = x_app x"
  by (induction es arbitrary: x) simp_all

lemmas read_handler_defs = Collector_def ListClustersV1_def ListCronJobsV1_def ListCronJobs_handler_def
  ListRunsV1_def DailyRunStatsV1_def ListRuns_handler_def GetRunV1_def GetResourceSamplesV1_def
  GetResourceSamples_handler_def GetLogsV1_def DownloadLogs_def DownloadLogsV1_def
  StreamLogs_handler_def ListClusters_handler_def Healthz_def Readyz_def v1NotFound_def

lemma json_reads [simp]:
  "x_app (Collector ev r x) = x_app x" "x_app (ListClustersV1 ev r x) = x_app x"
  "x_app (ListCronJobsV1 ev r x) = x_app x" "x_app (ListCronJobs_handler ev r x) = x_app x"
  "x_app (ListRunsV1 ev r x) = x_app x" "x_app (DailyRunStatsV1 ev r x) = x_app x"
  "x_app (ListRuns_handler ev r x) = x_app x" "x_app (GetRunV1 ev r x) = x_app x"
  "x_app (GetResourceSamplesV1 ev r x) = x_app x" "x_app (GetResourceSamples_handler ev r x) = x_app x"
  "x_app (GetLogsV1 ev r x) = x_app x" "x_app (DownloadLogs r x) = x_app x"
  "x_app (DownloadLogsV1 r x) = x_app x" "x_app (StreamLogs_handler ev r x) = x_app x"
  "x_app (ListClusters_handler r x) = x_app x" "x_app (Healthz r y) = x_app y"
  "x_app (Readyz ev r y) = x_app y" "x_app (v1NotFound r y) = x_app y"
  by (simp_all add: read_handler_defs Let_def split: sum.split option.split prod.split)

end
