(* ===== verification/Controls.thy ===== *)
theory Controls
  imports Api Watcher
begin

text \<open>
  The CronJob controls of src/internal/api/handlers_cronjob.go: suspend, resume and trigger.
  The Kubernetes API server is the argument \<open>kube_api\<close>, acting on a state of its own.
\<close>

text \<open>
  The Job a trigger creates: the fields the handler sets, and no others (in particular no
  owner reference). \<open>'j\<close> is the type of job specifications.
\<close>

record 'j new_job =
  nj_generate :: string
  nj_ns :: string
  nj_labels :: "(string \<times> string) list"
  nj_spec :: 'j

text \<open>Each call names the cluster whose client makes it; a call may fail and still have acted.\<close>

record ('k, 'j) kube_api =
  ka_patch :: "string \<Rightarrow> string \<Rightarrow> string \<Rightarrow> string \<Rightarrow> 'k \<Rightarrow> (string + unit) \<times> 'k"
  ka_get :: "string \<Rightarrow> string \<Rightarrow> string \<Rightarrow> 'k \<Rightarrow> string + 'j"
  ka_create :: "string \<Rightarrow> 'j new_job \<Rightarrow> 'k \<Rightarrow> (string + k_job) \<times> 'k"

definition set_kube :: "'k \<Rightarrow> 'k app_state exchange \<Rightarrow> 'k app_state exchange" where
  "set_kube k x = x\<lparr>x_app := (x_app x)\<lparr>ap_kube := k\<rparr>\<rparr>"

definition set_store :: "db \<Rightarrow> 'k app_state exchange \<Rightarrow> 'k app_state exchange" where
  "set_store db x = x\<lparr>x_app := (x_app x)\<lparr>ap_db := db\<rparr>\<rparr>"

definition suspend_patch :: "bool \<Rightarrow> string" where
  "suspend_patch suspend =
     ''{\"spec\":{\"suspend\":'' @ (if suspend then ''true'' else ''false'') @ ''}}''"

definition patchSuspend :: "('k, 'j) kube_api \<Rightarrow> bool \<Rightarrow> 'k app_state handler" where
  "patchSuspend ka suspend r x =
     (case Registry_Get (ap_registry (x_app x)) (path_value r 0) of
        None \<Rightarrow> writeError 404 ''cluster not found'' x
      | Some c \<Rightarrow>
          (case ka_patch ka (cc_id c) (path_value r 1) (path_value r 2) (suspend_patch suspend)
                  (ap_kube (x_app x)) of
             (Inl _, k) \<Rightarrow> writeError 500 ''failed to update cronjob'' (set_kube k x)
           | (Inr _, k) \<Rightarrow> write_header 204 (set_kube k x)))"

definition Suspend :: "('k, 'j) kube_api \<Rightarrow> 'k app_state handler" where
  "Suspend ka r x = patchSuspend ka True r x"

definition Resume :: "('k, 'j) kube_api \<Rightarrow> 'k app_state handler" where
  "Resume ka r x = patchSuspend ka False r x"

definition trigger_job :: "string \<Rightarrow> string \<Rightarrow> 'j \<Rightarrow> 'j new_job" where
  "trigger_job ns nm spec =
     \<lparr>nj_generate = nm @ ''-manual-'', nj_ns = ns,
      nj_labels = [(''kubecron/trigger'', ''manual'')], nj_spec = spec\<rparr>"

definition triggered_run :: "gotime \<Rightarrow> string \<Rightarrow> string \<Rightarrow> string \<Rightarrow> k_job \<Rightarrow> job_run" where
  "triggered_run now cl ns nm created =
     \<lparr>jr_id = kj_uid created, jr_cronjob = Sprintf ''%s/%s/%s'' [cl, ns, nm], jr_pod = kj_name created,
      jr_node = None, jr_image = None, jr_trigger = ''manual'', jr_started = now, jr_finished = None,
      jr_status = ''running'', jr_exit = None, jr_retry = 0, jr_log_size = 0, jr_duration = None,
      jr_avg_cpu = None, jr_max_cpu = None, jr_avg_mem = None, jr_max_mem = None\<rparr>"

definition Trigger :: "('k, 'j) kube_api \<Rightarrow> 'k app_state handler" where
  "Trigger ka r x =
     (let cl = path_value r 0; ns = path_value r 1; nm = path_value r 2 in
      case Registry_Get (ap_registry (x_app x)) cl of
        None \<Rightarrow> writeError 404 ''cluster not found'' x
      | Some c \<Rightarrow>
          (case ka_get ka (cc_id c) ns nm (ap_kube (x_app x)) of
             Inl _ \<Rightarrow> writeError 500 ''failed to get cronjob'' x
           | Inr spec \<Rightarrow>
               (case ka_create ka (cc_id c) (trigger_job ns nm spec) (ap_kube (x_app x)) of
                  (Inl _, k) \<Rightarrow> writeError 500 ''failed to create job'' (set_kube k x)
                | (Inr created, k) \<Rightarrow>
                    (let run = triggered_run (rq_now r) cl ns nm created; x1 = set_kube k x;
                         x2 = set_store (keep_on_error (store_of x1) (UpsertJobRun (store_of x1) run)) x1
                     in answer_json 201
                          (J_Obj [(''run_id'', J_Str (kj_uid created)), (''pod_name'', J_Str (kj_name created))])
                          x2))))"

section \<open>Frames\<close>

lemma set_kube_frame [simp]:
  "store_of (set_kube k x) = store_of x" "ap_kube (x_app (set_kube k x)) = k"
  "ap_registry (x_app (set_kube k x)) = ap_registry (x_app x)"
  "x_out (set_kube k x) = x_out x" "x_headers (set_kube k x) = x_headers x"
  "x_panic (set_kube k x) = x_panic x" "x_counts (set_kube k x) = x_counts x"
  "x_latency (set_kube k x) = x_latency x"
  by (simp_all add: set_kube_def)

lemma set_store_frame [simp]:
  "store_of (set_store d x) = d" "ap_kube (x_app (set_store d x)) = ap_kube (x_app x)"
  "ap_registry (x_app (set_store d x)) = ap_registry (x_app x)"
  "x_out (set_store d x) = x_out x" "x_headers (set_store d x) = x_headers x"
  "x_panic (set_store d x) = x_panic x" "x_counts (set_store d x) = x_counts x"
  "x_latency (set_store d x) = x_latency x"
  by (simp_all add: set_store_def)

text \<open>Suspending and resuming never touch the store: it follows when the informer reports the change.\<close>

lemma suspend_store: "store_of (Suspend ka r x) = store_of x" "store_of (Resume ka r x) = store_of x"
  by (auto simp: Suspend_def Resume_def patchSuspend_def split: option.split prod.split sum.split)

lemma cronjob_id_text: "Sprintf ''%s/%s/%s'' [cl, ns, nm] = cronjob_key cl ns nm"
  by (simp add: Sprintf_def is_verb_def byte_def cronjob_key_def)

end
