(* ===== verification/Controller.thy ===== *)
theory Controller
  imports Watcher
begin

text \<open>
  The controller of a cluster (\<open>internal/watcher/controller.go\<close>): which handler each informer
  calls, what \<open>Start\<close> registers, and the reconciliation once the CronJobs are listed. The
  informers are client-go's; what they report and whether they accept a handler are arguments.
\<close>

datatype resource = R_CronJobs | R_Jobs | R_Pods

datatype informer_event =
    Added k_obj bool \<comment> \<open>whether it belongs to the initial list\<close>
  | Updated k_obj k_obj
  | Deleted k_obj

text \<open>
  The handlers that \<open>Start\<close> registers. The handler of the Jobs lists the pods of a Job, the
  one of the pods reads whether the cluster has metrics and may pause between retries.
\<close>

definition deliver ::
    "('s, 'l) cron_lib \<Rightarrow> string \<Rightarrow> (nat \<Rightarrow> watch_state \<Rightarrow> watch_state) \<Rightarrow> bool \<Rightarrow> gotime \<Rightarrow> k_pod list result
     \<Rightarrow> resource \<Rightarrow> informer_event \<Rightarrow> watch_state \<Rightarrow> watch_state" where
  "deliver lib cl env metrics_on now pods res ev s =
     (case res of
        R_CronJobs \<Rightarrow>
          (case ev of
             Added ob initial \<Rightarrow> CronJob_OnAdd lib cl now ob initial s
           | Updated _ ob \<Rightarrow> CronJob_OnUpdate lib cl now ob s
           | Deleted ob \<Rightarrow> CronJob_OnDelete cl now ob s)
      | R_Jobs \<Rightarrow>
          (case ev of
             Added ob initial \<Rightarrow> Job_OnAdd cl now pods ob initial s
           | Updated _ ob \<Rightarrow> Job_OnUpdate ob s
           | Deleted ob \<Rightarrow> Job_OnDelete now ob s)
      | R_Pods \<Rightarrow>
          (case ev of
             Added ob initial \<Rightarrow> Pod_OnAdd env cl metrics_on now ob initial s
           | Updated _ ob \<Rightarrow> Pod_OnUpdate cl metrics_on now ob s
           | Deleted ob \<Rightarrow> Pod_OnDelete ob s))"

record controller =
  ct_cluster :: string
  ct_synced :: "resource list"

definition NewController :: "string \<Rightarrow> controller" where
  "NewController cl = \<lparr>ct_cluster = cl, ct_synced = []\<rparr>"

text \<open>\<open>refuses\<close>: the error of the informer's \<open>AddEventHandler\<close>, if any.\<close>

definition Controller_Start :: "(resource \<Rightarrow> string option) \<Rightarrow> controller \<Rightarrow> string option \<times> controller" where
  "Controller_Start refuses c =
     (case refuses R_CronJobs of Some e \<Rightarrow> (Some (''add cronjob event handler: '' @ e), c) | None \<Rightarrow>
      case refuses R_Jobs of Some e \<Rightarrow> (Some (''add job event handler: '' @ e), c) | None \<Rightarrow>
      case refuses R_Pods of Some e \<Rightarrow> (Some (''add pod event handler: '' @ e), c) | None \<Rightarrow>
      (None, c\<lparr>ct_synced := [R_CronJobs, R_Jobs, R_Pods]\<rparr>))"

text \<open>
  The goroutine behind it: \<open>synced\<close> is what waiting for the cache says, \<open>live\<close> what the lister
  then has.
\<close>

definition reconcile_after_sync ::
    "string \<Rightarrow> gotime \<Rightarrow> bool \<Rightarrow> k_cronjob list result \<Rightarrow> watch_state \<Rightarrow> watch_state" where
  "reconcile_after_sync cl now synced live s =
     (if \<not> synced then s
      else case live of Inl _ \<Rightarrow> s | Inr ks \<Rightarrow> CronJob_Reconcile cl now ks s)"

definition controller_synced :: "(resource \<Rightarrow> bool) \<Rightarrow> controller \<Rightarrow> bool" where
  "controller_synced has_synced c = CacheSynced (map has_synced (ct_synced c))"

text \<open>Readiness: not before \<open>Start\<close> has succeeded, and then when all three lists are complete.\<close>

lemma controller_synced_iff:
  "controller_synced hs (snd (Controller_Start refuses (NewController cl)))
     \<longleftrightarrow> (\<forall>r. refuses r = None) \<and> hs R_CronJobs \<and> hs R_Jobs \<and> hs R_Pods"
proof -
  have "(\<forall>r. refuses r = None) \<longleftrightarrow> refuses R_CronJobs = None \<and> refuses R_Jobs = None \<and> refuses R_Pods = None"
    by (metis resource.exhaust)
  then show ?thesis
    by (auto simp: controller_synced_def CacheSynced_def Controller_Start_def NewController_def split: option.split)
qed

end
