(* ===== verification/Run_Lifecycle.thy ===== *)
theory Run_Lifecycle
  imports Controls Controller Watch_Props Schedule_Spec
begin

text \<open>
  The life of all runs as a state machine that is driven by the same events as the watcher, and
  the proof that the watcher with its informer handlers, its restarts and the trigger endpoint
  implements it, whatever statements the database refuses. An abstract state is the verdict and
  the Job's name of every recorded run, the runs that are tracked under the name of a Job, the
  CronJobs that are recorded, and which statements the driver refuses.
\<close>

section \<open>The abstract machine\<close>

record life =
  lf_runs :: "string \<rightharpoonup> string \<times> string" \<comment> \<open>status and Job name\<close>
  lf_tracked :: "string \<rightharpoonup> string"
  lf_known :: "string set"
  lf_down :: "string \<Rightarrow> string option"

datatype life_event =
    Job_Appears string string string \<comment> \<open>Job name, run, CronJob\<close>
  | Job_Found_Done string string string string \<comment> \<open>Job name, run, CronJob, verdict\<close>
  | Job_Vanishes string string
  | Pod_Ends string string \<comment> \<open>Job name, verdict\<close>
  | Triggered string string string
  | CronJob_Appears string
  | Restarted
  | Driver_Changes "string \<Rightarrow> string option"
  | Unrelated

definition verdict :: "life \<Rightarrow> string \<Rightarrow> string option" where
  "verdict l i = map_option fst (lf_runs l i)"

definition works :: "string \<Rightarrow> life \<Rightarrow> bool" where
  "works op l \<longleftrightarrow> lf_down l op = None"

text \<open>A run is recorded when its CronJob is; a verdict is written when the run is recorded.\<close>

definition life_record :: "string \<Rightarrow> string \<Rightarrow> string \<Rightarrow> string \<Rightarrow> life \<Rightarrow> life" where
  "life_record job i cj st l =
     (if works ''UpsertJobRun'' l \<and> cj \<in> lf_known l then l\<lparr>lf_runs := (lf_runs l)(i \<mapsto> (st, job))\<rparr> else l)"

definition life_verdict :: "string \<Rightarrow> string \<Rightarrow> string \<Rightarrow> life \<Rightarrow> life" where
  "life_verdict op i st l =
     (case lf_runs l i of
        None \<Rightarrow> l
      | Some (_, job) \<Rightarrow> if works op l then l\<lparr>lf_runs := (lf_runs l)(i \<mapsto> (st, job))\<rparr> else l)"

definition track :: "string \<Rightarrow> string \<Rightarrow> life \<Rightarrow> life" where
  "track job i l = l\<lparr>lf_tracked := (lf_tracked l)(job \<mapsto> i)\<rparr>"

definition untrack :: "string \<Rightarrow> life \<Rightarrow> life" where
  "untrack job l = l\<lparr>lf_tracked := (lf_tracked l)(job := None)\<rparr>"

text \<open>The runs an event of a Job's pod may be about: the one tracked under the Job's name,
  otherwise those in flight under that name, as far as they can be read.\<close>

definition candidates :: "string \<Rightarrow> life \<Rightarrow> string set" where
  "candidates job l =
     (case lf_tracked l job of
        Some (c # i) \<Rightarrow> {c # i}
      | _ \<Rightarrow> if works ''GetRunningRuns'' l then {i. lf_runs l i = Some (''running'', job)} else {})"

text \<open>What an event does. A Job that is found done leaves a success alone; a Job that vanishes
  fails its run only while the run is in flight; the end of a pod closes one candidate; a restart
  fails what is in flight. Every other change of a run is ruled out.\<close>

fun life_step :: "life_event \<Rightarrow> life \<Rightarrow> life \<Rightarrow> bool" where
  "life_step (Job_Appears job i cj) l l' \<longleftrightarrow> l' = track job i (life_record job i cj ''running'' l)"
| "life_step (Job_Found_Done job i cj st) l l' \<longleftrightarrow>
     l' = (if works ''GetJobRun'' l \<and> verdict l i = Some ''succeeded'' then l else life_record job i cj st l)"
| "life_step (Job_Vanishes job i) l l' \<longleftrightarrow>
     l' = untrack job (if works ''GetJobRun'' l \<and> verdict l i = Some ''running''
                       then life_verdict ''MarkRunFailed'' i ''failed'' l else l)"
| "life_step (Pod_Ends job st) l l' \<longleftrightarrow>
     (\<exists>i \<in> candidates job l. i \<noteq> [] \<and> l' = untrack job (life_verdict ''UpdateJobRunStatus'' i st l))
     \<or> ((candidates job l = {} \<or> [] \<in> candidates job l) \<and> l' = l)"
| "life_step (Triggered job i cj) l l' \<longleftrightarrow> l' = life_record job i cj ''running'' l"
| "life_step (CronJob_Appears cj) l l' \<longleftrightarrow> l' = l \<or> l' = l\<lparr>lf_known := insert cj (lf_known l)\<rparr>"
| "life_step Restarted l l' \<longleftrightarrow>
     l' = l\<lparr>lf_tracked := Map.empty,
            lf_runs := (\<lambda>i. case lf_runs l i of
               None \<Rightarrow> None
             | Some (st, job) \<Rightarrow> Some (if st = ''running'' \<and> works ''GetRunningRuns'' l \<and> works ''MarkRunFailed'' l
                                       then ''failed'' else st, job))\<rparr>"
| "life_step (Driver_Changes down) l l' \<longleftrightarrow> l' = l\<lparr>lf_down := down\<rparr>"
| "life_step Unrelated l l' \<longleftrightarrow> l' = l"

section \<open>The watcher's events\<close>

definition run_facts :: "db \<Rightarrow> string \<rightharpoonup> string \<times> string" where
  "run_facts db i = map_option (\<lambda>r. (jr_status r, jr_pod r)) (run_row db i)"

definition life_of :: "watch_state \<Rightarrow> life" where
  "life_of s = \<lparr>lf_runs = run_facts (w_db s), lf_tracked = w_index s, lf_known = set (cj_ids (w_db s)),
     lf_down = db_down (w_db s)\<rparr>"

datatype watch_event =
    Informer string bool gotime "k_pod list result" resource informer_event
  | Reconcile string gotime bool "k_cronjob list result"
  | Trigger_Record string gotime string string k_job
  | Restart gotime
  | Driver "string \<Rightarrow> string option"

text \<open>One event, handled without a pause. A trigger is its record of the created Job.\<close>

fun watch_do :: "('s, 'l) cron_lib \<Rightarrow> watch_event \<Rightarrow> watch_state \<Rightarrow> watch_state" where
  "watch_do lib (Informer cl m now pods res ev) s = deliver lib cl (\<lambda>_ t. t) m now pods res ev s"
| "watch_do lib (Reconcile cl now synced live) s = reconcile_after_sync cl now synced live s"
| "watch_do lib (Trigger_Record cl now ns nm j) s =
     store_try (UpsertJobRun (w_db s) (triggered_run now cl ns nm j)) s"
| "watch_do lib (Restart now) s =
     s\<lparr>w_db := restart_recovery now (w_db s), w_prom := new_prom, w_index := NewRunIndex, w_calls := []\<rparr>"
| "watch_do lib (Driver down) s = s\<lparr>w_db := (w_db s)\<lparr>db_down := down\<rparr>\<rparr>"

definition pod_event :: "k_obj \<Rightarrow> life_event" where
  "pod_event ob =
     (case ob of
        K_Pod p \<Rightarrow>
          (case jobOwner p of
             None \<Rightarrow> Unrelated
           | Some job \<Rightarrow> if terminal_phase (kp_phase p)
                         then Pod_Ends job (if kp_phase p = ''Failed'' then ''failed'' else ''succeeded'')
                         else Unrelated)
      | _ \<Rightarrow> Unrelated)"

definition job_event :: "string \<Rightarrow> k_obj \<Rightarrow> bool \<Rightarrow> life_event" where
  "job_event cl ob initial =
     (case ob of
        K_Job j \<Rightarrow>
          (case cronJobOwner j of
             None \<Rightarrow> Unrelated
           | Some owner \<Rightarrow>
               if initial \<and> jobIsDone j
               then Job_Found_Done (kj_name j) (kj_uid j) (cronjob_key cl (kj_ns j) owner) (backfill_status j)
               else Job_Appears (kj_name j) (kj_uid j) (cronjob_key cl (kj_ns j) owner))
      | _ \<Rightarrow> Unrelated)"

definition cronjob_event :: "string \<Rightarrow> k_obj \<Rightarrow> life_event" where
  "cronjob_event cl ob =
     (case ob of K_CronJob k \<Rightarrow> CronJob_Appears (cronjob_key cl (kcj_ns k) (kcj_name k)) | _ \<Rightarrow> Unrelated)"

fun event_of :: "watch_event \<Rightarrow> life_event" where
  "event_of (Informer cl m now pods res ev) =
     (case (res, ev) of
        (R_CronJobs, Added ob _) \<Rightarrow> cronjob_event cl ob
      | (R_CronJobs, Updated _ ob) \<Rightarrow> cronjob_event cl ob
      | (R_Jobs, Added ob initial) \<Rightarrow> job_event cl ob initial
      | (R_Jobs, Deleted (K_Job j)) \<Rightarrow> Job_Vanishes (kj_name j) (kj_uid j)
      | (R_Pods, Added ob _) \<Rightarrow> pod_event ob
      | (R_Pods, Updated _ ob) \<Rightarrow> pod_event ob
      | _ \<Rightarrow> Unrelated)"
| "event_of (Reconcile cl now synced live) = Unrelated"
| "event_of (Trigger_Record cl now ns nm j) = Triggered (kj_name j) (kj_uid j) (Sprintf ''%s/%s/%s'' [cl, ns, nm])"
| "event_of (Restart now) = Restarted"
| "event_of (Driver down) = Driver_Changes down"

section \<open>Statements\<close>

text \<open>\<open>does s f t\<close>: from a sound database, \<open>t\<close> is sound and shows what \<open>f\<close> makes of \<open>s\<close>.\<close>

definition does :: "watch_state \<Rightarrow> (life \<Rightarrow> life) \<Rightarrow> watch_state \<Rightarrow> bool" where
  "does s f t \<longleftrightarrow> (db_wf (w_db s) \<longrightarrow> db_wf (w_db t) \<and> life_of t = f (life_of s))"

lemma doesI: "(db_wf (w_db s) \<Longrightarrow> db_wf (w_db t)) \<Longrightarrow> (db_wf (w_db s) \<Longrightarrow> life_of t = f (life_of s)) \<Longrightarrow> does s f t"
  by (simp add: does_def)

lemma does_then: "does s f t \<Longrightarrow> does t g u \<Longrightarrow> does s (\<lambda>l. g (f l)) u"
  by (simp add: does_def)

lemma does_same: "w_db t = w_db s \<Longrightarrow> w_index t = w_index s \<Longrightarrow> does s (\<lambda>l. l) t"
  by (simp add: does_def life_of_def)

lemma does_after: "does s f t \<Longrightarrow> w_db u = w_db t \<Longrightarrow> w_index u = w_index t \<Longrightarrow> does s f u"
  using does_then[OF _ does_same] by simp

lemma does_refl [simp]: "does s (\<lambda>l. l) s"
  by (rule does_same) simp_all

lemma facts_set_runs:
  assumes "\<And>r. jr_id (f r) = jr_id r" and "\<And>r. jr_status (f r) = st" and "\<And>r. jr_pod (f r) = jr_pod r"
  shows "run_facts (set_runs (\<lambda>r. jr_id r = i) f db)
    = (case run_facts db i of None \<Rightarrow> run_facts db | Some (_, job) \<Rightarrow> (run_facts db)(i \<mapsto> (st, job)))"
proof (rule ext)
  fix j
  show "run_facts (set_runs (\<lambda>r. jr_id r = i) f db) j
      = (case run_facts db i of None \<Rightarrow> run_facts db | Some (_, job) \<Rightarrow> (run_facts db)(i \<mapsto> (st, job))) j"
    unfolding run_facts_def set_runs_row[OF assms(1)]
    by (cases "run_row db i") (auto simp: assms(2,3) run_facts_def)
qed

lemma facts_upsert:
  assumes "UpsertJobRun db r = Inr db'"
  shows "run_facts db' = (run_facts db)(jr_id r \<mapsto> (jr_status r, jr_pod r))" "db_down db' = db_down db"
    "cj_ids db' = cj_ids db"
proof -
  show "db_down db' = db_down db" "cj_ids db' = cj_ids db"
    using assms by (auto simp: UpsertJobRun_def cj_ids_def set_runs_def split: if_splits)
  show "run_facts db' = (run_facts db)(jr_id r \<mapsto> (jr_status r, jr_pod r))"
  proof (cases "jr_id r \<in> set (jr_ids db)")
    case True
    then have "db' = set_runs (\<lambda>o'. jr_id o' = jr_id r) (refresh_run r) db"
      using assms by (auto simp: UpsertJobRun_def split: if_splits)
    then have "run_row db' j = (if j = jr_id r then map_option (refresh_run r) (run_row db j) else run_row db j)" for j
      by (simp add: set_runs_row refresh_run_def)
    moreover obtain o' where "run_row db (jr_id r) = Some o'" using True run_row_in by auto
    ultimately show ?thesis by (auto simp: run_facts_def fun_eq_iff refresh_run_def)
  next
    case False
    then have "db' = db\<lparr>db_runs := db_runs db @ [new_run r]\<rparr>"
      using assms by (auto simp: UpsertJobRun_def split: if_splits)
    moreover have "run_row db (jr_id r) = None" using False run_row_in by blast
    ultimately show ?thesis
      by (auto simp: run_facts_def run_row_def find_append fun_eq_iff new_run_def split: option.split)
  qed
qed

lemma does_upsert:
  assumes "trigger_ok (jr_trigger r)" and "status_ok (jr_status r)"
  shows "does s (life_record (jr_pod r) (jr_id r) (jr_cronjob r) (jr_status r)) (store_try (UpsertJobRun (w_db s) r) s)"
proof (cases "UpsertJobRun (w_db s) r")
  case (Inl e)
  then have "\<not> (works ''UpsertJobRun'' (life_of s) \<and> jr_cronjob r \<in> lf_known (life_of s))"
    using assms by (cases "db_down (w_db s) ''UpsertJobRun''")
      (auto simp: UpsertJobRun_def works_def life_of_def exec_sql_up split: if_splits)
  then show ?thesis by (auto simp: Inl store_try_def does_def life_record_def)
next
  case (Inr db)
  then have "works ''UpsertJobRun'' (life_of s)" "jr_cronjob r \<in> lf_known (life_of s)"
    by (auto simp: UpsertJobRun_def works_def life_of_def split: if_splits)
  then show ?thesis unfolding Inr
    by (intro doesI UpsertJobRun_wf[OF _ Inr]) (simp_all add: life_record_def life_of_def facts_upsert[OF Inr] UpsertJobRun_wf[OF _ Inr])
qed

lemma life_of_try: "run_facts db = rs \<Longrightarrow> db_down db = db_down (w_db s) \<Longrightarrow> cj_ids db = cj_ids (w_db s) \<Longrightarrow>
    life_of (store_try (Inr db) s) = (life_of s)\<lparr>lf_runs := rs\<rparr>"
  by (simp add: life_of_def)

lemma does_verdict_update:
  assumes "status_ok st"
  shows "does s (life_verdict ''UpdateJobRunStatus'' i st) (store_try (UpdateJobRunStatus (w_db s) i st fin ex rt) s)"
proof (cases "db_down (w_db s) ''UpdateJobRunStatus'' = None")
  case True
  let ?f = "\<lambda>r. r\<lparr>jr_status := st, jr_finished := fin, jr_exit := Some ex, jr_retry := rt,
      jr_duration := coalesce (durationFromStart (w_db s) i fin) (jr_duration r)\<rparr>"
  let ?db = "set_runs (\<lambda>r. jr_id r = i) ?f (w_db s)"
  have up: "UpdateJobRunStatus (w_db s) i st fin ex rt = Inr ?db"
    using True assms by (simp add: UpdateJobRunStatus_def Let_def exec_sql_up)
  have facts: "run_facts ?db = (case run_facts (w_db s) i of None \<Rightarrow> run_facts (w_db s)
      | Some (_, job) \<Rightarrow> (run_facts (w_db s))(i \<mapsto> (st, job)))" by (rule facts_set_runs) simp_all
  show ?thesis unfolding up
    using UpdateJobRunStatus_wf[OF _ up] True
    by (intro doesI) (auto simp: life_of_def life_verdict_def works_def facts split: option.split)
next
  case False
  then have "\<not> works ''UpdateJobRunStatus'' (life_of s)" by (simp add: works_def life_of_def)
  moreover from False obtain e where "UpdateJobRunStatus (w_db s) i st fin ex rt = Inl e"
    by (auto simp: UpdateJobRunStatus_def Let_def exec_sql_def)
  ultimately show ?thesis by (simp add: store_try_def does_def life_verdict_def split: option.split)
qed

lemma does_verdict_failed: "does s (life_verdict ''MarkRunFailed'' i ''failed'') (store_try (MarkRunFailed now (w_db s) i) s)"
proof (cases "db_down (w_db s) ''MarkRunFailed'' = None")
  case True
  let ?f = "\<lambda>r. r\<lparr>jr_status := ''failed'', jr_exit := Some (- 1), jr_finished := Some now,
      jr_duration := coalesce (durationFromStart (w_db s) i (Some now)) (jr_duration r)\<rparr>"
  let ?db = "set_runs (\<lambda>r. jr_id r = i) ?f (w_db s)"
  have up: "MarkRunFailed now (w_db s) i = Inr ?db"
    using True by (simp add: MarkRunFailed_def Let_def exec_sql_up)
  have facts: "run_facts ?db = (case run_facts (w_db s) i of None \<Rightarrow> run_facts (w_db s)
      | Some (_, job) \<Rightarrow> (run_facts (w_db s))(i \<mapsto> (''failed'', job)))" by (rule facts_set_runs) simp_all
  show ?thesis unfolding up
    using MarkRunFailed_wf[OF _ up] True
    by (intro doesI) (auto simp: life_of_def life_verdict_def works_def facts split: option.split)
next
  case False
  then have "\<not> works ''MarkRunFailed'' (life_of s)" by (simp add: works_def life_of_def)
  moreover from False obtain e where "MarkRunFailed now (w_db s) i = Inl e"
    by (auto simp: MarkRunFailed_def Let_def exec_sql_def)
  ultimately show ?thesis by (simp add: store_try_def does_def life_verdict_def split: option.split)
qed

lemma does_node: "does s (\<lambda>l. l) (store_try (UpdateJobRunNode (w_db s) i nd im) s)"
proof (cases "UpdateJobRunNode (w_db s) i nd im")
  case (Inr db)
  then have "db = set_runs (\<lambda>r. jr_id r = i) (\<lambda>r. r\<lparr>jr_node := Some nd, jr_image := Some im\<rparr>) (w_db s)"
    by (auto simp: UpdateJobRunNode_def)
  then have "run_facts db = run_facts (w_db s)" "db_down db = db_down (w_db s)" "cj_ids db = cj_ids (w_db s)"
    by (auto simp: run_facts_def fun_eq_iff set_runs_row option.map_comp comp_def)
  then show ?thesis unfolding Inr by (intro doesI UpdateJobRunNode_wf[OF _ Inr]) (simp_all add: life_of_def UpdateJobRunNode_wf[OF _ Inr])
qed (simp add: store_try_def)

lemma does_track: "does s (track job i) (s\<lparr>w_index := Index_Set (w_index s) job i\<rparr>)"
  by (simp add: does_def life_of_def track_def Index_Set_def)

lemma does_untrack: "does s (untrack job) (s\<lparr>w_index := Index_Delete (w_index s) job\<rparr>)"
  by (simp add: does_def life_of_def untrack_def Index_Delete_def)

text \<open>Reads.\<close>

lemma scan_simps [simp]: "jr_status (scanJobRun r) = jr_status r" "jr_pod (scanJobRun r) = jr_pod r"
  by (simp_all add: scanJobRun_def split: option.split)

lemma read_run:
  "GetJobRun (w_db s) i = (if works ''GetJobRun'' (life_of s) then Inr (map_option scanJobRun (run_row (w_db s) i))
     else GetJobRun (w_db s) i)"
  "\<not> works ''GetJobRun'' (life_of s) \<Longrightarrow> \<exists>e. GetJobRun (w_db s) i = Inl e"
  by (auto simp: works_def life_of_def GetJobRun_def sql_rows_def exec_sql_def run_row_def)

lemma read_status:
  "(case GetJobRun (w_db s) i of Inr (Some r) \<Rightarrow> jr_status r = st | _ \<Rightarrow> False)
     \<longleftrightarrow> works ''GetJobRun'' (life_of s) \<and> verdict (life_of s) i = Some st"
proof (cases "works ''GetJobRun'' (life_of s)")
  case True
  then show ?thesis by (subst read_run(1)) (auto simp: verdict_def life_of_def run_facts_def split: option.split)
next
  case False
  then show ?thesis using read_run(2)[OF False, of i] by auto
qed

lemma running_found:
  assumes "db_wf (w_db s)"
  shows "(case GetRunningRuns (w_db s) of Inl _ \<Rightarrow> {} | Inr rs \<Rightarrow> jr_id ` {r \<in> set rs. jr_pod r = job})
    = (if works ''GetRunningRuns'' (life_of s) then {i. lf_runs (life_of s) i = Some (''running'', job)} else {})"
proof (cases "works ''GetRunningRuns'' (life_of s)")
  case True
  then have rs: "GetRunningRuns (w_db s) = Inr (map scanJobRun (filter (\<lambda>r. jr_status r = ''running'') (db_runs (w_db s))))"
    by (simp add: GetRunningRuns_def sql_rows_def exec_sql_up works_def life_of_def)
  have "lf_runs (life_of s) i = Some (''running'', job)
      \<longleftrightarrow> (\<exists>r \<in> set (db_runs (w_db s)). jr_id r = i \<and> jr_status r = ''running'' \<and> jr_pod r = job)" for i
    using row_of_member[OF assms] run_row_id[of "w_db s" i] by (auto simp: life_of_def run_facts_def)
  moreover have "jr_id ` {r \<in> set (map scanJobRun (filter (\<lambda>r. jr_status r = ''running'') (db_runs (w_db s)))). jr_pod r = job}
      = jr_id ` {r \<in> set (db_runs (w_db s)). jr_status r = ''running'' \<and> jr_pod r = job}"
    by (force simp: image_iff)
  ultimately show ?thesis using True unfolding rs by auto
next
  case False
  then show ?thesis by (auto simp: GetRunningRuns_def sql_rows_def exec_sql_def works_def life_of_def)
qed

text \<open>The run a pod is credited to is a candidate.\<close>

lemma found_candidate:
  assumes "db_wf (w_db s)"
  shows "findRunID s job \<in> candidates job (life_of s)
    \<or> findRunID s job = [] \<and> candidates job (life_of s) = {}"
proof (cases "Index_Get (w_index s) job = []")
  case False
  then obtain c i where "w_index s job = Some (c # i)"
    by (auto simp: Index_Get_def neq_Nil_conv split: option.splits)
  then show ?thesis by (simp add: findRunID_def Index_Get_def candidates_def life_of_def)
next
  case True
  then have c: "candidates job (life_of s)
      = (case GetRunningRuns (w_db s) of Inl _ \<Rightarrow> {} | Inr rs \<Rightarrow> jr_id ` {r \<in> set rs. jr_pod r = job})"
    by (auto simp: running_found[OF assms] candidates_def life_of_def Index_Get_def split: option.splits list.splits)
  show ?thesis
  proof (cases "GetRunningRuns (w_db s)")
    case (Inr rs)
    show ?thesis
    proof (cases "find (\<lambda>r. jr_pod r = job) rs")
      case None
      then have "findRunID s job = []" using True Inr by (simp add: findRunID_def del: find_None_all)
      with None c Inr show ?thesis by (auto simp: find_None_all)
    next
      case (Some r)
      then show ?thesis using True Inr c find_Some_in[OF Some] by (auto simp: findRunID_def)
    qed
  qed (use True c in \<open>simp add: findRunID_def\<close>)
qed

section \<open>The handlers\<close>

lemma pod_terminal_does:
  assumes "pod_finish now p = (st, fin, ex, rt)"
  shows "does s (\<lambda>l. untrack job (life_verdict ''UpdateJobRunStatus'' run st l)) (pod_terminal cl now p job run s)"
proof -
  define s1 where "s1 = store_try (UpdateJobRunStatus (w_db s) run st (Some fin) ex rt) s"
  define s4 where "s4 = call (Call_Stop run) (stream_if_no_logs p run (case stored_run s1 run of None \<Rightarrow> s1
      | Some r \<Rightarrow> s1\<lparr>w_prom := RecordCompletion cl (jr_cronjob r) st (jr_trigger r) (jr_started r) fin (w_prom s1)\<rparr>))"
  have "status_ok st" using assms pod_finish_cases[of now p] by (auto simp: status_ok_def split: if_splits)
  then have "does s (life_verdict ''UpdateJobRunStatus'' run st) s1" unfolding s1_def by (rule does_verdict_update)
  then have "does s (life_verdict ''UpdateJobRunStatus'' run st) s4"
    by (rule does_after) (simp_all add: s4_def split: option.split)
  from does_then[OF this does_untrack[of s4 job]] show ?thesis
    unfolding pod_terminal_def assms by (simp only: Let_def prod.case s4_def s1_def)
qed

lemma pod_running_does: "does s (\<lambda>l. l) (pod_running cl m p run s)"
  unfolding pod_running_def Let_def by (rule does_after[OF does_node]) simp_all

lemma Pod_OnUpdate_step:
  assumes wf: "db_wf (w_db s)"
  shows "db_wf (w_db (Pod_OnUpdate cl m now ob s))
    \<and> life_step (pod_event ob) (life_of s) (life_of (Pod_OnUpdate cl m now ob s))"
proof (cases "\<exists>p job. ob = K_Pod p \<and> jobOwner p = Some job")
  case True
  then obtain p job where p: "ob = K_Pod p" "jobOwner p = Some job" by blast
  let ?run = "findRunID s job"
  show ?thesis
  proof (cases "terminal_phase (kp_phase p)")
    case True
    let ?st = "if kp_phase p = ''Failed'' then ''failed'' else ''succeeded''"
    from True p have ev: "pod_event ob = Pod_Ends job ?st" by (simp add: pod_event_def)
    show ?thesis
    proof (cases "?run = []")
      case True
      then have "Pod_OnUpdate cl m now ob s = s" using p by (simp add: Pod_OnUpdate_untracked)
      with found_candidate[OF wf, of job] wf True show ?thesis unfolding ev by auto
    next
      case False
      from pod_finish_cases[of now p] obtain fin ex rt where "pod_finish now p = (?st, fin, ex, rt)" by blast
      from pod_terminal_does[OF this, of s job ?run cl] have
        "db_wf (w_db (Pod_OnUpdate cl m now ob s)) \<and>
         life_of (Pod_OnUpdate cl m now ob s) = untrack job (life_verdict ''UpdateJobRunStatus'' ?run ?st (life_of s))"
        using p Pod_OnUpdate_terminal[OF p(2) refl False \<open>terminal_phase (kp_phase p)\<close>] wf by (simp add: does_def)
      with found_candidate[OF wf, of job] False show ?thesis unfolding ev by auto
    qed
  next
    case False
    then have "does s (\<lambda>l. l) (Pod_OnUpdate cl m now ob s)"
      using p pod_running_does by (simp add: Pod_OnUpdate_def Let_def)
    with False p wf show ?thesis by (simp add: pod_event_def does_def)
  qed
next
  case False
  then show ?thesis using wf by (auto simp: Pod_OnUpdate_def pod_event_def split: k_obj.split option.split)
qed

lemma retry_pauseless: "retry_loop k (\<lambda>_ t. t) cl m now p job s \<in> {s, Pod_OnUpdate cl m now (K_Pod p) s}"
  by (induction k) auto

lemma Pod_OnAdd_step:
  assumes wf: "db_wf (w_db s)"
  shows "db_wf (w_db (Pod_OnAdd (\<lambda>_ t. t) cl m now ob ini s))
    \<and> life_step (pod_event ob) (life_of s) (life_of (Pod_OnAdd (\<lambda>_ t. t) cl m now ob ini s))"
proof (cases "pod_event ob = Unrelated")
  case True
  then have "Pod_OnAdd (\<lambda>_ t. t) cl m now ob ini s \<in> {s, Pod_OnUpdate cl m now ob s}"
    using retry_pauseless[of 10 cl m now]
    by (auto simp: Pod_OnAdd_def retryOnAdd_def split: k_obj.split option.split)
  with True wf Pod_OnUpdate_step[OF wf, of cl m now ob] show ?thesis by auto
next
  case False
  then obtain p where "ob = K_Pod p" "terminal_phase (kp_phase p)"
    by (auto simp: pod_event_def split: k_obj.splits option.splits if_splits)
  then have "Pod_OnAdd (\<lambda>_ t. t) cl m now ob ini s = Pod_OnUpdate cl m now ob s"
    by (auto simp: Pod_OnAdd_def terminal_phase_def)
  with Pod_OnUpdate_step[OF wf] show ?thesis by simp
qed

lemma Job_OnDelete_does:
  "does s (\<lambda>l. untrack (kj_name j) (if works ''GetJobRun'' l \<and> verdict l (kj_uid j) = Some ''running''
      then life_verdict ''MarkRunFailed'' (kj_uid j) ''failed'' l else l)) (Job_OnDelete now (K_Job j) s)"
proof -
  let ?c = "works ''GetJobRun'' (life_of s) \<and> verdict (life_of s) (kj_uid j) = Some ''running''"
  let ?t = "if ?c then store_try (MarkRunFailed now (w_db s) (kj_uid j)) s else s"
  have "does s (\<lambda>l. if works ''GetJobRun'' l \<and> verdict l (kj_uid j) = Some ''running''
      then life_verdict ''MarkRunFailed'' (kj_uid j) ''failed'' l else l) ?t"
    using does_verdict_failed[of s "kj_uid j" now] by (auto simp: does_def)
  from does_then[OF this does_untrack[of ?t "kj_name j"]]
  show ?thesis unfolding Job_OnDelete_def read_status[symmetric]
    by (simp add: Let_def split: sum.splits option.splits if_splits)
qed

lemma verdict_again: "verdict l i = Some st \<Longrightarrow> life_verdict op i st l = l"
  by (cases l) (auto simp: verdict_def life_verdict_def fun_upd_idem split: option.split)

lemma does_again:
  assumes "verdict (life_of s) i = Some st" and "status_ok st"
  shows "does s (\<lambda>l. l) (store_try (UpdateJobRunStatus (w_db s) i st fin ex rt) s)"
  using does_verdict_update[OF assms(2), of s i fin ex rt] verdict_again[OF assms(1)] by (simp add: does_def)

lemma backfill_ok: "status_ok (backfill_status j)"
  by (simp add: backfill_status_def status_ok_def)

lemma node_facts:
  "verdict (life_of (store_try (UpdateJobRunNode (w_db s) k nd im) s)) i = verdict (life_of s) i"
proof (cases "UpdateJobRunNode (w_db s) k nd im")
  case (Inr db)
  then have "db = set_runs (\<lambda>r. jr_id r = k) (\<lambda>r. r\<lparr>jr_node := Some nd, jr_image := Some im\<rparr>) (w_db s)"
    by (auto simp: UpdateJobRunNode_def)
  then show ?thesis unfolding Inr
    by (auto simp: verdict_def life_of_def run_facts_def set_runs_row option.map_comp comp_def)
qed (simp add: store_try_def)

lemma backfill_pod_does:
  assumes "verdict (life_of s) (kj_uid j) = Some st" and "status_ok st"
  shows "does s (\<lambda>l. l) (backfill_pod j st fin lg p s)"
proof -
  define s1 where "s1 = store_try (UpdateJobRunNode (w_db s) (kj_uid j) (kp_node p)
      (case kp_statuses p of [] \<Rightarrow> [] | cs # _ \<Rightarrow> ks_image cs)) s"
  have n: "does s (\<lambda>l. l) s1" unfolding s1_def by (rule does_node)
  have "verdict (life_of s1) (kj_uid j) = Some st" using assms(1) by (simp add: s1_def node_facts)
  from does_then[OF n does_again[OF this assms(2)]]
  have "does s (\<lambda>l. l) (store_try (UpdateJobRunStatus (w_db s1) (kj_uid j) st fin' ex rt) s1)" for fin' ex rt
    by simp
  from does_after[OF this] show ?thesis
    unfolding backfill_pod_def by (simp add: Let_def s1_def[symmetric])
qed

lemma store_try_ok: "s\<lparr>w_db := db\<rparr> = store_try (Inr db) s"
  by (simp add: store_try_def)

lemma backfillRun_does:
  "does s (\<lambda>l. if works ''GetJobRun'' l \<and> verdict l (kj_uid j) = Some ''succeeded'' then l
      else life_record (kj_name j) (kj_uid j) cj (backfill_status j) l) (backfillRun now pods j cj s)"
proof -
  let ?run = "kj_uid j" and ?st = "backfill_status j" and ?rec = "job_run_record now j cj (backfill_status j)"
  define ex where "ex = (case GetJobRun (w_db s) ?run of Inl _ \<Rightarrow> None | Inr r \<Rightarrow> r)"
  define lg where "lg = (case ex of None \<Rightarrow> False | Some r \<Rightarrow> 0 < jr_log_size r)"
  have guard: "(case ex of None \<Rightarrow> False | Some r \<Rightarrow> jr_status r = ''succeeded'')
      \<longleftrightarrow> works ''GetJobRun'' (life_of s) \<and> verdict (life_of s) ?run = Some ''succeeded''"
    unfolding ex_def read_status[symmetric] by (simp split: sum.split option.split)
  have rec: "jr_id ?rec = ?run" "jr_status ?rec = ?st" "jr_pod ?rec = kj_name j" "jr_cronjob ?rec = cj"
    "trigger_ok (jr_trigger ?rec)"
    by (simp_all add: job_run_record_def job_trigger_def trigger_ok_def)
  show ?thesis
  proof (cases "case ex of None \<Rightarrow> False | Some r \<Rightarrow> jr_status r = ''succeeded''")
    case True
    then have "backfillRun now pods j cj s = s" by (simp add: backfillRun_def ex_def[symmetric])
    with True show ?thesis by (simp add: guard does_def)
  next
    case go: False
    have up: "does s (life_record (kj_name j) ?run cj ?st) (store_try (UpsertJobRun (w_db s) ?rec) s)"
      using does_upsert[of ?rec s] backfill_ok by (simp add: rec)
    have "does s (life_record (kj_name j) ?run cj ?st) (backfillRun now pods j cj s)"
    proof (cases "UpsertJobRun (w_db s) ?rec")
      case (Inl e)
      then have "backfillRun now pods j cj s = store_try (UpsertJobRun (w_db s) ?rec) s"
        using go by (simp add: backfillRun_def Let_def ex_def[symmetric] store_try_def)
      with up show ?thesis by simp
    next
      case (Inr db)
      define s1 where "s1 = store_try (Inr db) s"
      define s2 where "s2 = (case kj_completion j of None \<Rightarrow> s1
          | Some t \<Rightarrow> store_try (UpdateJobRunStatus (w_db s1) ?run ?st (Some t) 0 0) s1)"
      define s3 where "s3 = (case pods of Inl _ \<Rightarrow> s2 | Inr ps \<Rightarrow>
          (case selectBestPod ps of None \<Rightarrow> s2 | Some p \<Rightarrow> backfill_pod j ?st (kj_completion j) lg p s2))"
      have v1: "verdict (life_of s1) ?run = Some ?st"
        using facts_upsert(1)[OF Inr] by (simp add: s1_def verdict_def life_of_def rec)
      have d2: "does s1 (\<lambda>l. l) s2" using does_again[OF v1 backfill_ok] by (simp add: s2_def split: option.split)
      have v2: "verdict (life_of s2) ?run = Some ?st"
      proof -
        have "verdict (life_of (store_try (UpdateJobRunStatus (w_db s1) ?run ?st fin 0 0) s1)) ?run = Some ?st" for fin
        proof (cases "UpdateJobRunStatus (w_db s1) ?run ?st fin 0 0")
          case up: (Inr db')
          then have "run_row db' ?run \<noteq> None \<and> (\<forall>r. run_row db' ?run = Some r \<longrightarrow> jr_status r = ?st)"
            using v1 by (auto simp: UpdateJobRunStatus_def Let_def set_runs_row verdict_def life_of_def run_facts_def split: if_splits)
          then show ?thesis unfolding up by (auto simp: verdict_def life_of_def run_facts_def)
        qed (use v1 in \<open>simp add: store_try_def\<close>)
        with v1 show ?thesis by (simp add: s2_def split: option.split)
      qed
      have d3: "does s2 (\<lambda>l. l) s3"
        using backfill_pod_does[OF v2 backfill_ok] by (simp add: s3_def split: sum.split option.split)
      have "backfillRun now pods j cj s = s3"
        using go Inr unfolding backfillRun_def s3_def s2_def s1_def lg_def ex_def
        by (simp only: Let_def sum.case store_try_ok if_False)
      with does_then[OF does_then[OF up[unfolded Inr, folded s1_def] d2] d3] show ?thesis by simp
    qed
    with go show ?thesis by (auto simp: guard does_def)
  qed
qed

lemma Job_OnAdd_step:
  assumes wf: "db_wf (w_db s)"
  shows "db_wf (w_db (Job_OnAdd cl now pods ob ini s))
    \<and> life_step (job_event cl ob ini) (life_of s) (life_of (Job_OnAdd cl now pods ob ini s))"
proof (cases "\<exists>j owner. ob = K_Job j \<and> cronJobOwner j = Some owner")
  case True
  then obtain j owner where j: "ob = K_Job j" "cronJobOwner j = Some owner" by blast
  let ?cj = "cronjob_key cl (kj_ns j) owner"
  show ?thesis
  proof (cases "ini \<and> jobIsDone j")
    case True
    with j wf backfillRun_does[of s j ?cj now pods] show ?thesis
      by (auto simp: Job_OnAdd_def Let_def job_event_def does_def)
  next
    case False
    let ?rec = "job_run_record now j ?cj ''running''"
    let ?s = "store_try (UpsertJobRun (w_db s) ?rec) s"
    have "does s (life_record (kj_name j) (kj_uid j) ?cj ''running'') ?s"
      using does_upsert[of ?rec s] by (simp add: job_run_record_def job_trigger_def trigger_ok_def status_ok_def)
    from does_then[OF this does_track[of ?s "kj_name j" "kj_uid j"]] False j wf show ?thesis
      by (auto simp: Job_OnAdd_def Let_def job_event_def does_def)
  qed
next
  case False
  then show ?thesis using wf by (auto simp: Job_OnAdd_def job_event_def split: k_obj.split option.split)
qed

section \<open>CronJobs and restarts\<close>

lemma CronJob_upsert_step:
  assumes wf: "db_wf (w_db s)"
  shows "db_wf (w_db (CronJob_upsert lib cl now k s))
    \<and> life_step (CronJob_Appears (cronjob_key cl (kcj_ns k) (kcj_name k))) (life_of s) (life_of (CronJob_upsert lib cl now k s))"
proof -
  let ?s = "store_try (UpsertCronJob (w_db s) (cronjob_record cl now k)) s"
  have same: "w_db (CronJob_upsert lib cl now k s) = w_db ?s" "w_index (CronJob_upsert lib cl now k s) = w_index ?s"
    by (simp_all add: CronJob_upsert_def Let_def split: sum.split)
  have "db_wf (w_db ?s) \<and> life_step (CronJob_Appears (cronjob_key cl (kcj_ns k) (kcj_name k))) (life_of s) (life_of ?s)"
  proof (cases "UpsertCronJob (w_db s) (cronjob_record cl now k)")
    case (Inr db)
    have key: "cj_id (cronjob_record cl now k) = cronjob_key cl (kcj_ns k) (kcj_name k)" by (simp add: cronjob_record_def Let_def)
    have ids: "set (cj_ids db) = set (cj_ids (w_db s))
        \<or> set (cj_ids db) = insert (cronjob_key cl (kcj_ns k) (kcj_name k)) (set (cj_ids (w_db s)))"
    proof (cases "cj_id (cronjob_record cl now k) \<in> set (cj_ids (w_db s))")
      case True
      with Inr have "db = set_cronjobs (\<lambda>r. cj_id r = cj_id (cronjob_record cl now k)) (refresh_cronjob (cronjob_record cl now k)) (w_db s)"
        by (auto simp: UpsertCronJob_def)
      then have "cj_ids db = cj_ids (w_db s)" by (simp add: set_cronjobs_ids refresh_cronjob_def)
      then show ?thesis by simp
    next
      case False
      with Inr show ?thesis by (auto simp: UpsertCronJob_def cj_ids_def key split: if_splits)
    qed
    from Inr have "db_runs db = db_runs (w_db s)" "db_down db = db_down (w_db s)"
      by (auto simp: UpsertCronJob_def set_cronjobs_def split: if_splits)
    then show ?thesis using UpsertCronJob_wf[OF wf Inr] ids
      by (auto simp: Inr life_of_def run_facts_def run_row_def fun_eq_iff)
  qed (use wf in \<open>simp add: store_try_def\<close>)
  then show ?thesis by (simp add: life_of_def same)
qed

lemma CronJob_markDeleted_does: "does s (\<lambda>l. l) (CronJob_markDeleted cl now ns nm s)"
proof (cases "MarkCronJobDeleted now (w_db s) (cronjob_key cl ns nm)")
  case (Inr db)
  then have "db_runs db = db_runs (w_db s)" "db_down db = db_down (w_db s)" "cj_ids db = cj_ids (w_db s)"
    by (auto simp: MarkCronJobDeleted_def set_cronjobs_def cj_ids_def map_upd_where_same)
  with Inr MarkCronJobDeleted_wf[OF _ Inr] show ?thesis
    by (intro doesI) (simp_all add: CronJob_markDeleted_def life_of_def run_facts_def run_row_def fun_eq_iff)
qed (simp add: CronJob_markDeleted_def)

lemma reconcile_loop_does: "does s (\<lambda>l. l) (reconcile_loop cl now present cs s)"
proof (induction cs arbitrary: s)
  case (Cons c cs)
  show ?case using Cons does_then[OF CronJob_markDeleted_does Cons] by simp
qed simp

definition failing :: "string set \<Rightarrow> life \<Rightarrow> life" where
  "failing is l = l\<lparr>lf_runs := (\<lambda>i. case lf_runs l i of None \<Rightarrow> None
     | Some (st, job) \<Rightarrow> Some (if i \<in> is \<and> works ''MarkRunFailed'' l then ''failed'' else st, job))\<rparr>"

lemma failing_insert: "failing is (life_verdict ''MarkRunFailed'' i ''failed'' l) = failing (insert i is) l"
  by (cases l) (auto simp: failing_def life_verdict_def works_def fun_eq_iff split: option.split)

lemma mark_stale_does: "does s (failing (jr_id ` set rs)) (s\<lparr>w_db := mark_stale now rs (w_db s)\<rparr>)"
proof (induction rs arbitrary: s)
  case Nil
  have "failing {} l = l" for l by (cases l) (auto simp: failing_def fun_eq_iff split: option.split)
  then show ?case by (simp add: does_def)
next
  case (Cons r rs)
  let ?s = "store_try (MarkRunFailed now (w_db s) (jr_id r)) s"
  have "does s (\<lambda>l. failing (jr_id ` set rs) (life_verdict ''MarkRunFailed'' (jr_id r) ''failed'' l))
      (?s\<lparr>w_db := mark_stale now rs (w_db ?s)\<rparr>)"
    by (rule does_then[OF does_verdict_failed Cons.IH])
  then show ?case unfolding failing_insert by (simp add: store_try_def)
qed

lemma restart_step:
  assumes wf: "db_wf (w_db s)"
  shows "db_wf (w_db (watch_do lib (Restart now) s)) \<and> life_step Restarted (life_of s) (life_of (watch_do lib (Restart now) s))"
proof -
  let ?s = "s\<lparr>w_db := restart_recovery now (w_db s)\<rparr>"
  let ?f = "\<lambda>i. case lf_runs (life_of s) i of None \<Rightarrow> None
     | Some (st, job) \<Rightarrow> Some (if st = ''running'' \<and> works ''GetRunningRuns'' (life_of s) \<and> works ''MarkRunFailed'' (life_of s)
                              then ''failed'' else st, job)"
  have "db_wf (w_db ?s) \<and> life_of ?s = (life_of s)\<lparr>lf_runs := ?f\<rparr>"
  proof (cases "GetRunningRuns (w_db s)")
    case (Inl e)
    then have "\<not> works ''GetRunningRuns'' (life_of s)"
      by (cases "db_down (w_db s) ''GetRunningRuns''") (auto simp: works_def life_of_def GetRunningRuns_def sql_rows_def exec_sql_up)
    then have "?f = lf_runs (life_of s)" by (auto simp: fun_eq_iff split: option.split)
    then show ?thesis using wf Inl by (simp add: restart_recovery_def life_of_def)
  next
    case (Inr rs)
    then have w: "works ''GetRunningRuns'' (life_of s)"
      by (auto simp: works_def life_of_def GetRunningRuns_def sql_rows_def)
    have eq: "jr_id ` {r \<in> set rs. jr_pod r = job} = {i. lf_runs (life_of s) i = Some (''running'', job)}" for job
      using running_found[OF wf, of job] by (simp only: Inr sum.case w if_True)
    have "i \<in> jr_id ` set rs \<longleftrightarrow> (\<exists>job. i \<in> jr_id ` {r \<in> set rs. jr_pod r = job})" for i by auto
    then have "i \<in> jr_id ` set rs \<longleftrightarrow> (\<exists>job. lf_runs (life_of s) i = Some (''running'', job))" for i
      unfolding eq by simp
    then have "failing (jr_id ` set rs) (life_of s) = (life_of s)\<lparr>lf_runs := ?f\<rparr>"
      using w by (auto simp: failing_def fun_eq_iff split: option.split)
    then show ?thesis using mark_stale_does[of s rs now] wf Inr by (simp add: does_def restart_recovery_def)
  qed
  moreover have "life_of (watch_do lib (Restart now) s) = (life_of ?s)\<lparr>lf_tracked := Map.empty\<rparr>"
    "w_db (watch_do lib (Restart now) s) = w_db ?s"
    by (simp_all add: life_of_def NewRunIndex_def)
  ultimately show ?thesis by simp
qed

section \<open>Every event\<close>

lemma watch_do_step:
  assumes wf: "db_wf (w_db s)"
  shows "db_wf (w_db (watch_do lib e s)) \<and> life_step (event_of e) (life_of s) (life_of (watch_do lib e s))"
proof (cases e)
  case e: (Informer cl m now pods res ev)
  show ?thesis
  proof (cases res)
    case R_CronJobs
    have "db_wf (w_db (CronJob_OnAdd lib cl now ob ini s)) \<and>
        life_step (cronjob_event cl ob) (life_of s) (life_of (CronJob_OnAdd lib cl now ob ini s))"
      "db_wf (w_db (CronJob_OnUpdate lib cl now ob s)) \<and>
        life_step (cronjob_event cl ob) (life_of s) (life_of (CronJob_OnUpdate lib cl now ob s))"
      "db_wf (w_db (CronJob_OnDelete cl now ob s)) \<and> life_of (CronJob_OnDelete cl now ob s) = life_of s" for ob ini
      using CronJob_upsert_step[OF wf, of lib cl now] CronJob_markDeleted_does[of s cl now] wf
      by (auto simp: CronJob_OnAdd_def CronJob_OnUpdate_def CronJob_OnDelete_def cronjob_event_def does_def
          split: k_obj.split)
    then show ?thesis by (simp add: e R_CronJobs deliver_def split: informer_event.split)
  next
    case R_Jobs
    have "db_wf (w_db (Job_OnDelete now ob s)) \<and>
        life_step (case ob of K_Job j \<Rightarrow> Job_Vanishes (kj_name j) (kj_uid j) | _ \<Rightarrow> Unrelated) (life_of s) (life_of (Job_OnDelete now ob s))" for ob
    proof (cases ob)
      case (K_Job j)
      with wf Job_OnDelete_does[of s j now] show ?thesis by (simp add: does_def)
    qed (use wf in \<open>simp_all add: Job_OnDelete_def\<close>)
    then show ?thesis using Job_OnAdd_step[OF wf, of cl now pods] wf
      by (auto simp: e R_Jobs deliver_def Job_OnUpdate_def split: informer_event.split k_obj.split)
  next
    case R_Pods
    then show ?thesis using Pod_OnAdd_step[OF wf, of cl m now] Pod_OnUpdate_step[OF wf, of cl m now] wf
      by (auto simp: e deliver_def Pod_OnDelete_def split: informer_event.split)
  qed
next
  case e: (Reconcile cl now synced live)
  have "does s (\<lambda>l. l) (watch_do lib e s)"
    using reconcile_loop_does by (auto simp: e reconcile_after_sync_def CronJob_Reconcile_def Let_def split: sum.split)
  with wf show ?thesis by (simp add: does_def e)
next
  case e: (Trigger_Record cl now ns nm j)
  let ?r = "triggered_run now cl ns nm j"
  have "does s (life_record (jr_pod ?r) (jr_id ?r) (jr_cronjob ?r) (jr_status ?r)) (watch_do lib e s)"
    unfolding e watch_do.simps by (rule does_upsert) (simp_all add: triggered_run_def trigger_ok_def status_ok_def)
  with wf show ?thesis by (simp add: e does_def triggered_run_def)
next
  case (Restart now)
  then show ?thesis using restart_step[OF wf, of lib now] by simp
next
  case (Driver down)
  have "life_of (watch_do lib e s) = (life_of s)\<lparr>lf_down := down\<rparr>"
    by (simp add: Driver life_of_def run_facts_def run_row_def fun_eq_iff cj_ids_def)
  with driver_wf[OF wf, of down] Driver show ?thesis by simp
qed

interpretation watcher: event_refinement "watch_do lib" life_step event_of life_of "\<lambda>s. db_wf (w_db s)" for lib
  using watch_do_step by unfold_locales blast+

section \<open>What the abstract machine guarantees\<close>

text \<open>An event that opens a run.\<close>

definition opens :: "string \<Rightarrow> life_event \<Rightarrow> bool" where
  "opens i e \<longleftrightarrow> (\<exists>job cj. e = Job_Appears job i cj \<or> e = Triggered job i cj)"

definition reads_runs :: "life_event \<Rightarrow> bool" where
  "reads_runs e \<longleftrightarrow> (\<forall>down. e = Driver_Changes down \<longrightarrow> down ''GetJobRun'' = None)"

definition settled :: "string \<Rightarrow> life \<Rightarrow> bool" where
  "settled i l \<longleftrightarrow> verdict l i = Some ''succeeded'' \<and> i \<notin> ran (lf_tracked l) \<and> works ''GetJobRun'' l"

lemma life_record_simps [simp]:
  "lf_tracked (life_record job i cj st l) = lf_tracked l" "lf_down (life_record job i cj st l) = lf_down l"
  "j \<noteq> i \<Longrightarrow> verdict (life_record job i cj st l) j = verdict l j"
  by (simp_all add: life_record_def verdict_def)

lemma life_verdict_simps [simp]:
  "lf_tracked (life_verdict op i st l) = lf_tracked l" "lf_down (life_verdict op i st l) = lf_down l"
  "j \<noteq> i \<Longrightarrow> verdict (life_verdict op i st l) j = verdict l j"
  by (simp_all add: life_verdict_def verdict_def split: option.split)

lemma track_simps [simp]:
  "lf_tracked (track job i l) = (lf_tracked l)(job \<mapsto> i)" "verdict (track job i l) j = verdict l j"
  "lf_tracked (untrack job l) = (lf_tracked l)(job := None)" "verdict (untrack job l) j = verdict l j"
  "works op (track job i l) = works op l" "works op (untrack job l) = works op l"
  by (simp_all add: track_def untrack_def verdict_def works_def)

lemma works_same [simp]: "works op (life_record job i cj st l) = works op l" "works op' (life_verdict op i st l) = works op' l"
  by (simp_all add: works_def)

lemma ran_upd: "x \<notin> ran m \<Longrightarrow> x \<noteq> y \<Longrightarrow> x \<notin> ran (m(k \<mapsto> y))" "x \<notin> ran m \<Longrightarrow> x \<notin> ran (m(k := None))"
  by (auto simp: ran_def)

lemma candidate_not_settled: "settled i l \<Longrightarrow> i \<notin> candidates job l"
  by (auto simp: settled_def candidates_def verdict_def ran_def split: option.splits list.splits if_splits)

lemma settled_step:
  assumes "life_step e l l'" and "settled i l" and "\<not> opens i e" and "reads_runs e"
  shows "settled i l'"
proof (cases e)
  case (Job_Appears job k cj)
  then have "k \<noteq> i" using assms(3) by (auto simp: opens_def)
  then show ?thesis using assms(1,2) ran_upd(1)[of i "lf_tracked l" k job] by (auto simp: Job_Appears settled_def)
next
  case (Job_Found_Done job k cj st)
  then show ?thesis using assms(1,2) by (cases "k = i") (auto simp: settled_def split: if_splits)
next
  case (Job_Vanishes job k)
  then show ?thesis using assms(1,2) ran_upd(2)[of i "lf_tracked l" job]
    by (cases "k = i") (auto simp: settled_def split: if_splits)
next
  case (Pod_Ends job st)
  with assms(1) obtain k where "l' = l \<or> k \<in> candidates job l \<and> l' = untrack job (life_verdict ''UpdateJobRunStatus'' k st l)"
    by auto
  then show ?thesis using assms(2) candidate_not_settled[OF assms(2), of job] ran_upd(2)[of i "lf_tracked l" job]
    by (cases "k = i") (auto simp: settled_def)
next
  case (Triggered job k cj)
  then have "k \<noteq> i" using assms(3) by (auto simp: opens_def)
  then show ?thesis using assms(1,2) by (auto simp: Triggered settled_def)
next
  case Restarted
  then show ?thesis using assms(1,2) by (auto simp: settled_def verdict_def works_def ran_def split: option.splits)
next
  case (Driver_Changes down)
  then show ?thesis using assms(1,2,4) by (auto simp: settled_def verdict_def works_def reads_runs_def)
qed (use assms(1,2) in \<open>auto simp: settled_def verdict_def works_def\<close>)

section \<open>Pauses\<close>

text \<open>
  A \<open>Pod_OnAdd\<close> that retries while other goroutines handle events during its pauses does what
  some sequence of unpaused events does: those of the others, and one update.
\<close>

abbreviation pod_update :: "string \<Rightarrow> bool \<Rightarrow> gotime \<Rightarrow> k_pod list result \<Rightarrow> k_obj \<Rightarrow> watch_event" where
  "pod_update cl m now pods ob \<equiv> Informer cl m now pods R_Pods (Updated ob ob)"

lemma update_event: "watch_do lib (pod_update cl m now pods ob) s = Pod_OnUpdate cl m now ob s"
  by (simp add: deliver_def)

lemma retry_events:
  "\<exists>es. set es \<subseteq> insert (pod_update cl m now pods (K_Pod p)) (\<Union>n. set (others n))
     \<and> retry_loop k (\<lambda>n. fold (watch_do lib) (others n)) cl m now p job s = fold (watch_do lib) es s"
proof (induction k arbitrary: s)
  case 0
  show ?case by (rule exI[of _ "[]"]) simp
next
  case (Suc k)
  show ?case
  proof (cases "findRunID s job = []")
    case True
    from Suc[of "fold (watch_do lib) (others k) s"] obtain es where
      "set es \<subseteq> insert (pod_update cl m now pods (K_Pod p)) (\<Union>n. set (others n))"
      "retry_loop k (\<lambda>n. fold (watch_do lib) (others n)) cl m now p job (fold (watch_do lib) (others k) s)
        = fold (watch_do lib) es (fold (watch_do lib) (others k) s)" by blast
    with True show ?thesis by (intro exI[of _ "others k @ es"]) auto
  next
    case False
    then show ?thesis
      by (intro exI[of _ "[pod_update cl m now pods (K_Pod p)]"]) (simp add: update_event del: watch_do.simps)
  qed
qed

lemma deliver_events:
  "\<exists>es. set es \<subseteq> {Informer cl m now pods res ev} \<union> (\<Union>ob. {pod_update cl m now pods ob}) \<union> (\<Union>n. set (others n))
     \<and> deliver lib cl (\<lambda>n. fold (watch_do lib) (others n)) m now pods res ev s = fold (watch_do lib) es s"
proof (cases "res = R_Pods \<and> (\<exists>p. ev = Added (K_Pod p) True \<and> kp_phase p = ''Running'')")
  case True
  then obtain p where p: "res = R_Pods" "ev = Added (K_Pod p) True" "kp_phase p = ''Running''" by blast
  show ?thesis
  proof (cases "jobOwner p")
    case None
    with p show ?thesis by (intro exI[of _ "[]"]) (simp add: deliver_def Pod_OnAdd_def retryOnAdd_def)
  next
    case (Some job)
    from retry_events[where k = 10 and job = job and s = s and cl = cl and m = m and now = now and pods = pods and p = p
        and others = others and lib = lib] obtain es where
      "set es \<subseteq> insert (pod_update cl m now pods (K_Pod p)) (\<Union>n. set (others n))"
      "retry_loop 10 (\<lambda>n. fold (watch_do lib) (others n)) cl m now p job s = fold (watch_do lib) es s" by blast
    moreover have "deliver lib cl (\<lambda>n. fold (watch_do lib) (others n)) m now pods res ev s
        = retry_loop 10 (\<lambda>n. fold (watch_do lib) (others n)) cl m now p job s"
      using p Some by (simp add: deliver_def Pod_OnAdd_def retryOnAdd_def del: retry_loop.simps)
    ultimately show ?thesis by (intro exI[of _ es]) auto
  qed
next
  case False
  then have "deliver lib cl env m now pods res ev s = watch_do lib (Informer cl m now pods res ev) s" for env
    by (auto simp: deliver_def Pod_OnAdd_def split: resource.split informer_event.split k_obj.split)
  then show ?thesis
    by (intro exI[of _ "[Informer cl m now pods res ev]"]) (simp del: watch_do.simps)
qed

section \<open>The refinement\<close>

text \<open>
  C8. Refinement: whatever the informers, the trigger endpoint, restarts of the program and the
  database driver do, in any order, each event changes the verdicts, the run index and the
  recorded CronJobs exactly as the event of the abstract machine of that name does: a Job that
  appears opens its run and tracks it; one that is found done sets the verdict unless the run
  can be read and has succeeded; one that vanishes fails its run if it can be read and is in
  flight, and is forgotten; the end of a pod closes the run tracked under the Job's name, or one
  in flight under that name; a restart fails what is in flight; everything else leaves the runs
  alone, and a statement that the driver refuses leaves its part out. So a run that has
  succeeded and is not tracked keeps its verdict until its Job appears again or is triggered,
  as long as runs can be read. A handler that pauses between retries while other goroutines
  handle events does what a sequence of such events does.
\<close>

theorem watcher_refines_life:
  assumes "db_wf (w_db s)"
  shows "steps_along life_step (map event_of es) (life_of s) (life_of (fold (watch_do lib) es s))
    \<and> (\<forall>i. settled i (life_of s) \<and> (\<forall>e \<in> set es. \<not> opens i (event_of e) \<and> reads_runs (event_of e)) \<longrightarrow>
        settled i (life_of (fold (watch_do lib) es s)))
    \<and> (\<forall>others cl m now pods res ev. \<exists>es'.
        set es' \<subseteq> {Informer cl m now pods res ev} \<union> (\<Union>ob. {pod_update cl m now pods ob}) \<union> (\<Union>n. set (others n))
        \<and> deliver lib cl (\<lambda>n. fold (watch_do lib) (others n)) m now pods res ev s = fold (watch_do lib) es' s)"
proof (intro conjI allI impI)
  show "steps_along life_step (map event_of es) (life_of s) (life_of (fold (watch_do lib) es s))"
    by (rule watcher.run_steps[OF assms])
  show "settled i (life_of (fold (watch_do lib) es s))"
    if "settled i (life_of s) \<and> (\<forall>e \<in> set es. \<not> opens i (event_of e) \<and> reads_runs (event_of e))" for i
    using watcher.run_keeps[where P = "settled i" and Q = "\<lambda>f. \<not> opens i f \<and> reads_runs f" and s = s and es = es and lib = lib]
      settled_step assms that by blast
qed (rule deliver_events)

text \<open>The run \<open>r2\<close> of the example ends, its pod is seen again and its Job vanishes: the verdict stays.\<close>

theorem watcher_refines_life_witness:
  "steps_along life_step [Pod_Ends ''p'' ''succeeded'', Job_Vanishes ''p'' ''r2'']
     (life_of (demo_watch demo_db))
     (life_of (fold (watch_do (fixed_lib id))
       [pod_update ''c'' True 30 (Inr []) (K_Pod demo_pod),
        Informer ''c'' True 31 (Inr []) R_Jobs (Deleted (K_Job (demo_job ''ns'' ''r2'')))] (demo_watch demo_db)))
   \<and> settled ''r2'' (life_of (fold (watch_do (fixed_lib id))
       [Informer ''c'' True 31 (Inr []) R_Jobs (Deleted (K_Job (demo_job ''ns'' ''r2'')))]
       (Pod_OnUpdate ''c'' True 30 (K_Pod demo_pod) (demo_watch demo_db))))"
proof -
  let ?s = "demo_watch demo_db" and ?t = "Pod_OnUpdate ''c'' True 30 (K_Pod demo_pod) (demo_watch demo_db)"
  let ?u = "pod_update ''c'' True 30 (Inr []) (K_Pod demo_pod)"
  let ?d = "Informer ''c'' True 31 (Inr []) R_Jobs (Deleted (K_Job (demo_job ''ns'' ''r2'')))"
  have wf: "db_wf (w_db ?s)" using demo_wf by (simp add: demo_watch_def)
  have ev: "event_of ?u = Pod_Ends ''p'' ''succeeded''" "event_of ?d = Job_Vanishes ''p'' ''r2''"
    using demo_pod_facts by (simp_all add: pod_event_def demo_job_facts) (simp add: demo_pod_def)
  have tr: "steps_along life_step [Pod_Ends ''p'' ''succeeded'', Job_Vanishes ''p'' ''r2''] (life_of ?s)
      (life_of (fold (watch_do (fixed_lib id)) [?u, ?d] ?s))"
    using watcher_refines_life[OF wf, of "[?u, ?d]" "fixed_lib id"] by (simp only: list.map ev)
  have wf': "db_wf (w_db ?t)" using Pod_OnUpdate_step[OF wf] by blast
  have "Pod_OnUpdate ''c'' True 30 (K_Pod demo_pod) ?s = pod_terminal ''c'' 30 demo_pod ''p'' ''r2'' ?s"
    by (rule Pod_OnUpdate_terminal) (use demo_pod_facts in \<open>simp_all add: findRunID_def demo_watch_def\<close>)
  then have "life_of ?t = untrack ''p'' (life_verdict ''UpdateJobRunStatus'' ''r2'' ''succeeded'' (life_of ?s))"
    using pod_terminal_does[OF demo_pod_facts(3)[of 30], of ?s "''p''" "''r2''" "''c''"] wf by (simp add: does_def)
  then have "settled ''r2'' (life_of ?t)"
    using demo_r2 demo_up by (simp add: settled_def verdict_def life_verdict_def untrack_def works_def life_of_def demo_watch_def
        run_facts_def demo_run_def Index_Set_def NewRunIndex_def)
  moreover have "\<forall>e \<in> set [?d]. \<not> opens ''r2'' (event_of e) \<and> reads_runs (event_of e)"
    using ev(2) by (simp add: opens_def reads_runs_def)
  ultimately show ?thesis using tr watcher_refines_life[OF wf', of "[?d]" "fixed_lib id"] by blast
qed

end
