(* ===== verification/Server.thy ===== *)
theory Server
  imports Http_Guards Modes
begin

text \<open>
  The server of src/internal/api/server.go and the modes of \<open>mode.go\<close>: which routes each mode
  registers, how the ServeMux of \<open>net/http\<close> picks one, which middlewares stand in front of it
  and in which order. The handlers behind the routes are the argument \<open>app\<close>, one per
  endpoint; login, callback, logout, the operator gate and the limiters are the model's own.
\<close>

section \<open>Patterns and matching\<close>

datatype seg = Lit string | Wild

record pattern =
  pt_text :: string
  pt_method :: string
  pt_segs :: "seg list"
  pt_multi :: bool

definition parse_seg :: "string \<Rightarrow> seg" where
  "parse_seg s = (if has_prefix s ''{'' then Wild else Lit s)"

text \<open>A pattern that ends in a slash matches every path below it.\<close>

definition parse_pattern :: "string \<Rightarrow> pattern" where
  "parse_pattern t =
     (case split_at CHR '' '' t of
        (m, p) \<Rightarrow>
          (let segs = split_all CHR ''/'' (case p of None \<Rightarrow> [] | Some p' \<Rightarrow> tl p') in
           \<lparr>pt_text = t, pt_method = m,
            pt_segs = map parse_seg (if last segs = [] then butlast segs else segs),
            pt_multi = (last segs = [])\<rparr>))"

definition unescape_seg :: "string \<Rightarrow> string" where
  "unescape_seg s = (case pct_decode False s of None \<Rightarrow> s | Some t \<Rightarrow> t)"

text \<open>The segments of a clean path; a trailing slash is a segment of its own.\<close>

definition path_segs :: "string \<Rightarrow> string list" where
  "path_segs p =
     (let ss = split_all CHR ''/'' (tl p) in
      map unescape_seg (butlast ss) @ [if last ss = [] then ''/'' else unescape_seg (last ss)])"

fun match_segs :: "bool \<Rightarrow> seg list \<Rightarrow> string list \<Rightarrow> string list option" where
  "match_segs multi [] [] = (if multi then None else Some [])"
| "match_segs multi [] (s # ss) = (if multi then Some [] else None)"
| "match_segs multi (p # ps) [] = None"
| "match_segs multi (Lit l # ps) (s # ss) = (if s = l then match_segs multi ps ss else None)"
| "match_segs multi (Wild # ps) (s # ss) =
     (if s = ''/'' then None else map_option (Cons s) (match_segs multi ps ss))"

definition method_matches :: "string \<Rightarrow> string \<Rightarrow> bool" where
  "method_matches pm m \<longleftrightarrow> pm = m \<or> (pm = ''GET'' \<and> m = ''HEAD'')"

section \<open>The endpoints and the route table\<close>

datatype endpoint =
    Collector | ListClustersV1 | ListCronJobsV1 | ListRunsV1 | DailyRunStatsV1 | GetRunV1
  | GetResourceSamplesV1 | GetLogsV1 | DownloadLogsV1 | StreamLogsV1 | V1_Not_Found
  | Metrics | Healthz | Readyz | Mode_Not_Found
  | Static | Login | Callback | Logout | Logged_Out
  | List_Clusters | List_CronJobs | List_Runs | Stream_Run | Resource_Samples | Download_Logs
  | Suspend | Resume | Trigger
  | RunsListMore | RunDetail | RunsList | NamespaceRows | NamespaceDetail | ClusterDetail | Dashboard

type_synonym route = "pattern \<times> endpoint"

definition routes_of :: "(string \<times> endpoint) list \<Rightarrow> route list" where
  "routes_of rs = map (\<lambda>(t, e). (parse_pattern t, e)) rs"

definition registerCollectorAPI :: "(string \<times> endpoint) list" where
  "registerCollectorAPI =
    [(''GET /api/v1/collector'', Collector),
     (''GET /api/v1/clusters'', ListClustersV1),
     (''GET /api/v1/clusters/{clusterID}/cronjobs'', ListCronJobsV1),
     (''GET /api/v1/clusters/{clusterID}/cronjobs/{ns}/{name}/runs'', ListRunsV1),
     (''GET /api/v1/clusters/{clusterID}/cronjobs/{ns}/{name}/daily'', DailyRunStatsV1),
     (''GET /api/v1/runs/{id}'', GetRunV1),
     (''GET /api/v1/runs/{id}/samples'', GetResourceSamplesV1),
     (''GET /api/v1/runs/{id}/logs'', GetLogsV1),
     (''GET /api/v1/runs/{id}/logs.txt'', DownloadLogsV1),
     (''GET /api/v1/runs/{id}/stream'', StreamLogsV1),
     (''GET /api/v1/'', V1_Not_Found)]"

definition registerUI :: "bool \<Rightarrow> (string \<times> endpoint) list" where
  "registerUI oidc =
    [(''GET /static/'', Static)]
    @ (if oidc then
         [(''GET /auth/login'', Login),
          (''GET /auth/callback'', Callback),
          (''POST /auth/logout'', Logout),
          (''GET /auth/logged-out'', Logged_Out)] else [])
    @ [(''GET /api/clusters'', List_Clusters),
       (''GET /api/clusters/{clusterID}/cronjobs'', List_CronJobs),
       (''GET /api/clusters/{clusterID}/cronjobs/{ns}/{name}/runs'', List_Runs),
       (''GET /api/runs/{id}/stream'', Stream_Run),
       (''GET /api/runs/{id}/resources'', Resource_Samples),
       (''GET /api/runs/{id}/logs.txt'', Download_Logs),
       (''POST /api/clusters/{clusterID}/cronjobs/{ns}/{name}/suspend'', Suspend),
       (''POST /api/clusters/{clusterID}/cronjobs/{ns}/{name}/resume'', Resume),
       (''POST /api/clusters/{clusterID}/cronjobs/{ns}/{name}/trigger'', Trigger),
       (''GET /clusters/{clusterID}/cronjobs/{ns}/{name}/runs/more'', RunsListMore),
       (''GET /clusters/{clusterID}/cronjobs/{ns}/{name}/runs/{id}'', RunDetail),
       (''GET /clusters/{clusterID}/cronjobs/{ns}/{name}/runs'', RunsList),
       (''GET /clusters/{clusterID}/cronjobs/{ns}/rows'', NamespaceRows),
       (''GET /clusters/{clusterID}/cronjobs/{ns}'', NamespaceDetail),
       (''GET /clusters/{clusterID}'', ClusterDetail),
       (''GET /'', Dashboard)]"

definition probe_routes :: "(string \<times> endpoint) list" where
  "probe_routes = [(''GET /metrics'', Metrics), (''GET /healthz'', Healthz), (''GET /readyz'', Readyz)]"

record server =
  sv_mode :: mode
  sv_auth :: "authenticator option"
  sv_token :: string

definition server_routes :: "server \<Rightarrow> (string \<times> endpoint) list" where
  "server_routes sv =
     registerCollectorAPI @ probe_routes @
     (if ServesUI (sv_mode sv) then registerUI (sv_auth sv \<noteq> None)
      else [(''GET /'', Mode_Not_Found)])"

section \<open>Dispatch\<close>

text \<open>
  The table lists the more specific of two overlapping patterns first, so taking the first
  match is the ServeMux's choice of the most specific one.
\<close>

fun match_route :: "route list \<Rightarrow> string \<Rightarrow> string list \<Rightarrow> (route \<times> string list) option" where
  "match_route [] m ss = None"
| "match_route ((p, e) # rs) m ss =
     (case (if method_matches (pt_method p) m then match_segs (pt_multi p) (pt_segs p) ss else None) of
        None \<Rightarrow> match_route rs m ss
      | Some params \<Rightarrow> Some ((p, e), params))"

definition slashes :: "string \<Rightarrow> nat" where "slashes p = length (filter (\<lambda>c. c = CHR ''/'') p)"

definition exact_match :: "(route \<times> string list) option \<Rightarrow> string \<Rightarrow> bool" where
  "exact_match n path =
     (case n of
        None \<Rightarrow> False
      | Some ((p, _), _) \<Rightarrow>
          \<not> pt_multi p \<or> (last path = CHR ''/'' \<and> length (pt_segs p) + 1 = slashes path))"

datatype dispatch =
    To route "string list"
  | Redirect_Slash string
  | Redirect_Clean string string
  | Not_Allowed "string list"
  | Not_Found

definition matching_methods :: "route list \<Rightarrow> string \<Rightarrow> string list" where
  "matching_methods rs path =
     (let hits = (\<lambda>ss. filter (\<lambda>(p, e). match_segs (pt_multi p) (pt_segs p) ss \<noteq> None) rs);
          found = map (pt_method \<circ> fst) (hits (path_segs path)
                    @ (if last path = CHR ''/'' then [] else hits (path_segs (path @ ''/''))))
      in filter (\<lambda>m. m \<in> set found \<or> (m = ''HEAD'' \<and> ''GET'' \<in> set found)) [''GET'', ''HEAD'', ''POST''])"

definition mux_dispatch :: "route list \<Rightarrow> request \<Rightarrow> dispatch" where
  "mux_dispatch rs r =
     (let path = cleanPath (rq_path r);
          n = match_route rs (rq_method r) (path_segs path);
          path' = path @ ''/'' in
      if last path \<noteq> CHR ''/'' \<and> \<not> exact_match n path
         \<and> exact_match (match_route rs (rq_method r) (path_segs path')) path'
      then Redirect_Slash (cleanPath (url_path r) @ ''/'')
      else if path \<noteq> rq_path r
      then Redirect_Clean path (case n of None \<Rightarrow> [] | Some ((p, _), _) \<Rightarrow> pt_text p)
      else (case n of
              Some (rt, params) \<Rightarrow> To rt params
            | None \<Rightarrow> (let ms = matching_methods rs path in
                         if ms \<noteq> [] then Not_Allowed ms else Not_Found)))"

definition with_query :: "request \<Rightarrow> string \<Rightarrow> string" where
  "with_query r p = p @ (if rq_query r = [] then [] else CHR ''?'' # rq_query r)"

fun join_comma :: "string list \<Rightarrow> string" where
  "join_comma [] = []"
| "join_comma [s] = s"
| "join_comma (s # ss) = s @ '', '' @ join_comma ss"

definition ServeMux :: "route list \<Rightarrow> (endpoint \<Rightarrow> 'a handler) \<Rightarrow> 'a handler" where
  "ServeMux rs h r x =
     (case mux_dispatch rs r of
        To rt params \<Rightarrow> h (snd rt) (r\<lparr>rq_params := params\<rparr>) (x\<lparr>x_pattern := pt_text (fst rt)\<rparr>)
      | Redirect_Slash u \<Rightarrow> http_redirect (with_query r u) 307 (x\<lparr>x_pattern := u\<rparr>)
      | Redirect_Clean u pat \<Rightarrow> http_redirect (with_query r u) 307 (x\<lparr>x_pattern := pat\<rparr>)
      | Not_Allowed ms \<Rightarrow>
          http_error ''Method Not Allowed'' 405
            (set_header ''Allow'' (join_comma ms) (x\<lparr>x_pattern := []\<rparr>))
      | Not_Found \<Rightarrow> http_error ''404 page not found'' 404 (x\<lparr>x_pattern := []\<rparr>))"

section \<open>Endpoints behind their own guards\<close>

definition loginLimiter :: "'a handler \<Rightarrow> 'a handler" where
  "loginLimiter = RateLimit 10 minute x_login (\<lambda>b x. x\<lparr>x_login := b\<rparr>)"

definition triggerLimiter :: "'a handler \<Rightarrow> 'a handler" where
  "triggerLimiter = RateLimit 20 minute x_trigger (\<lambda>b x. x\<lparr>x_trigger := b\<rparr>)"

definition operator :: "server \<Rightarrow> 'a handler \<Rightarrow> 'a handler" where
  "operator sv = (case sv_auth sv of None \<Rightarrow> (\<lambda>next. next) | Some a \<Rightarrow> RequireOperator a)"

text \<open>
  The body of \<open>modeNotFound\<close>: a map, whose keys the encoder sorts. The route exists in server
  mode only, so the mode it names is that one.
\<close>

definition mode_error :: string where
  "mode_error =
     ''{\"api\":\"/api/v1/collector\",\"error\":\"this KubeCron runs in server (collector) mode and serves no UI\",''
     @ ''\"hint\":\"set KUBECRON_MODE=ui to serve the dashboard from this instance\",\"mode\":\"server\",\"product\":\"kubecron\"}''
     @ [CHR 0x0A]"

definition modeNotFound :: "'a handler" where
  "modeNotFound r x = writeJSON 404 mode_error x"

definition endpoint_handler ::
    "crypto \<Rightarrow> provider \<Rightarrow> server \<Rightarrow> (endpoint \<Rightarrow> 'a handler) \<Rightarrow> endpoint \<Rightarrow> 'a handler" where
  "endpoint_handler cr od sv app e =
     (case e of
        Suspend \<Rightarrow> operator sv (app Suspend)
      | Resume \<Rightarrow> operator sv (app Resume)
      | Trigger \<Rightarrow> operator sv (triggerLimiter (app Trigger))
      | Login \<Rightarrow> (case sv_auth sv of None \<Rightarrow> app Login | Some a \<Rightarrow> loginLimiter (HandleLogin od a))
      | Callback \<Rightarrow> (case sv_auth sv of None \<Rightarrow> app Callback | Some a \<Rightarrow> HandleCallback cr od a)
      | Logout \<Rightarrow> (case sv_auth sv of None \<Rightarrow> app Logout | Some a \<Rightarrow> HandleLogout a)
      | Mode_Not_Found \<Rightarrow> modeNotFound
      | _ \<Rightarrow> app e)"

section \<open>The front door and the chain\<close>

definition isCollectorAPI :: "string \<Rightarrow> bool" where
  "isCollectorAPI p \<longleftrightarrow> p = ''/api/v1'' \<or> has_prefix p ''/api/v1/''"

definition splitFrontDoor ::
    "crypto \<Rightarrow> ('a handler \<Rightarrow> 'a handler) \<Rightarrow> string \<Rightarrow> 'a handler \<Rightarrow> 'a handler" where
  "splitFrontDoor cr session apiToken =
     (if apiToken = [] then session
      else (\<lambda>next r x. if isCollectorAPI (url_path r) then BearerAuth cr apiToken next r x
                       else session next r x))"

definition frontDoor :: "crypto \<Rightarrow> server \<Rightarrow> authenticator \<Rightarrow> 'a handler \<Rightarrow> 'a handler" where
  "frontDoor cr sv a = splitFrontDoor cr (Middleware cr a) (sv_token sv)"

definition middlewares :: "crypto \<Rightarrow> server \<Rightarrow> ('a handler \<Rightarrow> 'a handler) list" where
  "middlewares cr sv =
     (if \<not> ServesUI (sv_mode sv) then
        (if sv_token sv \<noteq> [] then [BearerAuth cr (sv_token sv)] else [])
        @ [Logger, Instrument, Recover, SecurityHeaders]
      else
        (case sv_auth sv of None \<Rightarrow> [] | Some a \<Rightarrow> [frontDoor cr sv a])
        @ [Logger, Instrument, Recover, SecurityHeaders,
           EnsureCSRFCookie (case sv_auth sv of None \<Rightarrow> False | Some a \<Rightarrow> au_secure a), CSRFProtect])"

definition server_mux ::
    "crypto \<Rightarrow> provider \<Rightarrow> server \<Rightarrow> (endpoint \<Rightarrow> 'a handler) \<Rightarrow> 'a handler" where
  "server_mux cr od sv app =
     ServeMux (routes_of (server_routes sv)) (endpoint_handler cr od sv app)"

definition buildHandler ::
    "crypto \<Rightarrow> provider \<Rightarrow> server \<Rightarrow> (endpoint \<Rightarrow> 'a handler) \<Rightarrow> 'a handler" where
  "buildHandler cr od sv app = Chain (server_mux cr od sv app) (middlewares cr sv)"

text \<open>
  What \<open>net/http\<close> does around the handler: a request whose path does not decode is answered
  400 before any handler runs, every other one starts with an empty response and context.
\<close>

definition serve ::
    "crypto \<Rightarrow> provider \<Rightarrow> server \<Rightarrow> (endpoint \<Rightarrow> 'a handler) \<Rightarrow> 'a handler" where
  "serve cr od sv app r x =
     (let x0 = x\<lparr>x_headers := [], x_cookies := [], x_out := [], x_panic := False, x_pattern := []\<rparr> in
      if pct_decode False (rq_path r) = None then http_error ''400 Bad Request'' 400 x0
      else buildHandler cr od sv app (r\<lparr>rq_email := [], rq_params := []\<rparr>) x0)"

end
