(* ===== verification/Auth_Props.thy ===== *)
theory Auth_Props
  imports Auth
begin

text \<open>
  What the login flow and its session cookie promise, and where the redirect check of the
  flow falls short of its purpose.
\<close>

section \<open>The cookie\<close>

lemma split_two_hit: "c \<notin> set a \<Longrightarrow> split_n 2 c (a @ c # b) = [a, b]"
  by (simp add: numeral_2_eq_2 split_at_hit)

lemma split_two_iff: "split_n 2 c s = [a, b] \<longleftrightarrow> s = a @ c # b \<and> c \<notin> set a"
proof
  assume eq: "split_n 2 c s = [a, b]"
  obtain p q where pq: "split_at c s = (p, q)" by (cases "split_at c s")
  with eq obtain q' where "q = Some q'" "p = a" "q' = b"
    by (auto simp: numeral_2_eq_2 split: option.splits)
  with pq show "s = a @ c # b \<and> c \<notin> set a" by (auto dest: split_at_SomeD)
qed (auto simp: split_two_hit)

lemma b64_inj [simp]: "b64_encode a = b64_encode b \<longleftrightarrow> a = b"
  by (metis b64_decode_encode option.inject)

lemma parse_iff:
  "parse cr a now cookie = Some s \<longleftrightarrow>
     (\<exists>p b. cookie = p @ CHR ''.'' # signature cr a p \<and> CHR ''.'' \<notin> set p
        \<and> b64_decode p = Some b \<and> js_decode cr b = Some s \<and> unix_sec now < ss_expiry s)"
  (is "?l \<longleftrightarrow> ?r")
proof
  assume l: ?l
  then obtain p m where pm: "split_n 2 CHR ''.'' cookie = [p, m]"
    by (auto simp: parse_def split: list.splits)
  with l have "signature cr a p = m" "\<exists>b. b64_decode p = Some b \<and> js_decode cr b = Some s"
    "unix_sec now < ss_expiry s"
    by (auto simp: parse_def split: if_splits option.splits)
  with pm show ?r by (auto simp: split_two_iff)
next
  assume ?r
  then show ?l by (auto simp: parse_def split_two_hit)
qed

text \<open>
  C29. A signed session is read back from its cookie until the expiry second and not after
  it, for any key under which its payload has another hash the cookie is worth nothing, and
  every cookie that is accepted carries the keyed hash of its own payload. The hypothesis is
  that the JSON decoder inverts the encoder on this session.
\<close>

theorem session_cookie_authentic:
  assumes "js_encode cr s = Some b" and "js_decode cr b = Some s"
  shows "\<exists>c. sign cr a s = Some c
      \<and> (\<forall>now. parse cr a now c = (if unix_sec now < ss_expiry s then Some s else None))
      \<and> (\<forall>a' now. cr_mac cr (au_key a') (b64_encode b) \<noteq> cr_mac cr (au_key a) (b64_encode b)
             \<longrightarrow> parse cr a' now c = None)
      \<and> (\<forall>now c' s'. parse cr a now c' = Some s' \<longrightarrow>
             unix_sec now < ss_expiry s'
             \<and> (\<exists>p. c' = p @ ''.'' @ b64_encode (cr_mac cr (au_key a) p)))"
proof (rule exI[of _ "b64_encode b @ CHR ''.'' # signature cr a (b64_encode b)"],
    intro conjI allI impI)
  let ?c = "b64_encode b @ CHR ''.'' # signature cr a (b64_encode b)"
  show "sign cr a s = Some ?c" using assms by (simp add: sign_def Let_def)
  fix now
  show "parse cr a now ?c = (if unix_sec now < ss_expiry s then Some s else None)"
    using assms by (simp add: parse_def split_two_hit)
  fix a' :: authenticator
  assume "cr_mac cr (au_key a') (b64_encode b) \<noteq> cr_mac cr (au_key a) (b64_encode b)"
  then show "parse cr a' now ?c = None"
    by (simp add: parse_def split_two_hit signature_def)
next
  fix now c' s'
  assume "parse cr a now c' = Some s'"
  then show "unix_sec now < ss_expiry s'" "\<exists>p. c' = p @ ''.'' @ b64_encode (cr_mac cr (au_key a) p)"
    by (auto simp: parse_iff signature_def)
qed

definition demo_session :: session where
  "demo_session = \<lparr>ss_subject = ''7'', ss_email = ''Ann@x.io'', ss_expiry = 86400\<rparr>"

definition demo_crypto :: crypto where
  "demo_crypto =
     \<lparr>cr_mac = (\<lambda>k t. k @ t), cr_digest = (\<lambda>t. t),
      js_encode = (\<lambda>s. Some (ss_subject s @ CHR '' '' # ss_email s)),
      js_decode = (\<lambda>t. case split_at CHR '' '' t of
          (a, Some b) \<Rightarrow> Some \<lparr>ss_subject = a, ss_email = b, ss_expiry = 86400\<rparr> | _ \<Rightarrow> None)\<rparr>"

definition demo_auth :: authenticator where
  "demo_auth = \<lparr>au_key = ''key'', au_secure = True, au_allowed = emailSet [''ann@X.io '', ''bob@x.io''],
                au_operators = emailSet [''bob@x.io'']\<rparr>"

lemma demo_json:
  "js_encode demo_crypto demo_session = Some ''7 Ann@x.io''"
  "js_decode demo_crypto ''7 Ann@x.io'' = Some demo_session"
  by (simp_all add: demo_crypto_def demo_session_def split_at_def)

theorem session_cookie_authentic_witness:
  "\<exists>c. sign demo_crypto demo_auth demo_session = Some c
     \<and> parse demo_crypto demo_auth 0 c = Some demo_session
     \<and> parse demo_crypto demo_auth (sessionTTL + 5) c = None"
proof -
  have "unix_sec 0 < ss_expiry demo_session" "\<not> unix_sec (sessionTTL + 5) < ss_expiry demo_session"
    by (simp_all add: unix_sec_def demo_session_def sessionTTL_def hour_def)
  then show ?thesis
    using session_cookie_authentic[OF demo_json, of demo_auth] by (metis (no_types, lifting))
qed

section \<open>The access lists\<close>

lemma listed_emailSet:
  "listed (emailSet es) email \<longleftrightarrow>
     es = [] \<or> (to_lower email \<noteq> [] \<and> (\<exists>e \<in> set es. to_lower email = to_lower (trim_space e)))"
  by (auto simp: listed_def emailSet_def)

text \<open>A list of blanks lets nobody in; it is not the empty list.\<close>

lemma blank_list_locks_out: "\<not> listed (emailSet ['''', '' '']) email"
  by (simp add: listed_def emailSet_def to_lower_def trim_space_def trim_left_def is_space_def)

section \<open>From login to session\<close>

lemma callback_redirect_login:
  "callback_redirect (b64_encode (safeRedirect q ''/'')) = safeRedirect q ''/''"
  by (auto simp: callback_redirect_def safeRedirect_def)

lemma randStr_plain: "CHR '':'' \<notin> set (randStr n r)"
  unfolding randStr_def by (meson b64_clean(2) in_set_takeD)

lemma login_state_split:
  "split_n 2 CHR '':'' (login_state r) =
     [randStr 16 r, b64_encode (safeRedirect (query_get r ''redirect'') ''/'')]"
  using split_two_hit[OF randStr_plain] by (simp add: login_state_def)

text \<open>The callback, once state and cookie agree: a session or a refusal.\<close>

lemma callback_outcome:
  assumes state: "query_get r1 ''state'' = login_state r0"
    and st: "cookie_get r1 stateCookie = Some (randStr 16 r0)"
    and code: "od_exchange od (query_get r1 ''code'') = Some (Some raw)"
    and verified: "od_verify od raw = Some (Some (sub, email))"
    and s_def: "s = \<lparr>ss_subject = sub, ss_email = email, ss_expiry = unix_sec (rq_now r1 + sessionTTL)\<rparr>"
    and json: "js_encode cr s = Some b" "js_decode cr b = Some s"
    and fresh: "x_out x = []"
  shows "if IsAllowed a email
     then status (HandleCallback cr od a r1 x) = 302
       \<and> header_of (HandleCallback cr od a r1 x) ''Location''
           = Some (redirect_location (safeRedirect (query_get r0 ''redirect'') ''/''))
       \<and> (\<exists>ck \<in> set (x_cookies (HandleCallback cr od a r1 x)). ck_name ck = sessionCookie
            \<and> ck_http_only ck \<and> ck_secure ck = au_secure a
            \<and> (\<forall>next r2 y. cookie_get r2 sessionCookie = Some (ck_value ck)
                 \<longrightarrow> unix_sec (rq_now r2) < unix_sec (rq_now r1 + sessionTTL)
                 \<longrightarrow> \<not> session_exempt (url_path r2)
                 \<longrightarrow> Middleware cr a next r2 (y :: 'b exchange) = next (r2\<lparr>rq_email := email\<rparr>) y))
     else status (HandleCallback cr od a r1 x) = 403
       \<and> (\<forall>ck \<in> set (drop (length (x_cookies x)) (x_cookies (HandleCallback cr od a r1 x))). ck_name ck = stateCookie)"
proof -
  let ?p = "b64_encode b"
  let ?c = "?p @ CHR ''.'' # signature cr a ?p"
  have sig: "sign cr a s = Some ?c" using json by (simp add: sign_def Let_def)
  have parse: "parse cr a now ?c = Some s" if "unix_sec now < unix_sec (rq_now r1 + sessionTTL)" for now
    using that json by (auto simp: parse_iff s_def)
  have guard: "Middleware cr a nxt r2 y = nxt (r2\<lparr>rq_email := email\<rparr>) y"
    if "cookie_get r2 sessionCookie = Some ?c" "unix_sec (rq_now r2) < unix_sec (rq_now r1 + sessionTTL)"
      "\<not> session_exempt (url_path r2)" for nxt r2 and y :: "'b exchange"
    using that parse by (simp add: Middleware_def request_session_def s_def)
  note step = HandleCallback_def st state login_state_split exchange_code_def code verified
    grant_session_def callback_redirect_login
  show ?thesis
  proof (cases "IsAllowed a email")
    case True
    have "HandleCallback cr od a r1 x
        = http_redirect (safeRedirect (query_get r0 ''redirect'') ''/'') 302
            (SetCookie (session_cookie a ?c)
              (SetCookie \<lparr>ck_name = stateCookie, ck_value = [], ck_path = ''/auth/callback'',
                          ck_max_age = - 1, ck_http_only = False, ck_same_site = SiteDefault,
                          ck_secure = False\<rparr> x))"
      using sig True by (simp add: step s_def)
    then show ?thesis
      using True fresh guard
      by (auto simp: http_redirect_def writer_defs header_of_def session_cookie_def)
  next
    case False
    then show ?thesis using fresh by (simp add: step http_error_def writer_defs)
  qed
qed

text \<open>The callback without the state the login handler put into the browser: 400, and no session.\<close>

lemma callback_without_state:
  assumes "cookie_get r1 stateCookie \<noteq> Some (randStr 16 r0)" and "query_get r1 ''state'' = login_state r0"
    and "x_out x = []"
  shows "status (HandleCallback cr od a r1 x) = 400 \<and> x_cookies (HandleCallback cr od a r1 x) = x_cookies x"
  using assms(1,3)
  by (auto simp: HandleCallback_def assms(2) login_state_split http_error_def writer_defs split: option.split)

text \<open>
  C30. The login flow, from the login handler to the requests after it. The login handler answers
  302 to the provider's address for a state, and sets exactly one cookie, the state cookie, for ten
  minutes and for the callback's path only. When the browser comes back with that state and that
  cookie, the code is good, the id token verifies and the address may log in, then the callback
  answers 302 to the page asked for at login (or to the root when that page was refused), and the
  session cookie it sets lets every later request through the session guard under that address
  until the session's end; an address that is not allowed gets 403 and no cookie but the one that
  clears the state; and a browser that brings the state with another cookie, or none (the login
  of somebody else), gets 400 and no cookie.
\<close>

theorem login_opens_session:
  assumes first: "x_out x0 = []"
  shows "let login = HandleLogin od a r0 x0; st = login_state r0; ck = state_cookie a (randStr 16 r0) in
     status login = 302 \<and> header_of login ''Location'' = Some (redirect_location (od_url od st))
     \<and> x_cookies login = x_cookies x0 @ [ck] \<and> ck_name ck = stateCookie \<and> ck_path ck = ''/auth/callback''
     \<and> ck_max_age ck = 600 \<and> ck_http_only ck \<and> ck_secure ck = au_secure a
     \<and> (\<forall>r1 x raw sub email s b. query_get r1 ''state'' = st \<and> cookie_get r1 stateCookie = Some (ck_value ck)
          \<and> od_exchange od (query_get r1 ''code'') = Some (Some raw) \<and> od_verify od raw = Some (Some (sub, email))
          \<and> s = \<lparr>ss_subject = sub, ss_email = email, ss_expiry = unix_sec (rq_now r1 + sessionTTL)\<rparr>
          \<and> js_encode cr s = Some b \<and> js_decode cr b = Some s \<and> x_out x = [] \<longrightarrow>
          (if IsAllowed a email
           then status (HandleCallback cr od a r1 x) = 302
             \<and> header_of (HandleCallback cr od a r1 x) ''Location''
                 = Some (redirect_location (safeRedirect (query_get r0 ''redirect'') ''/''))
             \<and> (\<exists>sc \<in> set (x_cookies (HandleCallback cr od a r1 x)). ck_name sc = sessionCookie
                  \<and> ck_http_only sc \<and> ck_secure sc = au_secure a
                  \<and> (\<forall>next r2 y. cookie_get r2 sessionCookie = Some (ck_value sc)
                       \<longrightarrow> unix_sec (rq_now r2) < unix_sec (rq_now r1 + sessionTTL)
                       \<longrightarrow> \<not> session_exempt (url_path r2)
                       \<longrightarrow> Middleware cr a next r2 (y :: 'b exchange) = next (r2\<lparr>rq_email := email\<rparr>) y))
           else status (HandleCallback cr od a r1 x) = 403
             \<and> (\<forall>sc \<in> set (drop (length (x_cookies x)) (x_cookies (HandleCallback cr od a r1 x))). ck_name sc = stateCookie)))
     \<and> (\<forall>r1 x. query_get r1 ''state'' = st \<and> cookie_get r1 stateCookie \<noteq> Some (ck_value ck) \<and> x_out x = [] \<longrightarrow>
          status (HandleCallback cr od a r1 x) = 400 \<and> x_cookies (HandleCallback cr od a r1 x) = x_cookies x)"
proof -
  have login: "status (HandleLogin od a r0 x0) = 302"
    "header_of (HandleLogin od a r0 x0) ''Location'' = Some (redirect_location (od_url od (login_state r0)))"
    "x_cookies (HandleLogin od a r0 x0) = x_cookies x0 @ [state_cookie a (randStr 16 r0)]"
    using first by (simp_all add: HandleLogin_def http_redirect_def writer_defs header_of_def)
  have ck: "ck_name (state_cookie a n) = stateCookie" "ck_path (state_cookie a n) = ''/auth/callback''"
    "ck_max_age (state_cookie a n) = 600" "ck_http_only (state_cookie a n)" "ck_secure (state_cookie a n) = au_secure a"
    "ck_value (state_cookie a n) = n" for n
    by (simp_all add: state_cookie_def)
  show ?thesis unfolding Let_def login ck(1,2,3,5,6)
    by (intro conjI refl ck(4); intro allI impI; elim conjE; (rule callback_outcome | rule callback_without_state); assumption)
qed

definition demo_provider :: provider where
  "demo_provider =
     \<lparr>od_url = (\<lambda>st. ''https://idp/authorize?state='' @ st),
      od_exchange = (\<lambda>c. if c = ''ok'' then Some (Some ''raw'') else None),
      od_verify = (\<lambda>t. Some (Some (''7'', ''Ann@x.io'')))\<rparr>"

definition demo_request :: request where
  "demo_request =
     \<lparr>rq_method = ''GET'', rq_path = ''/auth/login'', rq_query = ''redirect=/clusters/c1'',
      rq_headers = [], rq_cookies = [], rq_remote = ''10.0.0.1:5000'', rq_now = 0, rq_email = [],
      rq_params = [], rq_rand = ''0123456789abcdef'', rq_took = second\<rparr>"

definition idle :: "unit exchange" where
  "idle = \<lparr>x_headers = [], x_cookies = [], x_out = [], x_panic = False, x_pattern = [],
           x_login = (\<lambda>_. None), x_trigger = (\<lambda>_. None), x_counts = (\<lambda>_. 0), x_latency = (\<lambda>_. []), x_app = ()\<rparr>"

text \<open>The browser returns with the state, the code and the state cookie.\<close>

definition demo_callback :: request where
  "demo_callback =
     demo_request\<lparr>rq_path := ''/auth/callback'',
       rq_query := ''code=ok&state=MDEyMzQ1Njc4OWFi:L2NsdXN0ZXJzL2Mx'',
       rq_cookies := [(stateCookie, ''MDEyMzQ1Njc4OWFi'')]\<rparr>"

lemma demo_state_b64: "b64_encode ''/clusters/c1'' = ''L2NsdXN0ZXJzL2Mx''"
  by code_simp

lemma demo_random: "randStr 16 demo_request = ''MDEyMzQ1Njc4OWFi''"
  by code_simp

lemmas query_eval = query_get_def parse_query_def List.map_filter_def split_at_def

lemma demo_target: "query_get demo_request ''redirect'' = ''/clusters/c1''"
  by (simp add: query_eval demo_request_def)

lemmas demo_login_state = demo_state_b64 demo_random demo_target

lemma demo_login_login_state:
  "login_state demo_request = ''MDEyMzQ1Njc4OWFi:L2NsdXN0ZXJzL2Mx''"
  by (simp add: login_state_def demo_login_state safeRedirect_def has_prefix_def del: b64_encode.simps)

lemma demo_callback_query:
  "query_get demo_callback ''state'' = ''MDEyMzQ1Njc4OWFi:L2NsdXN0ZXJzL2Mx''"
  "query_get demo_callback ''code'' = ''ok''"
  by (simp_all add: query_eval demo_callback_def)

lemmas redirect_eval = redirect_location_def url_parses_def is_control_def byte_def has_prefix_def
  split_at_def cleanPath_def path_clean_def join_segs_def hex_escape_non_ascii_def

lemma demo_location: "redirect_location ''/clusters/c1'' = ''/clusters/c1''"
  by (simp add: redirect_eval)

lemma demo_allowed: "IsAllowed demo_auth ''Ann@x.io''"
  by code_simp

theorem login_opens_session_witness:
  "x_cookies (HandleLogin demo_provider demo_auth demo_request idle) = [state_cookie demo_auth ''MDEyMzQ1Njc4OWFi'']
   \<and> status (HandleCallback demo_crypto demo_provider demo_auth demo_callback idle) = 302
   \<and> header_of (HandleCallback demo_crypto demo_provider demo_auth demo_callback idle) ''Location''
       = Some ''/clusters/c1''
   \<and> status (HandleCallback demo_crypto demo_provider demo_auth (demo_callback\<lparr>rq_cookies := []\<rparr>) idle) = 400"
proof -
  have st: "query_get demo_callback ''state'' = login_state demo_request"
    "query_get (demo_callback\<lparr>rq_cookies := []\<rparr>) ''state'' = login_state demo_request"
    using demo_callback_query(1) by (simp_all add: demo_login_login_state query_get_def)
  have ck: "cookie_get demo_callback stateCookie = Some (ck_value (state_cookie demo_auth (randStr 16 demo_request)))"
    "cookie_get (demo_callback\<lparr>rq_cookies := []\<rparr>) stateCookie \<noteq> Some (ck_value (state_cookie demo_auth (randStr 16 demo_request)))"
    by (simp_all add: demo_login_state cookie_get_def demo_callback_def state_cookie_def)
  have od: "od_exchange demo_provider (query_get demo_callback ''code'') = Some (Some ''raw'')"
    "od_verify demo_provider ''raw'' = Some (Some (''7'', ''Ann@x.io''))"
    by (simp_all add: demo_callback_query demo_provider_def)
  have ses: "demo_session = \<lparr>ss_subject = ''7'', ss_email = ''Ann@x.io'',
      ss_expiry = unix_sec (rq_now demo_callback + sessionTTL)\<rparr>"
    by (simp add: demo_session_def demo_callback_def demo_request_def sessionTTL_def hour_def unix_sec_def)
  have out: "x_out idle = []" "x_cookies idle = []" by (simp_all add: idle_def)
  note flow = login_opens_session[OF out(1), of demo_provider demo_auth demo_request demo_crypto, where ?'b = unit, unfolded Let_def]
  have "x_cookies (HandleLogin demo_provider demo_auth demo_request idle) = [state_cookie demo_auth (randStr 16 demo_request)]"
    using flow[THEN conjunct2, THEN conjunct2, THEN conjunct1] out(2) by simp
  moreover have "status (HandleCallback demo_crypto demo_provider demo_auth demo_callback idle) = 302
   \<and> header_of (HandleCallback demo_crypto demo_provider demo_auth demo_callback idle) ''Location''
       = Some (redirect_location (safeRedirect (query_get demo_request ''redirect'') ''/''))"
    using flow st(1) ck(1) od ses demo_json out(1) demo_allowed by (metis (no_types, lifting))
  moreover have "status (HandleCallback demo_crypto demo_provider demo_auth (demo_callback\<lparr>rq_cookies := []\<rparr>) idle) = 400"
    using flow st(2) ck(2) out(1) by blast
  ultimately show ?thesis by (simp add: demo_login_state safeRedirect_def has_prefix_def demo_location)
qed

section \<open>Where a redirect leads\<close>

text \<open>
  How a browser reads a rooted \<open>Location\<close>: tabs and line ends are dropped, a backslash
  counts as a slash, and two slashes in front start the name of another host.
\<close>

definition leaves_origin :: "string \<Rightarrow> bool" where
  "leaves_origin loc =
     (case filter (\<lambda>c. c \<notin> {CHR 0x09, CHR 0x0A, CHR 0x0D}) loc of
        a # b # _ \<Rightarrow> a \<in> {CHR ''/'', CHR 0x5C} \<and> b \<in> {CHR ''/'', CHR 0x5C}
      | _ \<Rightarrow> False)"

lemma rooted_stays:
  assumes "rooted_by A loc" and "A \<inter> {CHR 0x09, CHR 0x0A, CHR 0x0D, CHR 0x5C} = {}"
  shows "\<not> leaves_origin loc"
proof -
  obtain v where v: "loc = CHR ''/'' # v" "v = [] \<or> (hd v \<in> A \<and> hd v \<noteq> CHR ''/'')"
    using assms by (auto simp: rooted_by_def)
  then show ?thesis using assms(2) by (cases v) (auto simp: leaves_origin_def)
qed

text \<open>
  C31. The page the login flow sends the browser to stays on KubeCron's own origin for every
  requested target without a backslash, tab or line end; two targets that pass the check
  all the same, a slash and a backslash or a slash, a tab and a slash before a host name,
  send the browser to that host.
\<close>

theorem redirect_stays_on_origin:
  "(\<forall>raw. set raw \<inter> {CHR 0x09, CHR 0x0A, CHR 0x0D, CHR 0x5C} = {}
       \<longrightarrow> \<not> leaves_origin (redirect_location (safeRedirect raw ''/'')))
   \<and> leaves_origin (redirect_location (safeRedirect (CHR ''/'' # CHR 0x5C # ''evil.example'') ''/''))
   \<and> leaves_origin (redirect_location (safeRedirect (CHR ''/'' # CHR 0x09 # ''/evil.example'') ''/''))"
proof (intro conjI allI impI)
  fix raw :: string
  assume raw: "set raw \<inter> {CHR 0x09, CHR 0x0A, CHR 0x0D, CHR 0x5C} = {}"
  let ?t = "safeRedirect raw ''/''"
  have "rooted_by (set raw) ?t"
  proof (cases raw)
    case (Cons c v)
    then show ?thesis by (cases v) (auto simp: safeRedirect_def has_prefix_def rooted_by_def)
  qed (simp add: safeRedirect_def has_prefix_def rooted_by_def)
  moreover have "set (tl ?t) \<subseteq> set raw"
    by (cases raw) (auto simp: safeRedirect_def)
  ultimately have "rooted_by (insert CHR ''%'' (insert CHR ''?'' (set raw))) (redirect_location ?t)"
    by (rule redirect_location_rooted)
  then show "\<not> leaves_origin (redirect_location ?t)"
    by (rule rooted_stays) (use raw in auto)
qed (simp_all add: safeRedirect_def has_prefix_def redirect_eval leaves_origin_def)

theorem redirect_stays_on_origin_witness:
  "\<not> leaves_origin (redirect_location (safeRedirect ''/clusters/c1?tab=runs'' ''/''))"
proof -
  have "set ''/clusters/c1?tab=runs'' \<inter> {CHR 0x09, CHR 0x0A, CHR 0x0D, CHR 0x5C} = {}" by simp
  then show ?thesis using redirect_stays_on_origin by blast
qed

text \<open>
  The guard does not escape the address it was asked for: behind an ampersand it is lost on
  the way through the login page.
\<close>

lemma deep_link_cut:
  "query_get (demo_request\<lparr>rq_query := ''redirect='' @ request_uri
       (demo_request\<lparr>rq_path := ''/clusters/c1'', rq_query := ''status=failed&sort=name''\<rparr>)\<rparr>) ''redirect''
   = ''/clusters/c1?status=failed''"
  by (simp add: query_eval demo_request_def request_uri_def)

end
