(* ===== verification/Server_Props.thy ===== *)
theory Server_Props
  imports Server Auth_Props
begin

text \<open>
  What stands between a request and the CronJob controls, the collector's data and the
  request metrics, for every request, every session and every handler behind the routes.
\<close>

section \<open>Escaped paths and their segments\<close>

lemma hex_value_slash [simp]: "hex_value CHR ''/'' = None"
  by (simp add: hex_value_def byte_def)

text \<open>An escape cannot reach across a slash.\<close>

lemma pct_decode_slash:
  "pct_decode False (s @ CHR ''/'' # t) =
     (case (pct_decode False s, pct_decode False t) of
        (Some a, Some b) \<Rightarrow> Some (a @ CHR ''/'' # b) | _ \<Rightarrow> None)"
proof (induction "False" s rule: pct_decode.induct)
  case 1
  then show ?case by (auto split: option.splits)
next
  case (2 c s)
  show ?case
  proof (cases "c = CHR ''%''")
    case False
    with 2 show ?thesis by (auto split: option.splits)
  next
    case True
    consider "s = []" | a where "s = [a]" | a b u where "s = a # b # u"
      by (metis list.exhaust)
    then show ?thesis
    proof cases
      case 1
      then show ?thesis using True by (cases t) (auto split: option.splits)
    next
      case 2
      then show ?thesis using True by (auto split: option.splits)
    next
      case 3
      then show ?thesis
        using True 2(1)[OF True, of a "b # u" b u] by (auto split: option.splits)
    qed
  qed
qed

lemma split_all_two:
  "split_all c s = a # b # l \<Longrightarrow> \<exists>t. s = a @ c # t \<and> split_all c t = b # l"
proof (induction s arbitrary: a)
  case (Cons x s)
  then show ?case
    by (auto split: if_splits list.splits)
qed simp

lemma path_segs_prefix:
  assumes segs: "path_segs p = s1 # s2 # s3 # tail3" and p: "p = CHR ''/'' # p'"
    and dec: "pct_decode False p = Some q"
  shows "\<exists>rest. q = CHR ''/'' # s1 @ CHR ''/'' # s2 @ CHR ''/'' # rest"
proof -
  let ?ss = "split_all CHR ''/'' p'"
  have ps: "map unescape_seg (butlast ?ss) @ [if last ?ss = [] then ''/'' else unescape_seg (last ?ss)]
      = s1 # s2 # s3 # tail3"
    using segs p by (simp add: path_segs_def Let_def)
  obtain a b c l where ss: "?ss = a # b # c # l"
  proof (cases ?ss)
    case (Cons a l1)
    with ps show ?thesis using that by (cases l1; cases "tl l1") (auto split: if_splits)
  qed simp
  with ps have s: "s1 = unescape_seg a" "s2 = unescape_seg b" by auto
  obtain t where t: "p' = a @ CHR ''/'' # t" "split_all CHR ''/'' t = b # c # l"
    using split_all_two[OF ss] by auto
  obtain u where u: "t = b @ CHR ''/'' # u" using split_all_two[OF t(2)] by auto
  from dec p t(1) u have
    "pct_decode False ([] @ CHR ''/'' # a @ CHR ''/'' # b @ CHR ''/'' # u) = Some q" by simp
  then show ?thesis
    unfolding pct_decode_slash by (auto simp: s unescape_seg_def split: option.splits)
qed

lemma path_clean_slash: "\<exists>v. path_clean p = CHR ''/'' # v"
  by (auto simp: path_clean_def join_segs_def split: list.splits)

lemma cleanPath_slash: "\<exists>v. cleanPath p = CHR ''/'' # v"
proof -
  obtain v where "path_clean (if hd p = CHR ''/'' then p else CHR ''/'' # p) = CHR ''/'' # v"
    using path_clean_slash by blast
  then show ?thesis by (auto simp: cleanPath_def Let_def)
qed

section \<open>The route table\<close>

definition mutating :: "endpoint \<Rightarrow> bool" where
  "mutating e \<longleftrightarrow> e \<in> {Suspend, Resume, Trigger}"

lemma match_route_SomeD:
  "match_route rs m ss = Some (rt, params) \<Longrightarrow>
     rt \<in> set rs \<and> method_matches (pt_method (fst rt)) m
     \<and> match_segs (pt_multi (fst rt)) (pt_segs (fst rt)) ss = Some params"
  by (induction rs m ss rule: match_route.induct) (auto split: if_splits option.splits)

lemma dispatch_ToD:
  assumes "mux_dispatch rs r = To rt params"
  shows "rt \<in> set rs" and "method_matches (pt_method (fst rt)) (rq_method r)"
    and "match_segs (pt_multi (fst rt)) (pt_segs (fst rt)) (path_segs (rq_path r)) = Some params"
    and "cleanPath (rq_path r) = rq_path r"
proof -
  have "cleanPath (rq_path r) = rq_path r"
    "match_route rs (rq_method r) (path_segs (cleanPath (rq_path r))) = Some (rt, params)"
    using assms by (auto simp: mux_dispatch_def Let_def split: if_splits option.splits)
  then show "rt \<in> set rs" "method_matches (pt_method (fst rt)) (rq_method r)"
    "match_segs (pt_multi (fst rt)) (pt_segs (fst rt)) (path_segs (rq_path r)) = Some params"
    "cleanPath (rq_path r) = rq_path r"
    by (auto dest: match_route_SomeD)
qed

lemma mutating_routes:
  assumes "(t, e) \<in> set (server_routes sv)" and "mutating e"
  shows "sv_mode sv = ModeUI
    \<and> t \<in> {''POST /api/clusters/{clusterID}/cronjobs/{ns}/{name}/suspend'',
           ''POST /api/clusters/{clusterID}/cronjobs/{ns}/{name}/resume'',
           ''POST /api/clusters/{clusterID}/cronjobs/{ns}/{name}/trigger''}"
  using assms
  by (auto simp: server_routes_def registerCollectorAPI_def probe_routes_def registerUI_def
      mutating_def ServesUI_def split: if_splits)

lemma parse_controls:
  "t \<in> {''POST /api/clusters/{clusterID}/cronjobs/{ns}/{name}/suspend'',
        ''POST /api/clusters/{clusterID}/cronjobs/{ns}/{name}/resume'',
        ''POST /api/clusters/{clusterID}/cronjobs/{ns}/{name}/trigger''} \<Longrightarrow>
   pt_method (parse_pattern t) = ''POST''
   \<and> (\<exists>rest. pt_segs (parse_pattern t) = Lit ''api'' # Lit ''clusters'' # Wild # rest)"
  by (auto simp: parse_pattern_def split_at_def Let_def parse_seg_def has_prefix_def)

lemma match_lits:
  "match_segs multi (Lit a # Lit b # Wild # ps) ss = Some params \<Longrightarrow>
     \<exists>c tail3. ss = a # b # c # tail3"
proof (cases ss)
  case (Cons x xs)
  assume "match_segs multi (Lit a # Lit b # Wild # ps) ss = Some params"
  with Cons show ?thesis by (cases xs; cases "tl xs") (auto split: if_splits)
qed simp

text \<open>A request dispatched to a control was a POST below \<open>/api/clusters/\<close>, in UI mode.\<close>

lemma dispatched_control:
  assumes "mux_dispatch (routes_of (server_routes sv)) r = To rt params"
    and "mutating (snd rt)" and "pct_decode False (rq_path r) = Some q"
  shows "sv_mode sv = ModeUI" and "rq_method r = ''POST''"
    and "\<exists>rest. q = ''/api/clusters/'' @ rest"
proof -
  note d = dispatch_ToD[OF assms(1)]
  from d(1) obtain t where t: "(t, snd rt) \<in> set (server_routes sv)" "fst rt = parse_pattern t"
    by (auto simp: routes_of_def)
  note m = mutating_routes[OF t(1) assms(2)]
  then obtain rest where segs: "pt_segs (fst rt) = Lit ''api'' # Lit ''clusters'' # Wild # rest"
    and post: "pt_method (fst rt) = ''POST''"
    using parse_controls[of t] t(2) by auto
  show "sv_mode sv = ModeUI" using m by simp
  show "rq_method r = ''POST''" using d(2) post by (simp add: method_matches_def)
  obtain p' where p': "rq_path r = CHR ''/'' # p'" using d(4) cleanPath_slash by metis
  obtain c tail3 where "path_segs (rq_path r) = ''api'' # ''clusters'' # c # tail3"
    using d(3) segs match_lits by metis
  from path_segs_prefix[OF this p' assms(3)]
  show "\<exists>rest. q = ''/api/clusters/'' @ rest" by auto
qed

text \<open>
  No pattern of the table is hidden by an earlier, tail3 general one: of any two patterns of
  one method, the earlier matches its own shape first.
\<close>

fun covers :: "seg list \<times> bool \<Rightarrow> seg list \<times> bool \<Rightarrow> bool" where
  "covers ([], m) (qs, m') = (if m then True else qs = [] \<and> \<not> m')"
| "covers (p # ps, m) ([], m') = False"
| "covers (Lit a # ps, m) (Lit b # qs, m') = (a = b \<and> covers (ps, m) (qs, m'))"
| "covers (Lit a # ps, m) (Wild # qs, m') = False"
| "covers (Wild # ps, m) (q # qs, m') = covers (ps, m) (qs, m')"

definition hides :: "pattern \<Rightarrow> pattern \<Rightarrow> bool" where
  "hides p q \<longleftrightarrow> pt_method p = pt_method q \<and> covers (pt_segs p, pt_multi p) (pt_segs q, pt_multi q)"

definition none_hidden :: "(string \<times> endpoint) list \<Rightarrow> bool" where
  "none_hidden rs \<longleftrightarrow>
     (let ps = map (\<lambda>(t, e). parse_pattern t) rs in sorted_wrt (\<lambda>p q. \<not> hides p q) ps)"

lemma table_order:
  "none_hidden (server_routes \<lparr>sv_mode = ModeUI, sv_auth = None, sv_token = []\<rparr>)"
  "none_hidden (server_routes \<lparr>sv_mode = ModeServer, sv_auth = None, sv_token = []\<rparr>)"
  by code_simp+

section \<open>Through the chain\<close>

definition reads_only :: "(endpoint \<Rightarrow> 'a handler) \<Rightarrow> bool" where
  "reads_only app \<longleftrightarrow> (\<forall>e r x. \<not> mutating e \<longrightarrow> x_app (app e r x) = x_app x)"

lemma HandleLogin_app [simp]: "x_app (HandleLogin od a r x) = x_app x"
  by (simp add: HandleLogin_def)

lemma HandleLogout_app [simp]: "x_app (HandleLogout a r x) = x_app x"
  by (simp add: HandleLogout_def Let_def)

lemma grant_session_app [simp]: "x_app (grant_session cr a u c r x) = x_app x"
  by (simp add: grant_session_def split: option.splits prod.splits)

lemma exchange_code_app [simp]: "x_app (exchange_code cr od a u r x) = x_app x"
  by (simp add: exchange_code_def split: option.splits)

lemma HandleCallback_app [simp]: "x_app (HandleCallback cr od a r x) = x_app x"
  by (simp add: HandleCallback_def split: option.splits list.splits)

lemma modeNotFound_app [simp]: "x_app (modeNotFound r x) = x_app x"
  by (simp add: modeNotFound_def)

lemma limiter_app:
  assumes "\<And>b x. x_app (wr b x) = x_app x" and "\<And>r x. x_app (next r x) = x_app x"
  shows "x_app (RateLimit l w rd wr next r x) = x_app x"
  using assms by (simp add: RateLimit_def split: prod.splits)

lemma endpoint_app:
  assumes "reads_only app" and "\<not> mutating e"
  shows "x_app (endpoint_handler cr od sv app e r x) = x_app x"
  using assms
  by (cases e)
    (auto simp: endpoint_handler_def reads_only_def mutating_def loginLimiter_def limiter_app
      split: option.splits)

lemma operator_app:
  assumes "x_app (operator sv h r x) \<noteq> x_app x" and "sv_auth sv = Some a"
  shows "CanOperate a (rq_email r)"
  using assms operators.app_change_admitted by (fastforce simp: operator_def)

lemma mux_app:
  assumes ro: "reads_only app" and ch: "x_app (server_mux cr od sv app r x) \<noteq> x_app x"
  shows "\<exists>rt params. mux_dispatch (routes_of (server_routes sv)) r = To rt params
    \<and> mutating (snd rt) \<and> (\<forall>a. sv_auth sv = Some a \<longrightarrow> CanOperate a (rq_email r))"
proof (cases "mux_dispatch (routes_of (server_routes sv)) r")
  case (To rt params)
  let ?r = "r\<lparr>rq_params := params\<rparr>"
  have ep: "x_app (endpoint_handler cr od sv app (snd rt) ?r (x\<lparr>x_pattern := pt_text (fst rt)\<rparr>)) \<noteq> x_app x"
    using ch To by (simp add: server_mux_def ServeMux_def)
  then have m: "mutating (snd rt)"
    using endpoint_app[OF ro, of "snd rt" cr od sv ?r "x\<lparr>x_pattern := pt_text (fst rt)\<rparr>"] by auto
  moreover have "CanOperate a (rq_email r)" if "sv_auth sv = Some a" for a
    using ep m operator_app[OF _ that, of _ ?r "x\<lparr>x_pattern := pt_text (fst rt)\<rparr>"]
    by (auto simp: mutating_def endpoint_handler_def)
  ultimately show ?thesis using To by blast
qed (use ch in \<open>auto simp: server_mux_def ServeMux_def\<close>)

lemma Recover_app [simp]: "x_app (Recover h r x) = x_app (h r x)"
  by (simp add: Recover_def Let_def)

lemma Instrument_app [simp]: "x_app (Instrument h r x) = x_app (h r x)"
  by (simp add: Instrument_def Let_def)

text \<open>The chain behind the front door changes the application only through the mux.\<close>

definition inner_chain :: "server \<Rightarrow> ('a handler \<Rightarrow> 'a handler) list" where
  "inner_chain sv =
     (if ServesUI (sv_mode sv)
      then [Logger, Instrument, Recover, SecurityHeaders,
            EnsureCSRFCookie (case sv_auth sv of None \<Rightarrow> False | Some a \<Rightarrow> au_secure a), CSRFProtect]
      else [Logger, Instrument, Recover, SecurityHeaders])"

lemma Ensure_app:
  "\<exists>x'. x_app x' = x_app x \<and> EnsureCSRFCookie sec h r x = h r x'"
  unfolding EnsureCSRFCookie_def by (rule exI, rule conjI[OF _ refl]) simp

lemma Headers_app: "\<exists>x'. x_app x' = x_app x \<and> SecurityHeaders h r x = h r x'"
  by (rule exI, rule conjI[OF _ SecurityHeaders_def]) simp

lemma inner_app:
  assumes "x_app (Chain h (inner_chain sv) r x) \<noteq> x_app x"
  shows "\<exists>x'. x_app x' = x_app x \<and> x_app (h r x') \<noteq> x_app x' \<and> (ServesUI (sv_mode sv) \<longrightarrow> csrf_ok r)"
proof (cases "ServesUI (sv_mode sv)")
  case True
  let ?sec = "case sv_auth sv of None \<Rightarrow> False | Some a \<Rightarrow> au_secure a"
  obtain x1 where x1: "x_app x1 = x_app x"
    "SecurityHeaders (EnsureCSRFCookie ?sec (CSRFProtect h)) r x = EnsureCSRFCookie ?sec (CSRFProtect h) r x1"
    using Headers_app by metis
  obtain x2 where x2: "x_app x2 = x_app x1"
    "EnsureCSRFCookie ?sec (CSRFProtect h) r x1 = CSRFProtect h r x2"
    using Ensure_app by metis
  have "x_app (Chain h (inner_chain sv) r x) = x_app (CSRFProtect h r x2)"
    using True x1(2) x2(2) by (simp add: Chain_def inner_chain_def Logger_def)
  then have ch: "x_app (CSRFProtect h r x2) \<noteq> x_app x2" using assms x1(1) x2(1) by simp
  then have "csrf_ok r" by (rule csrf.app_change_admitted)
  with ch x1(1) x2(1) show ?thesis by (metis csrf.admitted)
next
  case False
  obtain x1 where x1: "x_app x1 = x_app x" "SecurityHeaders h r x = h r x1"
    using Headers_app by metis
  with False assms have "x_app (h r x1) \<noteq> x_app x1"
    by (simp add: Chain_def inner_chain_def Logger_def)
  with False x1(1) show ?thesis by blast
qed

text \<open>The door of a request: what must hold for it to get past the front of the chain.\<close>

definition admitted :: "crypto \<Rightarrow> server \<Rightarrow> request \<Rightarrow> bool" where
  "admitted cr sv r \<longleftrightarrow>
     (if ServesUI (sv_mode sv) then
        (case sv_auth sv of
           None \<Rightarrow> True
         | Some a \<Rightarrow> (if sv_token sv \<noteq> [] \<and> isCollectorAPI (url_path r) then bearer_ok cr (sv_token sv) r
                      else session_ok cr a r))
      else sv_token sv = [] \<or> bearer_ok cr (sv_token sv) r)"

definition enriched :: "crypto \<Rightarrow> server \<Rightarrow> request \<Rightarrow> request" where
  "enriched cr sv r =
     (case sv_auth sv of
        Some a \<Rightarrow> (if ServesUI (sv_mode sv) \<and> \<not> (sv_token sv \<noteq> [] \<and> isCollectorAPI (url_path r))
                    then as_user cr a r else r)
      | None \<Rightarrow> r)"

definition refusal :: "crypto \<Rightarrow> server \<Rightarrow> request \<Rightarrow> 'a exchange \<Rightarrow> 'a exchange" where
  "refusal cr sv r x =
     (if ServesUI (sv_mode sv) \<and> \<not> (sv_token sv \<noteq> [] \<and> isCollectorAPI (url_path r))
      then redirectToLogin r x
      else unauthorized (if bearerToken r = None then ''missing bearer token''
                         else ''invalid bearer token'') x)"

lemma refusal_app [simp]: "x_app (refusal cr sv r x) = x_app x"
  by (simp add: refusal_def)

lemma build_admitted:
  "admitted cr sv r \<Longrightarrow>
     buildHandler cr od sv app r x = Chain (server_mux cr od sv app) (inner_chain sv) (enriched cr sv r) x"
  by (auto simp: admitted_def enriched_def buildHandler_def middlewares_def inner_chain_def Chain_def
      frontDoor_def splitFrontDoor_def bearer.admitted sessions.admitted split: option.splits if_splits)

lemma build_refused:
  "\<not> admitted cr sv r \<Longrightarrow> buildHandler cr od sv app r x = refusal cr sv r x"
  by (auto simp: admitted_def refusal_def buildHandler_def middlewares_def Chain_def
      frontDoor_def splitFrontDoor_def bearer.refused sessions.refused split: option.splits if_splits)

lemma enriched_keeps [simp]:
  "rq_method (enriched cr sv r) = rq_method r" "rq_path (enriched cr sv r) = rq_path r"
  "cookie_get (enriched cr sv r) k = cookie_get r k" "header_get (enriched cr sv r) k = header_get r k"
  "url_path (enriched cr sv r) = url_path r"
  by (auto simp: enriched_def as_user_def cookie_get_def header_get_def url_path_def split: option.splits)

lemma fresh_reads [simp]:
  "cookie_get (r\<lparr>rq_email := e, rq_params := ps\<rparr>) k = cookie_get r k"
  "header_get (r\<lparr>rq_email := e, rq_params := ps\<rparr>) k = header_get r k"
  "url_path (r\<lparr>rq_email := e, rq_params := ps\<rparr>) = url_path r"
  "bearerToken (r\<lparr>rq_email := e, rq_params := ps\<rparr>) = bearerToken r"
  "request_session cr a (r\<lparr>rq_email := e, rq_params := ps\<rparr>) = request_session cr a r"
  by (auto simp: cookie_get_def header_get_def url_path_def bearerToken_def request_session_def
      split: option.splits)

lemma fresh_keeps [simp]:
  "bearer_ok cr t (r\<lparr>rq_email := e, rq_params := ps\<rparr>) = bearer_ok cr t r"
  "session_ok cr a (r\<lparr>rq_email := e, rq_params := ps\<rparr>) = session_ok cr a r"
  "csrf_ok (r\<lparr>rq_email := e, rq_params := ps\<rparr>) = csrf_ok r"
  by (simp_all add: bearer_ok_def session_ok_def csrf_ok_def)

lemma fresh_admitted [simp]:
  "admitted cr sv (r\<lparr>rq_email := e, rq_params := ps\<rparr>) = admitted cr sv r"
  by (auto simp: admitted_def split: option.splits)

text \<open>A request that changes the application was dispatched to a control.\<close>

lemma serve_changes:
  assumes ro: "reads_only app" and ch: "x_app (serve cr od sv app r x) \<noteq> x_app x"
  shows "\<exists>rt params q. mux_dispatch (routes_of (server_routes sv))
        (enriched cr sv (r\<lparr>rq_email := [], rq_params := []\<rparr>)) = To rt params
    \<and> mutating (snd rt) \<and> pct_decode False (rq_path r) = Some q \<and> admitted cr sv r
    \<and> (ServesUI (sv_mode sv) \<longrightarrow> csrf_ok r)
    \<and> (\<forall>a. sv_auth sv = Some a \<longrightarrow>
          CanOperate a (rq_email (enriched cr sv (r\<lparr>rq_email := [], rq_params := []\<rparr>))))"
proof -
  let ?r = "r\<lparr>rq_email := [], rq_params := []\<rparr>"
  let ?e = "enriched cr sv ?r"
  let ?x = "x\<lparr>x_headers := [], x_cookies := [], x_out := [], x_panic := False, x_pattern := []\<rparr>"
  from ch obtain q where q: "pct_decode False (rq_path r) = Some q"
    and b: "x_app (buildHandler cr od sv app ?r ?x) \<noteq> x_app ?x"
    by (auto simp: serve_def Let_def split: if_splits)
  have adm: "admitted cr sv ?r"
  proof (rule ccontr)
    assume "\<not> admitted cr sv ?r"
    with b show False by (simp add: build_refused)
  qed
  with b have "x_app (Chain (server_mux cr od sv app) (inner_chain sv) ?e ?x) \<noteq> x_app ?x"
    by (simp add: build_admitted)
  from inner_app[OF this] obtain x' where
    "x_app (server_mux cr od sv app ?e x') \<noteq> x_app x'" and cs: "ServesUI (sv_mode sv) \<longrightarrow> csrf_ok ?e"
    by blast
  from mux_app[OF ro this(1)] q adm cs show ?thesis
    by (auto simp: csrf_ok_def)
qed

text \<open>
  A request runs at most one of the handlers, on the state it found: what relates a state to
  itself and to what every handler makes of it relates it to what the request makes of it.
\<close>

lemma limiter_step:
  assumes "R (x_app x) (x_app x)" and "\<And>b x. x_app (wr b x) = x_app x"
    and "\<And>x'. x_app x' = x_app x \<Longrightarrow> R (x_app x) (x_app (h r x'))"
  shows "R (x_app x) (x_app (RateLimit l w rd wr h r x))"
  using assms by (simp add: RateLimit_def split: prod.splits)

lemma mux_step:
  assumes same: "R (x_app x) (x_app x)" and step: "\<And>e r x'. x_app x' = x_app x \<Longrightarrow> R (x_app x) (x_app (app e r x'))"
  shows "R (x_app x) (x_app (server_mux cr od sv app r x))"
proof (cases "mux_dispatch (routes_of (server_routes sv)) r")
  case (To rt params)
  have "R (x_app x) (x_app (endpoint_handler cr od sv app e r' x'))" if "x_app x' = x_app x" for e r' x'
    using that same step
    by (cases e) (auto simp: endpoint_handler_def operator_def RequireOperator_def loginLimiter_def triggerLimiter_def
        limiter_app RateLimit_def split: option.splits prod.splits)
  with To show ?thesis by (simp add: server_mux_def ServeMux_def)
qed (use same in \<open>simp_all add: server_mux_def ServeMux_def\<close>)

lemma inner_step:
  assumes "R (x_app x) (x_app x)" and "\<And>x'. x_app x' = x_app x \<Longrightarrow> R (x_app x) (x_app (h r x'))"
  shows "R (x_app x) (x_app (Chain h (inner_chain sv) r x))"
  using assms
  by (auto simp: inner_chain_def Chain_def Logger_def SecurityHeaders_def EnsureCSRFCookie_def CSRFProtect_def
      split: option.splits)

lemma serve_step:
  assumes same: "R (x_app x) (x_app x)" and step: "\<And>e r x'. x_app x' = x_app x \<Longrightarrow> R (x_app x) (x_app (app e r x'))"
  shows "R (x_app x) (x_app (serve cr od sv app r x))"
proof -
  let ?r = "r\<lparr>rq_email := [], rq_params := []\<rparr>"
  let ?x = "x\<lparr>x_headers := [], x_cookies := [], x_out := [], x_panic := False, x_pattern := []\<rparr>"
  have mux: "R (x_app x) (x_app (server_mux cr od sv app r' x'))" if "x_app x' = x_app x" for r' x'
    using mux_step[of R x' app cr od sv r'] that same step by simp
  have "R (x_app ?x) (x_app (buildHandler cr od sv app ?r ?x))"
  proof (cases "admitted cr sv ?r")
    case True
    show ?thesis unfolding build_admitted[OF True]
      by (rule inner_step) (use same mux in simp_all)
  next
    case False
    then show ?thesis using same by (simp add: build_refused)
  qed
  then show ?thesis using same by (simp add: serve_def Let_def)
qed

section \<open>The controls\<close>

lemma not_exempt_api:
  "q = ''/api/clusters/'' @ rest \<Longrightarrow> \<not> session_exempt q \<and> \<not> isCollectorAPI q
     \<and> q \<noteq> ''/healthz'' \<and> q \<noteq> ''/readyz''"
  by (simp add: session_exempt_def isCollectorAPI_def has_prefix_def)

text \<open>
  With OIDC on, the state behind the routes changes only on a POST that carries a valid session
  cookie of an address on the operator list and a CSRF header equal to the non-empty CSRF
  cookie, provided the handlers other than the three controls leave it alone, however the path
  is escaped and whether or not an API token is configured.
\<close>

lemma change_needs_operator:
  assumes "reads_only app" and "sv_mode sv = ModeUI" and "sv_auth sv = Some a"
    and "x_app (serve cr od sv app r x) \<noteq> x_app x"
  shows "rq_method r = ''POST''
    \<and> (\<exists>s. request_session cr a r = Some s \<and> CanOperate a (ss_email s))
    \<and> (\<exists>v. cookie_get r csrfCookieName = Some v \<and> v \<noteq> [] \<and> header_get r csrfHeaderName = v)"
proof -
  let ?r = "r\<lparr>rq_email := [], rq_params := []\<rparr>"
  obtain rt params q where d: "mux_dispatch (routes_of (server_routes sv)) (enriched cr sv ?r) = To rt params"
      "mutating (snd rt)" and q: "pct_decode False (rq_path r) = Some q"
    and adm: "admitted cr sv r" and cs: "csrf_ok r" and op: "CanOperate a (rq_email (enriched cr sv ?r))"
    using serve_changes[OF assms(1,4)] assms(2,3) by (auto simp: ServesUI_def)
  from q have "pct_decode False (rq_path (enriched cr sv ?r)) = Some q" by simp
  note c = dispatched_control[OF d this]
  have post: "rq_method r = ''POST''" using c(2) by simp
  have "url_path r = q" using q by (simp add: url_path_def)
  with c(3) not_exempt_api have ne: "\<not> session_exempt (url_path r)" "\<not> isCollectorAPI (url_path r)"
    by auto
  with adm assms(2,3) obtain s where s: "request_session cr a r = Some s"
    by (auto simp: admitted_def ServesUI_def session_ok_def)
  then have "rq_email (enriched cr sv ?r) = ss_email s"
    using ne assms(2,3) by (simp add: enriched_def ServesUI_def as_user_def)
  with op s post cs show ?thesis by (auto simp: csrf_ok_def)
qed

definition demo_sv :: server where
  "demo_sv = \<lparr>sv_mode = ModeUI, sv_auth = Some demo_auth, sv_token = ''tok''\<rparr>"

definition demo_idle :: "nat exchange" where
  "demo_idle = \<lparr>x_headers = [], x_cookies = [], x_out = [], x_panic = False, x_pattern = [],
               x_login = (\<lambda>_. None), x_trigger = (\<lambda>_. None), x_counts = (\<lambda>_. 0), x_latency = (\<lambda>_. []), x_app = 0\<rparr>"

definition bob_session :: string where
  "bob_session =
     b64_encode ''9 bob@x.io'' @ CHR ''.'' # b64_encode (''key'' @ b64_encode ''9 bob@x.io'')"

definition demo_suspend :: request where
  "demo_suspend =
     demo_request\<lparr>rq_method := ''POST'', rq_path := ''/api/clusters/c/cronjobs/n/j/suspend'',
       rq_query := [], rq_headers := [(csrfHeaderName, ''t0'')],
       rq_cookies := [(csrfCookieName, ''t0''), (sessionCookie, bob_session)]\<rparr>"

lemma bob_parses:
  "parse demo_crypto demo_auth 0 bob_session
     = Some \<lparr>ss_subject = ''9'', ss_email = ''bob@x.io'', ss_expiry = 86400\<rparr>"
proof -
  have "js_decode demo_crypto ''9 bob@x.io'' = Some \<lparr>ss_subject = ''9'', ss_email = ''bob@x.io'', ss_expiry = 86400\<rparr>"
    by (simp add: demo_crypto_def split_at_def)
  then show ?thesis
    unfolding parse_iff
    by (intro exI[of _ "b64_encode ''9 bob@x.io''"] exI[of _ "''9 bob@x.io''"])
      (simp add: bob_session_def signature_def demo_crypto_def demo_auth_def unix_sec_def
        del: b64_encode.simps)
qed

lemma dispatch_fresh [simp]:
  "mux_dispatch rs (r\<lparr>rq_email := e\<rparr>) = mux_dispatch rs r"
  "mux_dispatch rs (r\<lparr>rq_params := ps\<rparr>) = mux_dispatch rs r"
  unfolding mux_dispatch_def by (simp_all add: url_path_def Let_def cong: if_cong option.case_cong)

lemma demo_suspend_dispatch:
  "mux_dispatch (routes_of (server_routes demo_sv)) demo_suspend
     = To (parse_pattern ''POST /api/clusters/{clusterID}/cronjobs/{ns}/{name}/suspend'', Suspend)
          [''c'', ''n'', ''j'']"
  by code_simp

lemma demo_suspend_path:
  "pct_decode False (rq_path demo_suspend) = Some ''/api/clusters/c/cronjobs/n/j/suspend''"
  by (simp add: demo_suspend_def)

lemma demo_suspend_reads:
  "cookie_get demo_suspend sessionCookie = Some bob_session"
  "cookie_get demo_suspend csrfCookieName = Some ''t0''"
  "header_get demo_suspend csrfHeaderName = ''t0''"
  "rq_now demo_suspend = 0" "rq_method demo_suspend = ''POST''"
  "url_path demo_suspend = ''/api/clusters/c/cronjobs/n/j/suspend''"
  by (simp_all add: demo_suspend_def demo_request_def cookie_get_def header_get_def csrfHeaderName_def
      csrfCookieName_def sessionCookie_def url_path_def)

section \<open>The front door\<close>

text \<open>
  A request its mode's front door does not admit (no or a wrong bearer token where the
  token guards, no valid session where OIDC guards) is answered 401 or 302 in the same way
  whatever the handlers behind the routes do, and changes neither the state behind them nor
  the request counters nor the limiters. In server mode no request at all changes the state
  behind the routes: there is no route to a control.
\<close>

lemma front_door:
  assumes "pct_decode False (rq_path r) \<noteq> None"
  shows "(\<not> admitted cr sv r \<longrightarrow>
       (\<forall>od' app'. serve cr od sv app r x = serve cr od' sv app' r x)
       \<and> status (serve cr od sv app r x) \<in> {401, 302}
       \<and> x_app (serve cr od sv app r x) = x_app x \<and> x_counts (serve cr od sv app r x) = x_counts x
       \<and> x_latency (serve cr od sv app r x) = x_latency x
       \<and> x_login (serve cr od sv app r x) = x_login x \<and> x_trigger (serve cr od sv app r x) = x_trigger x)
   \<and> (sv_mode sv = ModeServer \<longrightarrow> reads_only app \<longrightarrow> x_app (serve cr od sv app r x) = x_app x)"
proof (intro conjI impI)
  let ?r = "r\<lparr>rq_email := [], rq_params := []\<rparr>"
  let ?x = "x\<lparr>x_headers := [], x_cookies := [], x_out := [], x_panic := False, x_pattern := []\<rparr>"
  assume na: "\<not> admitted cr sv r"
  then have eq: "serve cr od' sv app' r x = refusal cr sv ?r ?x" for od' and app' :: "endpoint \<Rightarrow> 'a handler"
    using assms by (auto simp: serve_def Let_def build_refused)
  show "\<forall>od' app'. serve cr od sv app r x = serve cr od' sv app' r x" by (simp add: eq)
  show "x_app (serve cr od sv app r x) = x_app x" by (simp add: eq)
  note ans = refusal_def redirectToLogin_def unauthorized_def writeError_def writeJSON_def
    http_redirect_def writer_defs Let_def
  show "status (serve cr od sv app r x) \<in> {401, 302}" by (simp add: eq ans)
  show "x_counts (serve cr od sv app r x) = x_counts x" "x_latency (serve cr od sv app r x) = x_latency x" "x_login (serve cr od sv app r x) = x_login x"
    "x_trigger (serve cr od sv app r x) = x_trigger x"
    by (simp_all add: eq ans)
next
  assume md: "sv_mode sv = ModeServer" and ro: "reads_only app"
  show "x_app (serve cr od sv app r x) = x_app x"
  proof (rule ccontr)
    assume "x_app (serve cr od sv app r x) \<noteq> x_app x"
    from serve_changes[OF ro this] obtain rt params q where
      d: "mux_dispatch (routes_of (server_routes sv)) (enriched cr sv (r\<lparr>rq_email := [], rq_params := []\<rparr>)) = To rt params"
        "mutating (snd rt)" "pct_decode False (rq_path r) = Some q" by auto
    with dispatched_control(1)[OF d(1,2)] md show False by simp
  qed
qed

end
