(* ===== verification/Guard_Props.thy ===== *)
theory Guard_Props
  imports Server_Props
begin

text \<open>
  Properties of the single middlewares: how many requests a limiter lets through, what
  labels the request counter gets, and which responses carry the hardening headers.
\<close>

section \<open>The limiter over a sequence of requests\<close>

text \<open>
  The requests are pairs of address and time. \<open>admits\<close> counts those of one address that
  are let through between two instants.
\<close>

fun limiter_after :: "int \<Rightarrow> duration \<Rightarrow> buckets \<Rightarrow> (string \<times> gotime) list \<Rightarrow> buckets" where
  "limiter_after l w bs [] = bs"
| "limiter_after l w bs ((i, t) # rs) = limiter_after l w (snd (allow l w i t bs)) rs"

fun admits ::
    "int \<Rightarrow> duration \<Rightarrow> buckets \<Rightarrow> string \<Rightarrow> gotime \<Rightarrow> gotime \<Rightarrow> (string \<times> gotime) list \<Rightarrow> int" where
  "admits l w bs ip a e [] = 0"
| "admits l w bs ip a e ((i, t) # rs) =
     (if fst (allow l w i t bs) \<and> i = ip \<and> a \<le> t \<and> t \<le> e then 1 else 0)
     + admits l w (snd (allow l w i t bs)) ip a e rs"

lemma allow_other [simp]: "i \<noteq> ip \<Longrightarrow> snd (allow l w i t bs) ip = bs ip"
  by (simp add: allow_def split: option.splits)

lemma allow_cases:
  obtains (fresh) "bs i = None \<or> (\<exists>n R. bs i = Some (n, R) \<and> R < t)"
      "fst (allow l w i t bs)" "snd (allow l w i t bs) i = Some (1, t + w)"
  | (full) n R where "bs i = Some (n, R)" "t \<le> R" "l \<le> n"
      "\<not> fst (allow l w i t bs)" "snd (allow l w i t bs) i = Some (n, R)"
  | (room) n R where "bs i = Some (n, R)" "t \<le> R" "n < l"
      "fst (allow l w i t bs)" "snd (allow l w i t bs) i = Some (n + 1, R)"
  by (cases "bs i") (force simp: allow_def split: if_splits)+

definition counted :: "(int \<times> gotime) option \<Rightarrow> bool" where
  "counted b \<longleftrightarrow> (case b of None \<Rightarrow> True | Some (n, R) \<Rightarrow> 1 \<le> n)"

lemma counted_allow: "counted (bs ip) \<Longrightarrow> counted (snd (allow l w i t bs) ip)"
  by (cases "i = ip") (auto simp: counted_def allow_def split: option.splits)

lemma admits_late: "\<forall>t \<in> snd ` set rs. e < t \<Longrightarrow> admits l w bs ip a e rs = 0"
  by (induction l w bs ip a e rs rule: admits.induct) auto

text \<open>While a bucket lasts it lets through what is left of the limit.\<close>

lemma admits_bucket:
  assumes "bs ip = Some (n, R)" and "e \<le> R" and "sorted (map snd rs)"
  shows "admits l w bs ip a e rs \<le> max 0 (l - n)"
  using assms
proof (induction rs arbitrary: bs n)
  case (Cons rq rs)
  obtain i t where rq: "rq = (i, t)" by (cases rq)
  show ?case
  proof (cases "i = ip")
    case False
    with Cons rq show ?thesis by simp
  next
    case True
    show ?thesis
    proof (cases rule: allow_cases[of bs i t l w])
      case fresh
      with True Cons.prems have "e < t" by auto
      with Cons.prems(3) rq have "\<forall>u \<in> snd ` set (rq # rs). e < u" by auto
      from admits_late[OF this] show ?thesis by simp
    next
      case (full n' R')
      with True Cons.prems Cons.IH[of "snd (allow l w i t bs)" n] rq show ?thesis by simp
    next
      case (room n' R')
      with True Cons.prems Cons.IH[of "snd (allow l w i t bs)" "n + 1"] rq show ?thesis by auto
    qed
  qed
qed simp

text \<open>From the start of an interval no longer than the window: a rest and one full bucket.\<close>

lemma admits_from:
  assumes "\<forall>t \<in> snd ` set rs. a \<le> t" and "e \<le> a + w" and "counted (bs ip)" and "1 \<le> l"
    and "sorted (map snd rs)"
  shows "admits l w bs ip a e rs \<le> (case bs ip of None \<Rightarrow> l | Some (n, R) \<Rightarrow> max 0 (l - n) + l)"
  using assms
proof (induction rs arbitrary: bs)
  case Nil
  then show ?case by (auto split: option.splits)
next
  case (Cons rq rs)
  obtain i t where rq: "rq = (i, t)" by (cases rq)
  let ?bs = "snd (allow l w i t bs)"
  have IH: "admits l w ?bs ip a e rs \<le> (case ?bs ip of None \<Rightarrow> l | Some (n, R) \<Rightarrow> max 0 (l - n) + l)"
    using Cons.prems rq by (intro Cons.IH) (auto intro: counted_allow)
  show ?case
  proof (cases "i = ip")
    case False
    with IH rq show ?thesis by simp
  next
    case True
    show ?thesis
    proof (cases rule: allow_cases[of bs i t l w])
      case fresh
      have "e \<le> t + w" using Cons.prems rq by auto
      from admits_bucket[OF _ this, of ?bs ip 1 rs l w a] fresh True Cons.prems rq
      have "admits l w ?bs ip a e rs \<le> l - 1" by auto
      with rq Cons.prems(4) show ?thesis by (auto split: option.splits)
    next
      case (full n R)
      with IH True rq show ?thesis by simp
    next
      case (room n R)
      with IH True rq show ?thesis by auto
    qed
  qed
qed

lemma admits_two_buckets:
  assumes "e \<le> a + w" and "counted (bs ip)" and "1 \<le> l" and "sorted (map snd rs)"
  shows "admits l w bs ip a e rs \<le> 2 * l"
  using assms
proof (induction rs arbitrary: bs)
  case (Cons rq rs)
  obtain i t where rq: "rq = (i, t)" by (cases rq)
  show ?case
  proof (cases "a \<le> t")
    case True
    with Cons.prems(4) rq have late: "\<forall>u \<in> snd ` set (rq # rs). a \<le> u" by auto
    have "admits l w bs ip a e (rq # rs)
        \<le> (case bs ip of None \<Rightarrow> l | Some (n, R) \<Rightarrow> max 0 (l - n) + l)"
      by (rule admits_from) (use Cons.prems late in simp_all)
    with Cons.prems(2,3) show ?thesis
      by (auto simp: counted_def split: option.splits)
  next
    case False
    have "admits l w (snd (allow l w i t bs)) ip a e rs \<le> 2 * l"
      using Cons.prems rq by (intro Cons.IH) (auto intro: counted_allow)
    with False rq show ?thesis by simp
  qed
qed simp

text \<open>An address is refused only with a full window of its own behind it.\<close>

lemma refused_after_limit:
  assumes "\<not> fst (allow l w ip t (limiter_after l w bs rs))"
    and "sorted (map snd rs @ [t])"
    and "\<forall>n R. bs ip = Some (n, R) \<longrightarrow> (\<forall>u \<in> insert t (snd ` set rs). R \<le> u + w)"
  shows "l \<le> admits l w bs ip (t - w) t rs
           + (case bs ip of None \<Rightarrow> 0 | Some (n, R) \<Rightarrow> if t \<le> R then n else 0)"
  using assms
proof (induction rs arbitrary: bs)
  case Nil
  then show ?case by (auto simp: allow_def split: option.splits if_splits)
next
  case (Cons rq rs)
  obtain i u where rq: "rq = (i, u)" by (cases rq)
  let ?bs = "snd (allow l w i u bs)"
  have u: "u \<le> t" using Cons.prems(2) rq by simp
  have "\<forall>n R. ?bs ip = Some (n, R) \<longrightarrow> (\<forall>v \<in> insert t (snd ` set rs). R \<le> v + w)"
  proof (cases "i = ip")
    case False
    with Cons.prems(3) show ?thesis by (auto simp: rq)
  next
    case True
    have "\<forall>v \<in> insert t (snd ` set rs). u \<le> v" using Cons.prems(2) rq by auto
    with True Cons.prems(3) show ?thesis
      by (cases rule: allow_cases[of bs i u l w]) (auto simp: rq)
  qed
  then have IH: "l \<le> admits l w ?bs ip (t - w) t rs
      + (case ?bs ip of None \<Rightarrow> 0 | Some (n, R) \<Rightarrow> if t \<le> R then n else 0)"
    using Cons.prems(1,2) rq by (intro Cons.IH) auto
  show ?case
  proof (cases "i = ip")
    case False
    with IH rq show ?thesis by simp
  next
    case True
    show ?thesis
    proof (cases rule: allow_cases[of bs i u l w])
      case fresh
      with IH True rq u show ?thesis by (auto split: option.splits if_splits)
    next
      case (full n R)
      with IH True rq show ?thesis by simp
    next
      case (room n R)
      then have "R \<le> u + w" using Cons.prems(3) True rq by auto
      with room IH True rq u show ?thesis by (auto split: if_splits)
    qed
  qed
qed

text \<open>
  C34. A limiter with an empty table, whatever addresses its requests come from: in every
  interval as long as its window it lets through at most twice the limit of one address
  (the end of one bucket and the start of the next), and it refuses an address only after
  having let it through as often as the limit says within the window before.
\<close>

theorem rate_limit_bounds:
  assumes "1 \<le> l" and "sorted (map snd rs @ [t])"
  shows "admits l w (\<lambda>_. None) ip a (a + w) rs \<le> 2 * l
   \<and> (\<not> fst (allow l w ip t (limiter_after l w (\<lambda>_. None) rs))
        \<longrightarrow> l \<le> admits l w (\<lambda>_. None) ip (t - w) t rs)"
proof (intro conjI impI)
  have "sorted (map snd rs)" using assms(2) by (simp add: sorted_append)
  then show "admits l w (\<lambda>_. None) ip a (a + w) rs \<le> 2 * l"
    using assms(1) by (intro admits_two_buckets) (simp_all add: counted_def)
  assume "\<not> fst (allow l w ip t (limiter_after l w (\<lambda>_. None) rs))"
  from refused_after_limit[OF this assms(2)] show "l \<le> admits l w (\<lambda>_. None) ip (t - w) t rs"
    by simp
qed

theorem rate_limit_bounds_witness:
  "admits 1 60 (\<lambda>_. None) ''a'' 60 120 [(''a'', 0), (''a'', 60), (''a'', 61), (''b'', 61), (''a'', 100)] \<le> 2
   \<and> (1::int) \<le> admits 1 60 (\<lambda>_. None) ''a'' 60 120 [(''a'', 0), (''a'', 60), (''a'', 61), (''b'', 61), (''a'', 100)]"
  using rate_limit_bounds[of 1 "[(''a'', 0), (''a'', 60), (''a'', 61), (''b'', 61), (''a'', 100)]" 120 60 "''a''" 60]
  by (simp add: allow_def)

section \<open>Hardening headers and panics\<close>

definition hardened :: "'a exchange \<Rightarrow> bool" where
  "hardened x \<longleftrightarrow> header_of x ''X-Content-Type-Options'' = Some ''nosniff''
     \<and> header_of x ''X-Frame-Options'' = Some ''DENY''
     \<and> header_of x ''Referrer-Policy'' = Some ''same-origin''"

text \<open>
  A handler that leaves the three headers as it finds them: what holds of every handler of
  src/internal/api, none of which names them.
\<close>

definition polite :: "'a handler \<Rightarrow> bool" where
  "polite h \<longleftrightarrow> (\<forall>r x. hardened x \<longrightarrow> hardened (h r x))"

lemma map_of_filter_neq: "k \<noteq> n \<Longrightarrow> map_of (filter (\<lambda>h. fst h \<noteq> n) hs) k = map_of hs k"
  by (induction hs) auto

lemma header_of_set:
  "header_of (set_header n v x) k = (if k = n \<and> x_out x = [] then Some v else header_of x k)"
  by (auto simp: header_of_def set_header_def map_of_filter_neq)

lemma header_of_writers [simp]:
  "header_of (SetCookie c x) k = header_of x k" "header_of (write_header n x) k = header_of x k"
  "header_of (write_body b x) k = header_of x k" "header_of (x\<lparr>x_panic := b'\<rparr>) k = header_of x k"
  "header_of (x\<lparr>x_pattern := p\<rparr>) k = header_of x k" "header_of (x\<lparr>x_login := bs\<rparr>) k = header_of x k"
  "header_of (x\<lparr>x_trigger := bs\<rparr>) k = header_of x k" "header_of (x\<lparr>x_counts := cs\<rparr>) k = header_of x k"
  "header_of (x\<lparr>x_latency := ls\<rparr>) k = header_of x k"
  by (simp_all add: header_of_def writer_defs)

lemma hardened_set [simp]:
  "n \<notin> {''X-Frame-Options'', ''Referrer-Policy'', ''X-Content-Type-Options''}
     \<or> (n = ''X-Content-Type-Options'' \<and> v = ''nosniff'')
   \<Longrightarrow> hardened x \<Longrightarrow> hardened (set_header n v x)"
  by (auto simp: hardened_def header_of_set)

lemma hardened_writers [simp]:
  "hardened (SetCookie c x) = hardened x" "hardened (write_header n x) = hardened x"
  "hardened (write_body b x) = hardened x" "hardened (x\<lparr>x_panic := b'\<rparr>) = hardened x"
  "hardened (x\<lparr>x_pattern := p\<rparr>) = hardened x" "hardened (x\<lparr>x_login := bs\<rparr>) = hardened x"
  "hardened (x\<lparr>x_trigger := bs\<rparr>) = hardened x" "hardened (x\<lparr>x_counts := cs\<rparr>) = hardened x"
  "hardened (x\<lparr>x_latency := ls\<rparr>) = hardened x"
  by (simp_all add: hardened_def)

lemma hardened_answers [simp]:
  "hardened x \<Longrightarrow> hardened (http_error m n x)" "hardened x \<Longrightarrow> hardened (http_redirect u n x)"
  "hardened x \<Longrightarrow> hardened (writeError n m x)" "hardened x \<Longrightarrow> hardened (writeJSON n m x)"
  by (simp_all add: http_error_def http_redirect_def writeError_def writeJSON_def)

lemma polite_auth:
  "polite (HandleLogin od a)" "polite (HandleCallback cr od a)" "polite (HandleLogout a)"
  "polite modeNotFound"
  by (auto simp: polite_def HandleLogin_def HandleCallback_def HandleLogout_def exchange_code_def
      grant_session_def modeNotFound_def Let_def split: option.splits list.splits prod.splits)

lemma polite_guards:
  "polite h \<Longrightarrow> polite (RateLimit l w x_login (\<lambda>b x. x\<lparr>x_login := b\<rparr>) h)"
  "polite h \<Longrightarrow> polite (RateLimit l w x_trigger (\<lambda>b x. x\<lparr>x_trigger := b\<rparr>) h)"
  "polite h \<Longrightarrow> polite (RequireOperator a h)" "polite h \<Longrightarrow> polite (CSRFProtect h)"
  "polite h \<Longrightarrow> polite (EnsureCSRFCookie sec h)"
  by (auto simp: polite_def guard_defs split: prod.splits option.splits)

lemma polite_endpoint:
  assumes "\<And>e. polite (app e)"
  shows "polite (endpoint_handler cr od sv app e)"
  using assms
  by (cases e)
    (auto simp: endpoint_handler_def operator_def loginLimiter_def triggerLimiter_def polite_auth
      polite_guards split: option.splits)

lemma polite_mux:
  assumes "\<And>e. polite (app e)"
  shows "polite (server_mux cr od sv app)"
  unfolding polite_def
proof (intro allI impI)
  fix r and x :: "'a exchange"
  assume "hardened x"
  then show "hardened (server_mux cr od sv app r x)"
    using polite_endpoint[OF assms, of cr od sv]
    by (cases "mux_dispatch (routes_of (server_routes sv)) r")
      (auto simp: server_mux_def ServeMux_def polite_def)
qed

lemma polite_panic_guards:
  "polite h \<Longrightarrow> polite (Recover h)" "polite h \<Longrightarrow> polite (Instrument h)" "polite h \<Longrightarrow> polite (Logger h)"
  by (auto simp: polite_def guard_defs Let_def)

lemma SecurityHeaders_hardens: "polite h \<Longrightarrow> x_out x = [] \<Longrightarrow> hardened (SecurityHeaders h r x)"
  by (simp add: polite_def SecurityHeaders_def hardened_def header_of_set)

lemma Recover_no_panic: "\<not> x_panic (Recover h r x)"
  by (simp add: Recover_def Let_def)

lemma Instrument_keeps [simp]:
  "x_out (Instrument h r x) = x_out (h r x)" "x_panic (Instrument h r x) = x_panic (h r x)"
  "hardened (Instrument h r x) = hardened (h r x)" "x_headers (Instrument h r x) = x_headers (h r x)"
  by (simp_all add: Instrument_def Let_def)

lemma inner_hardened:
  assumes "\<And>e. polite (app e)" and "x_out x = []"
  shows "hardened (Chain (server_mux cr od sv app) (inner_chain sv) r x)
    \<and> \<not> x_panic (Chain (server_mux cr od sv app) (inner_chain sv) r x)"
proof -
  define core where "core =
    (if ServesUI (sv_mode sv)
     then EnsureCSRFCookie (case sv_auth sv of None \<Rightarrow> False | Some a \<Rightarrow> au_secure a)
            (CSRFProtect (server_mux cr od sv app))
     else server_mux cr od sv app)"
  have "polite core" by (simp add: core_def polite_guards polite_mux[OF assms(1)])
  from SecurityHeaders_hardens[OF this assms(2)] have h: "hardened (SecurityHeaders core r x)" .
  have "Chain (server_mux cr od sv app) (inner_chain sv)
      = Instrument (Recover (SecurityHeaders core))"
    by (auto simp: Chain_def inner_chain_def core_def Logger_def fun_eq_iff)
  then show ?thesis using h by (simp add: Recover_def Let_def)
qed

lemma refusal_header:
  "k \<notin> {''Location'', ''HX-Redirect'', ''WWW-Authenticate'', ''Content-Type''} \<Longrightarrow>
     header_of (refusal cr sv r x) k = header_of x k"
  by (simp add: refusal_def redirectToLogin_def unauthorized_def writeError_def writeJSON_def
      http_redirect_def Let_def header_of_set)

text \<open>
  C35. Whatever the handlers do, panic included, a request the front door admits is answered
  with the three hardening headers and without a panic reaching the server, provided no
  handler overwrites the headers. The answers of the front door itself lack the frame and
  referrer headers: the guard is put in front of the middleware that sets them.
\<close>

theorem admitted_responses_hardened:
  assumes "\<And>e. polite (app e)" and "pct_decode False (rq_path r) \<noteq> None"
  shows "(admitted cr sv r \<longrightarrow> hardened (serve cr od sv app r x) \<and> \<not> x_panic (serve cr od sv app r x))
   \<and> (\<not> admitted cr sv r \<longrightarrow> header_of (serve cr od sv app r x) ''X-Frame-Options'' = None
        \<and> header_of (serve cr od sv app r x) ''Referrer-Policy'' = None)"
proof -
  let ?r = "r\<lparr>rq_email := [], rq_params := []\<rparr>"
  let ?x = "x\<lparr>x_headers := [], x_cookies := [], x_out := [], x_panic := False, x_pattern := []\<rparr>"
  have sv: "serve cr od sv app r x = buildHandler cr od sv app ?r ?x"
    using assms(2) by (auto simp: serve_def Let_def)
  show ?thesis
  proof (cases "admitted cr sv r")
    case True
    then show ?thesis
      using inner_hardened[where app = app and x = ?x and cr = cr and od = od and sv = sv
        and r = "enriched cr sv ?r", OF assms(1)]
      by (simp add: sv build_admitted)
  next
    case False
    then have "serve cr od sv app r x = refusal cr sv ?r ?x" by (simp add: sv build_refused)
    moreover have "header_of ?x k = None" for k by (simp add: header_of_def)
    ultimately show ?thesis using False by (simp add: refusal_header)
  qed
qed

definition panicking :: "endpoint \<Rightarrow> nat handler" where
  "panicking e r x = x\<lparr>x_panic := True\<rparr>"

theorem admitted_responses_hardened_witness:
  "admitted demo_crypto \<lparr>sv_mode = ModeServer, sv_auth = None, sv_token = []\<rparr> demo_suspend
   \<and> hardened (serve demo_crypto demo_provider \<lparr>sv_mode = ModeServer, sv_auth = None, sv_token = []\<rparr>
        panicking demo_suspend demo_idle)"
proof -
  have "admitted demo_crypto \<lparr>sv_mode = ModeServer, sv_auth = None, sv_token = []\<rparr> demo_suspend"
    by (simp add: admitted_def ServesUI_def)
  moreover have "\<And>e. polite (panicking e)" by (simp add: polite_def panicking_def)
  moreover have "pct_decode False (rq_path demo_suspend) \<noteq> None" by (simp add: demo_suspend_path)
  ultimately show ?thesis using admitted_responses_hardened by blast
qed

section \<open>Labels of the request counter\<close>

text \<open>The series a request adds to: those whose count it changes.\<close>

definition touched :: "'a exchange \<Rightarrow> 'a exchange \<Rightarrow> (string \<times> string \<times> nat) set" where
  "touched x x' = {k. x_counts x' k \<noteq> x_counts x k}"

definition odd_request :: "string \<Rightarrow> request" where
  "odd_request m =
     \<lparr>rq_method = m, rq_path = ''/healthz'', rq_query = [], rq_headers = [], rq_cookies = [],
      rq_remote = ''10.0.0.9:1'', rq_now = 0, rq_email = [], rq_params = [], rq_rand = [], rq_took = second\<rparr>"

lemma match_route_method:
  "list_all (\<lambda>rt. pt_method (fst rt) = ''GET'') rs \<Longrightarrow> m \<notin> {''GET'', ''HEAD''} \<Longrightarrow> match_route rs m ss = None"
  by (induction rs m ss rule: match_route.induct) (auto simp: method_matches_def)

lemma odd_dispatch:
  assumes "m \<notin> {''GET'', ''HEAD'', ''POST''}"
  shows "mux_dispatch (routes_of (server_routes \<lparr>sv_mode = ModeServer, sv_auth = None, sv_token = t\<rparr>))
      (odd_request m) = Not_Allowed [''GET'', ''HEAD'']"
proof -
  let ?rs = "routes_of (server_routes \<lparr>sv_mode = ModeServer, sv_auth = None, sv_token = t\<rparr>)"
  have get: "list_all (\<lambda>rt. pt_method (fst rt) = ''GET'') ?rs"
    by (simp add: routes_of_def server_routes_def registerCollectorAPI_def probe_routes_def ServesUI_def
        parse_pattern_def split_at_def Let_def)
  have none: "match_route ?rs m ss = None" for ss
    using get assms by (intro match_route_method) auto
  have clean: "cleanPath ''/healthz'' = ''/healthz''" by code_simp
  have "matching_methods (routes_of (server_routes \<lparr>sv_mode = ModeServer, sv_auth = None, sv_token = []\<rparr>))
      ''/healthz'' = [''GET'', ''HEAD'']"
    by code_simp
  moreover have "server_routes \<lparr>sv_mode = ModeServer, sv_auth = None, sv_token = t\<rparr>
      = server_routes \<lparr>sv_mode = ModeServer, sv_auth = None, sv_token = []\<rparr>"
    by (simp add: server_routes_def)
  ultimately have mm: "matching_methods ?rs ''/healthz'' = [''GET'', ''HEAD'']" by simp
  show ?thesis
    by (simp add: mux_dispatch_def odd_request_def clean none exact_match_def mm)
qed

definition quiet :: "'a handler \<Rightarrow> bool" where
  "quiet h \<longleftrightarrow> (\<forall>r x. x_pattern (h r x) = x_pattern x \<and> x_counts (h r x) = x_counts x
     \<and> x_latency (h r x) = x_latency x)"

lemma writer_counts [simp]:
  "x_counts (set_header k v x) = x_counts x" "x_counts (SetCookie c x) = x_counts x"
  "x_counts (write_header n x) = x_counts x" "x_counts (write_body b x) = x_counts x"
  "x_counts (http_error m n x) = x_counts x" "x_counts (http_redirect u n x) = x_counts x"
  "x_counts (writeError n m x) = x_counts x" "x_counts (writeJSON n m x) = x_counts x"
  "x_counts (unauthorized m x) = x_counts x" "x_counts (redirectToLogin r x) = x_counts x"
  "x_latency (set_header k v x) = x_latency x" "x_latency (SetCookie c x) = x_latency x"
  "x_latency (write_header n x) = x_latency x" "x_latency (write_body b x) = x_latency x"
  "x_latency (http_error m n x) = x_latency x" "x_latency (http_redirect u n x) = x_latency x"
  "x_latency (writeError n m x) = x_latency x" "x_latency (writeJSON n m x) = x_latency x"
  "x_latency (unauthorized m x) = x_latency x" "x_latency (redirectToLogin r x) = x_latency x"
  by (simp_all add: writer_defs http_error_def http_redirect_def writeError_def writeJSON_def
      unauthorized_def redirectToLogin_def Let_def)

lemma quiet_auth:
  "quiet (HandleLogin od a)" "quiet (HandleCallback cr od a)" "quiet (HandleLogout a)" "quiet modeNotFound"
  by (auto simp: quiet_def HandleLogin_def HandleCallback_def HandleLogout_def exchange_code_def
      grant_session_def modeNotFound_def Let_def split: option.splits list.splits prod.splits)

lemma quiet_guards:
  "quiet h \<Longrightarrow> quiet (RateLimit l w x_login (\<lambda>b x. x\<lparr>x_login := b\<rparr>) h)"
  "quiet h \<Longrightarrow> quiet (RateLimit l w x_trigger (\<lambda>b x. x\<lparr>x_trigger := b\<rparr>) h)"
  "quiet h \<Longrightarrow> quiet (RequireOperator a h)"
  by (auto simp: quiet_def guard_defs split: prod.splits option.splits)

lemma quiet_endpoint:
  assumes "\<And>e. quiet (app e)"
  shows "quiet (endpoint_handler cr od sv app e)"
  using assms
  by (cases e)
    (auto simp: endpoint_handler_def operator_def loginLimiter_def triggerLimiter_def quiet_auth
      quiet_guards split: option.splits)

text \<open>A handler under which the request's pattern is a registered one, or none, or a redirect's.\<close>

definition labels :: "server \<Rightarrow> request \<Rightarrow> string set" where
  "labels sv r = insert [] (fst ` set (server_routes sv))
     \<union> (case mux_dispatch (routes_of (server_routes sv)) r of Redirect_Slash u \<Rightarrow> {u} | _ \<Rightarrow> {})"

definition labelled :: "server \<Rightarrow> 'a handler \<Rightarrow> bool" where
  "labelled sv h \<longleftrightarrow> (\<forall>r x. x_pattern x = [] \<longrightarrow>
     x_pattern (h r x) \<in> labels sv r \<and> x_counts (h r x) = x_counts x \<and> x_latency (h r x) = x_latency x)"

lemma pt_text_routes: "rt \<in> set (routes_of rs) \<Longrightarrow> pt_text (fst rt) \<in> fst ` set rs"
  by (force simp: routes_of_def parse_pattern_def Let_def split: prod.splits)

lemma clean_pattern:
  "mux_dispatch (routes_of rs) r = Redirect_Clean u pat \<Longrightarrow> pat = [] \<or> pat \<in> fst ` set rs"
  by (auto simp: mux_dispatch_def Let_def split: if_splits option.splits
      dest!: match_route_SomeD pt_text_routes) (force+)?

lemma labelled_mux:
  assumes "\<And>e. quiet (app e)"
  shows "labelled sv (server_mux cr od sv app)"
  unfolding labelled_def
proof (intro allI impI)
  fix r and x :: "'a exchange"
  let ?rs = "routes_of (server_routes sv)"
  note q = quiet_endpoint[OF assms, of cr od sv, unfolded quiet_def]
  show "x_pattern (server_mux cr od sv app r x) \<in> labels sv r
      \<and> x_counts (server_mux cr od sv app r x) = x_counts x
      \<and> x_latency (server_mux cr od sv app r x) = x_latency x"
  proof (cases "mux_dispatch ?rs r")
    case (To rt ps)
    then have "pt_text (fst rt) \<in> fst ` set (server_routes sv)"
      by (intro pt_text_routes dispatch_ToD(1))
    then show ?thesis using To q by (simp add: server_mux_def ServeMux_def labels_def)
  next
    case (Redirect_Clean u pat)
    then show ?thesis
      using clean_pattern[OF Redirect_Clean] by (auto simp: server_mux_def ServeMux_def labels_def)
  qed (simp_all add: server_mux_def ServeMux_def labels_def)
qed

lemma labelled_guards:
  "labelled sv h \<Longrightarrow> labelled sv (Recover h)" "labelled sv h \<Longrightarrow> labelled sv (SecurityHeaders h)"
  "labelled sv h \<Longrightarrow> labelled sv (CSRFProtect h)" "labelled sv h \<Longrightarrow> labelled sv (EnsureCSRFCookie sec h)"
  by (auto simp: labelled_def guard_defs Let_def labels_def split: option.splits)

text \<open>A request is counted once and its latency observed once, under the same route, or neither.\<close>

definition measured :: "request \<Rightarrow> 'a exchange \<Rightarrow> 'a exchange \<Rightarrow> bool" where
  "measured r x x' \<longleftrightarrow>
     (x_counts x' = x_counts x \<and> x_latency x' = x_latency x)
     \<or> (\<exists>k. x_counts x' = (x_counts x)(k := x_counts x k + 1)
           \<and> x_latency x' = (x_latency x)(fst k := x_latency x (fst k) @ [seconds_of (rq_took r)]))"

lemma Instrument_measures:
  "labelled sv h \<Longrightarrow> x_pattern x = [] \<Longrightarrow> measured r x (Instrument h r x)"
proof -
  assume "labelled sv h" "x_pattern x = []"
  then have keep: "x_counts (h r x) = x_counts x" "x_latency (h r x) = x_latency x" by (simp_all add: labelled_def)
  let ?k = "(route_label (x_pattern (h r x)), rq_method r, rw_status (drop (length (x_out x)) (x_out (h r x))))"
  show ?thesis
  proof (cases "x_panic (h r x)")
    case False
    then show ?thesis
      unfolding measured_def by (intro disjI2 exI[of _ ?k]) (simp del: rw_status.simps add: Instrument_def Let_def keep)
  qed (simp add: measured_def Instrument_def keep)
qed

lemma Instrument_touches:
  assumes "labelled sv h" and "x_pattern x = []"
  shows "touched x (Instrument h r x) \<subseteq> route_label ` labels sv r \<times> {rq_method r} \<times> UNIV"
  using assms by (auto simp: Instrument_def Let_def touched_def labelled_def split: if_splits)

lemma server_mode_inner:
  "\<not> ServesUI (sv_mode sv) \<Longrightarrow> Chain h (inner_chain sv) = Instrument (Recover (SecurityHeaders h))"
  by (simp add: Chain_def inner_chain_def Logger_def fun_eq_iff)

lemma ui_mode_inner:
  "ServesUI (sv_mode sv) \<Longrightarrow> Chain h (inner_chain sv) =
     Instrument (Recover (SecurityHeaders
       (EnsureCSRFCookie (case sv_auth sv of None \<Rightarrow> False | Some a \<Rightarrow> au_secure a) (CSRFProtect h))))"
  by (simp add: Chain_def inner_chain_def Logger_def fun_eq_iff)

lemma odd_path: "pct_decode False (rq_path (odd_request m)) = Some ''/healthz''"
  by (simp add: odd_request_def)

definition token_server :: server where
  "token_server = \<lparr>sv_mode = ModeServer, sv_auth = None, sv_token = ''tok''\<rparr>"

text \<open>
  C36. The route label of a counted request is a registered pattern or the one label for
  unmatched requests, unless the mux redirects it to the path with a slash added; a request is
  counted once and its latency observed once, under the same route, or neither. The method
  label is not bounded: every method name whatever, sent to the liveness probe of a server
  guarded by a token, without that token, gets a series of its own.
\<close>

theorem request_series:
  assumes "\<And>e. quiet (app e)"
  shows "(\<forall>k \<in> touched x (serve cr od sv app r x).
        fst k \<in> insert ''unmatched'' (fst ` set (server_routes sv))
        \<or> (\<exists>u. mux_dispatch (routes_of (server_routes sv)) r = Redirect_Slash u))
   \<and> measured r x (serve cr od sv app r x)
   \<and> (m \<notin> {''GET'', ''HEAD'', ''POST''} \<longrightarrow>
        (''unmatched'', m, 405) \<in> touched x (serve cr od token_server app (odd_request m) x))"
proof (intro conjI ballI impI)
  let ?r = "r\<lparr>rq_email := [], rq_params := []\<rparr>"
  let ?x = "x\<lparr>x_headers := [], x_cookies := [], x_out := [], x_panic := False, x_pattern := []\<rparr>"
  let ?mux = "server_mux cr od sv app"
  have dis: "mux_dispatch rs (enriched cr sv ?r) = mux_dispatch rs r" for rs
    by (auto simp: enriched_def as_user_def split: option.splits)
  have lm: "labelled sv ?mux" by (rule labelled_mux) (rule assms)
  have all: "touched x (serve cr od sv app r x) \<subseteq> route_label ` labels sv r \<times> UNIV
      \<and> measured r x (serve cr od sv app r x)"
  proof (cases "pct_decode False (rq_path r) = None \<or> \<not> admitted cr sv r")
    case True
    then have "x_counts (serve cr od sv app r x) = x_counts x \<and> x_latency (serve cr od sv app r x) = x_latency x"
      by (auto simp: serve_def Let_def build_refused refusal_def)
    then show ?thesis by (simp add: touched_def measured_def)
  next
    case False
    then have eq: "serve cr od sv app r x = Chain ?mux (inner_chain sv) (enriched cr sv ?r) ?x"
      by (auto simp: serve_def Let_def build_admitted)
    obtain h where h: "labelled sv h" "Chain ?mux (inner_chain sv) = Instrument h"
      using lm
      by (cases "ServesUI (sv_mode sv)")
        (metis ui_mode_inner labelled_guards, metis server_mode_inner labelled_guards)
    have en: "labels sv (enriched cr sv ?r) = labels sv r" "rq_took (enriched cr sv ?r) = rq_took r"
      by (simp add: labels_def dis) (simp add: enriched_def as_user_def split: option.split)
    have "touched x (serve cr od sv app r x) = touched ?x (serve cr od sv app r x)"
      "measured r x (serve cr od sv app r x) = measured (enriched cr sv ?r) ?x (serve cr od sv app r x)"
      by (simp_all add: touched_def measured_def en)
    with Instrument_touches[OF h(1), of ?x "enriched cr sv ?r"] Instrument_measures[OF h(1), of ?x "enriched cr sv ?r"]
    show ?thesis unfolding eq h(2) en by auto
  qed
  then show "measured r x (serve cr od sv app r x)" by blast
  fix k
  assume "k \<in> touched x (serve cr od sv app r x)"
  with all have "fst k \<in> route_label ` labels sv r" by auto
  then show "fst k \<in> insert ''unmatched'' (fst ` set (server_routes sv))
      \<or> (\<exists>u. mux_dispatch (routes_of (server_routes sv)) r = Redirect_Slash u)"
    by (auto simp: labels_def route_label_def split: dispatch.splits)
next
  let ?r = "(odd_request m)\<lparr>rq_email := [], rq_params := []\<rparr>"
  let ?x = "x\<lparr>x_headers := [], x_cookies := [], x_out := [], x_panic := False, x_pattern := []\<rparr>"
  assume m: "m \<notin> {''GET'', ''HEAD'', ''POST''}"
  have "bearer_ok cr ''tok'' (odd_request m)"
    by (simp add: bearer_ok_def url_path_def odd_path)
  then have adm: "admitted cr token_server (odd_request m)"
    by (simp add: admitted_def token_server_def ServesUI_def)
  have mode: "\<not> ServesUI (sv_mode token_server)" by (simp add: token_server_def ServesUI_def)
  have en: "enriched cr token_server r' = r'" for r' by (simp add: enriched_def token_server_def)
  have dis: "mux_dispatch (routes_of (server_routes token_server)) (odd_request m) = Not_Allowed [''GET'', ''HEAD'']"
    using odd_dispatch[OF m] by (simp add: token_server_def)
  have "serve cr od token_server app (odd_request m) x =
      Instrument (Recover (SecurityHeaders (server_mux cr od token_server app))) ?r ?x"
    using adm by (simp add: serve_def Let_def odd_path build_admitted en server_mode_inner mode)
  moreover have "rq_method ?r = m" by (simp add: odd_request_def)
  ultimately show "(''unmatched'', m, 405) \<in> touched x (serve cr od token_server app (odd_request m) x)"
    by (simp add: touched_def Instrument_def Let_def Recover_def SecurityHeaders_def server_mux_def
        ServeMux_def dis http_error_def route_label_def)
qed

theorem request_series_witness:
  "(''unmatched'', ''BREW'', 405) \<in>
      touched demo_idle (serve demo_crypto demo_provider token_server (\<lambda>e r x. x) (odd_request ''BREW'') demo_idle)"
proof -
  have "\<And>e. quiet ((\<lambda>e r x. x :: nat exchange) (e :: endpoint))" by (simp add: quiet_def)
  from request_series[OF this, of demo_idle demo_crypto demo_provider token_server _ "''BREW''"]
  show ?thesis by simp
qed

end
