(* ===== verification/Cluster_Manager.thy ===== *)
theory Cluster_Manager
  imports Keyed_Table Store_Inv Store_Query
begin

text \<open>
  Loading the clusters (src/internal/cluster/manager.go) and probing their Metrics API
  (src/internal/sampler/metrics_probe.go). Reading the directory, parsing kubeconfigs and
  building clients is client-go's and the operating system's: the argument \<open>kl\<close>.
\<close>

section \<open>The directory\<close>

record dir_entry =
  de_name :: string
  de_dir :: bool

text \<open>
  \<open>kl_dir\<close> lists the kubeconfig directory (\<open>None\<close>: unreadable), \<open>kl_config\<close> parses the named
  file of it, \<open>kl_in_cluster\<close> is the service account's configuration, \<open>kl_clientset\<close> and
  \<open>kl_metrics\<close> say whether a configuration yields the two clients.
\<close>

record 'c kube_lib =
  kl_dir :: "dir_entry list option"
  kl_config :: "string \<Rightarrow> 'c option"
  kl_in_cluster :: "'c option"
  kl_clientset :: "'c \<Rightarrow> bool"
  kl_metrics :: "'c \<Rightarrow> bool"

text \<open>\<open>filepath.Ext\<close> of a name without slashes, and the name without it.\<close>

definition file_ext :: "string \<Rightarrow> string" where
  "file_ext s =
     (if CHR ''.'' \<in> set s then CHR ''.'' # rev (takeWhile (\<lambda>c. c \<noteq> CHR ''.'') (rev s)) else [])"

definition file_stem :: "string \<Rightarrow> string" where
  "file_stem s = take (length s - length (file_ext s)) s"

definition is_kubeconfig :: "dir_entry \<Rightarrow> bool" where
  "is_kubeconfig e \<longleftrightarrow> \<not> de_dir e \<and> \<not> has_prefix (de_name e) ''.''
     \<and> (let ext = file_ext (de_name e) in ext = [] \<or> ext = ''.yaml'' \<or> ext = ''.yml'')"

definition kubeconfigs :: "dir_entry list \<Rightarrow> string list" where
  "kubeconfigs es = map de_name (filter is_kubeconfig es)"

section \<open>The manager\<close>

record manager =
  mg_registry :: registry
  mg_db :: db
  mg_local :: string

definition defaultLocalID :: string where "defaultLocalID = ''local''"

definition NewManager :: "db \<Rightarrow> string \<Rightarrow> manager" where
  "NewManager db localID =
     \<lparr>mg_registry = NewRegistry, mg_db = db,
      mg_local = (if localID = [] then defaultLocalID else localID)\<rparr>"

text \<open>
  A metrics client that cannot be built leaves a nil pointer of the client type, which
  becomes a non-nil interface in the \<open>ClusterClient\<close>.
\<close>

definition new_client :: "'c kube_lib \<Rightarrow> string \<Rightarrow> 'c \<Rightarrow> cluster_client" where
  "new_client kl cid cfg =
     \<lparr>cc_id = cid, cc_metrics_client = (if kl_metrics kl cfg then Metrics_Client else Nil_Pointer),
      cc_metrics_on = False\<rparr>"

definition registerCluster ::
    "'c kube_lib \<Rightarrow> gotime \<Rightarrow> string \<Rightarrow> 'c \<Rightarrow> manager \<Rightarrow> string + manager" where
  "registerCluster kl now cid cfg m =
     (if \<not> kl_clientset kl cfg then Inl ''clientset''
      else
        (let m1 = m\<lparr>mg_registry := Register (mg_registry m) (new_client kl cid cfg)\<rparr>;
             row = \<lparr>cl_id = cid, cl_name = cid, cl_metrics = False, cl_created = now, cl_deleted = None\<rparr>
         in Inr (m1\<lparr>mg_db := keep_on_error (mg_db m1) (UpsertCluster (mg_db m1) row)\<rparr>)))"

definition markRemovedClusters :: "gotime \<Rightarrow> string list \<Rightarrow> manager \<Rightarrow> manager" where
  "markRemovedClusters now expected m =
     m\<lparr>mg_db := keep_on_error (mg_db m) (MarkClustersDeletedExcept now (mg_db m) expected)\<rparr>"

definition loadInCluster :: "'c kube_lib \<Rightarrow> gotime \<Rightarrow> manager \<Rightarrow> string option \<times> manager" where
  "loadInCluster kl now m =
     (case kl_in_cluster kl of
        None \<Rightarrow> (Some ''in-cluster config unavailable'', m)
      | Some cfg \<Rightarrow>
          (case registerCluster kl now (mg_local m) cfg m of
             Inl e \<Rightarrow> (Some e, m)
           | Inr m1 \<Rightarrow> (None, markRemovedClusters now [mg_local m] m1)))"

definition load_file :: "'c kube_lib \<Rightarrow> gotime \<Rightarrow> string \<Rightarrow> manager \<Rightarrow> manager" where
  "load_file kl now f m =
     (case kl_config kl f of
        None \<Rightarrow> m
      | Some cfg \<Rightarrow> keep_on_error m (registerCluster kl now (file_stem f) cfg m))"

text \<open>The error \<open>Load\<close> returns, if any, and the manager it leaves.\<close>

definition Load :: "'c kube_lib \<Rightarrow> gotime \<Rightarrow> manager \<Rightarrow> string option \<times> manager" where
  "Load kl now m =
     (case kl_dir kl of
        None \<Rightarrow> loadInCluster kl now m
      | Some es \<Rightarrow>
          (let files = kubeconfigs es in
           if files = [] then loadInCluster kl now m
           else (None, markRemovedClusters now (map file_stem files) (fold (load_file kl now) files m))))"

section \<open>The metrics probe\<close>

text \<open>
  A probe on a nil pointer dereferences it: \<open>None\<close> is the panic. \<open>answers\<close> says whether the
  Metrics API of the cluster answers.
\<close>

definition probe ::
    "bool \<Rightarrow> cluster_client \<Rightarrow> db \<Rightarrow> (cluster_client \<times> db) option" where
  "probe answers c db =
     (case cc_metrics_client c of
        Metrics_Client \<Rightarrow>
          (if \<not> answers then Some (c, db)
           else Some (SetMetricsEnabled True c,
                      keep_on_error db (SetClusterMetricsEnabled db (cc_id c) True)))
      | _ \<Rightarrow> None)"

text \<open>The probe at once and one per tick until the context is cancelled.\<close>

fun probe_loop :: "bool list \<Rightarrow> cluster_client \<Rightarrow> db \<Rightarrow> (cluster_client \<times> db) option" where
  "probe_loop [] c db = Some (c, db)"
| "probe_loop (a # as) c db =
     (case probe a c db of None \<Rightarrow> None | Some (c', db') \<Rightarrow> probe_loop as c' db')"

definition StartProbe ::
    "bool list \<Rightarrow> cluster_client \<Rightarrow> db \<Rightarrow> (cluster_client \<times> db) option" where
  "StartProbe as c db =
     (if cc_metrics_client c = No_Client then Some (c, db) else probe_loop as c db)"

section \<open>What loading leaves\<close>

definition live_ids :: "db \<Rightarrow> string set" where
  "live_ids db = cl_id ` {c \<in> set (db_clusters db). cl_deleted c = None}"

definition clusters_up :: "db \<Rightarrow> bool" where
  "clusters_up db \<longleftrightarrow> db_down db ''UpsertCluster'' = None
     \<and> db_down db ''MarkClustersDeletedExcept'' = None"

lemma set_clusters_down [simp]: "db_down (set_clusters P f db) = db_down db"
  by (simp add: set_clusters_def)

lemma live_iff: "i \<in> live_ids db \<longleftrightarrow> (\<exists>r \<in> set (db_clusters db). cl_deleted r = None \<and> cl_id r = i)"
  by (auto simp: live_ids_def)

lemma live_set_clusters:
  "i \<in> live_ids (set_clusters P f db) \<longleftrightarrow>
     (\<exists>r \<in> set (db_clusters db). let r' = (if P r then f r else r) in cl_deleted r' = None \<and> cl_id r' = i)"
  unfolding live_iff set_clusters_tables set_upd_where by (simp only: bex_simps Let_def)

lemma live_append:
  "live_ids (db\<lparr>db_clusters := db_clusters db @ [c]\<rparr>) =
     (if cl_deleted c = None then insert (cl_id c) (live_ids db) else live_ids db)"
  by (auto simp: live_ids_def)

lemma UpsertCluster_live:
  assumes "clusters_up db"
  shows "live_ids (keep_on_error db (UpsertCluster db c)) = insert (cl_id c) (live_ids db)"
    and "clusters_up (keep_on_error db (UpsertCluster db c))"
    and "db_runs (keep_on_error db (UpsertCluster db c)) = db_runs db"
    and "db_cronjobs (keep_on_error db (UpsertCluster db c)) = db_cronjobs db"
proof -
  have "live_ids (set_clusters (\<lambda>r. cl_id r = cl_id c) (\<lambda>r. r\<lparr>cl_name := cl_name c, cl_deleted := None\<rparr>) db)
      = insert (cl_id c) (live_ids db)" if "cl_id c \<in> set (cl_ids db)"
  proof (rule set_eqI)
    fix i
    from that obtain r where "r \<in> set (db_clusters db)" "cl_id r = cl_id c" by (auto simp: cl_ids_def)
    then show "i \<in> live_ids (set_clusters (\<lambda>r. cl_id r = cl_id c)
        (\<lambda>r. r\<lparr>cl_name := cl_name c, cl_deleted := None\<rparr>) db) \<longleftrightarrow> i \<in> insert (cl_id c) (live_ids db)"
      unfolding live_set_clusters by (auto simp: live_iff[of _ db] Let_def split: if_splits) metis
  qed
  then show "live_ids (keep_on_error db (UpsertCluster db c)) = insert (cl_id c) (live_ids db)"
    using assms by (simp add: UpsertCluster_def clusters_up_def exec_sql_up live_append)
  show "clusters_up (keep_on_error db (UpsertCluster db c))"
    "db_runs (keep_on_error db (UpsertCluster db c)) = db_runs db"
    "db_cronjobs (keep_on_error db (UpsertCluster db c)) = db_cronjobs db"
    using assms by (auto simp: UpsertCluster_def clusters_up_def exec_sql_up)
qed

lemma Mark_live:
  assumes "clusters_up db" and "keep \<noteq> []"
  shows "live_ids (keep_on_error db (MarkClustersDeletedExcept now db keep)) = live_ids db \<inter> set keep"
    and "db_runs (keep_on_error db (MarkClustersDeletedExcept now db keep)) = db_runs db"
    and "db_cronjobs (keep_on_error db (MarkClustersDeletedExcept now db keep)) = db_cronjobs db"
proof -
  have "live_ids (set_clusters (\<lambda>r. cl_deleted r = None \<and> cl_id r \<notin> set keep)
      (\<lambda>r. r\<lparr>cl_deleted := Some now\<rparr>) db) = live_ids db \<inter> set keep"
    by (rule set_eqI) (auto simp: live_set_clusters live_iff[of _ db] Let_def split: if_splits)
  then show "live_ids (keep_on_error db (MarkClustersDeletedExcept now db keep)) = live_ids db \<inter> set keep"
    using assms by (simp add: MarkClustersDeletedExcept_def clusters_up_def exec_sql_up)
  show "db_runs (keep_on_error db (MarkClustersDeletedExcept now db keep)) = db_runs db"
    "db_cronjobs (keep_on_error db (MarkClustersDeletedExcept now db keep)) = db_cronjobs db"
    using assms by (simp_all add: MarkClustersDeletedExcept_def clusters_up_def exec_sql_up)
qed

definition loadable :: "'c kube_lib \<Rightarrow> string \<Rightarrow> bool" where
  "loadable kl f \<longleftrightarrow> (\<exists>cfg. kl_config kl f = Some cfg \<and> kl_clientset kl cfg)"

definition client_of :: "'c kube_lib \<Rightarrow> string \<Rightarrow> cluster_client" where
  "client_of kl f = new_client kl (file_stem f) (the (kl_config kl f))"

lemma load_file_cases:
  "load_file kl now f m =
     (if loadable kl f then
        m\<lparr>mg_registry := Register (mg_registry m) (client_of kl f),
          mg_db := keep_on_error (mg_db m) (UpsertCluster (mg_db m)
            \<lparr>cl_id = file_stem f, cl_name = file_stem f, cl_metrics = False, cl_created = now,
             cl_deleted = None\<rparr>)\<rparr>
      else m)"
  by (auto simp: load_file_def loadable_def registerCluster_def client_of_def Let_def split: option.splits)

lemma load_files:
  assumes "clusters_up (mg_db m)"
  shows "live_ids (mg_db (fold (load_file kl now) fs m))
       = live_ids (mg_db m) \<union> file_stem ` {f \<in> set fs. loadable kl f}
    \<and> clusters_up (mg_db (fold (load_file kl now) fs m))
    \<and> db_runs (mg_db (fold (load_file kl now) fs m)) = db_runs (mg_db m)
    \<and> db_cronjobs (mg_db (fold (load_file kl now) fs m)) = db_cronjobs (mg_db m)
    \<and> mg_registry (fold (load_file kl now) fs m)
       = foldl Register (mg_registry m) (map (client_of kl) (filter (loadable kl) fs))"
  using assms
proof (induction fs arbitrary: m)
  case (Cons f fs)
  let ?m = "load_file kl now f m"
  have up: "clusters_up (mg_db ?m)" using Cons.prems by (simp add: load_file_cases UpsertCluster_live)
  show ?case
    using Cons.IH[OF up] Cons.prems
    by (cases "loadable kl f") (auto simp: load_file_cases UpsertCluster_live)
qed simp

text \<open>
  Loading declared kubeconfigs, with the store up: afterwards the listed clusters are the
  declared ones that were loaded now or were listed before (a file that cannot be loaded
  keeps its cluster), no run or CronJob is touched, and the registry holds for each name
  the client of the last loadable file of that name.
\<close>

definition declared :: "'c kube_lib \<Rightarrow> string list" where
  "declared kl = (case kl_dir kl of None \<Rightarrow> [] | Some es \<Rightarrow> kubeconfigs es)"

lemma client_of_id [simp]: "cc_id (client_of kl f) = file_stem f"
  by (simp add: client_of_def new_client_def)

lemma find_map_client: "find (\<lambda>c. cc_id c = cid) (map (client_of kl) gs)
    = map_option (client_of kl) (find (\<lambda>f. file_stem f = cid) gs)"
  by (induction gs) auto

text \<open>
  C37. Loading with the store up. From a directory that declares clusters, the listed
  clusters become those of the declared names that could be loaded now or were listed
  before (so an unreadable kubeconfig does not remove its cluster and a removed kubeconfig
  does), and the registry maps each name to the client of its last loadable file. Without
  any declared cluster the service account's cluster is the only one listed, or loading
  fails and nothing changes. No CronJob and no run is touched in any case.
\<close>

theorem Load_clusters:
  assumes up: "clusters_up (mg_db m)"
  shows "let fs = declared kl; m' = snd (Load kl now m) in
     db_runs (mg_db m') = db_runs (mg_db m) \<and> db_cronjobs (mg_db m') = db_cronjobs (mg_db m)
     \<and> (if fs \<noteq> [] then
          fst (Load kl now m) = None
          \<and> live_ids (mg_db m') = file_stem ` set fs \<inter> (live_ids (mg_db m) \<union> file_stem ` {f \<in> set fs. loadable kl f})
          \<and> (\<forall>cid. Registry_Get (mg_registry m') cid =
               (case find (\<lambda>f. file_stem f = cid) (rev (filter (loadable kl) fs)) of
                  None \<Rightarrow> Registry_Get (mg_registry m) cid | Some f \<Rightarrow> Some (client_of kl f)))
        else if (\<exists>cfg. kl_in_cluster kl = Some cfg \<and> kl_clientset kl cfg) then
          fst (Load kl now m) = None \<and> live_ids (mg_db m') = {mg_local m}
        else fst (Load kl now m) \<noteq> None \<and> m' = m)"
proof (cases "declared kl = []")
  case True
  then have "Load kl now m = loadInCluster kl now m"
    by (auto simp: Load_def declared_def split: option.splits)
  then show ?thesis
    using True up
    by (auto simp: loadInCluster_def registerCluster_def markRemovedClusters_def Let_def
        UpsertCluster_live Mark_live split: option.splits)
next
  case False
  let ?fs = "declared kl"
  let ?m1 = "fold (load_file kl now) ?fs m"
  have L: "Load kl now m = (None, markRemovedClusters now (map file_stem ?fs) ?m1)"
    using False by (auto simp: Load_def declared_def Let_def split: option.splits)
  note lf = load_files[OF up, of kl now ?fs]
  have get: "Registry_Get (mg_registry ?m1) cid =
      (case find (\<lambda>f. file_stem f = cid) (rev (filter (loadable kl) ?fs)) of
         None \<Rightarrow> Registry_Get (mg_registry m) cid | Some f \<Rightarrow> Some (client_of kl f))" for cid
  proof -
    have "find (\<lambda>c. cc_id c = cid) (rev (map (client_of kl) gs))
        = map_option (client_of kl) (find (\<lambda>f. file_stem f = cid) (rev gs))" for gs
      by (simp add: rev_map find_map_client)
    then show ?thesis using lf reg.get_puts by (auto split: option.splits)
  qed
  show ?thesis
    using False lf get by (auto simp: L markRemovedClusters_def Mark_live Let_def)
qed

definition demo_dir :: "nat kube_lib" where
  "demo_dir =
     \<lparr>kl_dir = Some [\<lparr>de_name = ''.gitkeep'', de_dir = False\<rparr>, \<lparr>de_name = ''bad.yml'', de_dir = False\<rparr>,
        \<lparr>de_name = ''east.yaml'', de_dir = False\<rparr>, \<lparr>de_name = ''notes.txt'', de_dir = False\<rparr>,
        \<lparr>de_name = ''old'', de_dir = True\<rparr>],
      kl_config = (\<lambda>f. if f = ''bad.yml'' then None else Some 0), kl_in_cluster = None,
      kl_clientset = (\<lambda>_. True), kl_metrics = (\<lambda>_. False)\<rparr>"

definition demo_manager :: manager where
  "demo_manager = NewManager (empty_db\<lparr>db_clusters :=
      [\<lparr>cl_id = ''bad'', cl_name = ''bad'', cl_metrics = False, cl_created = 0, cl_deleted = None\<rparr>,
       \<lparr>cl_id = ''gone'', cl_name = ''gone'', cl_metrics = False, cl_created = 0, cl_deleted = None\<rparr>]\<rparr>) []"

lemma demo_declared: "declared demo_dir = [''bad.yml'', ''east.yaml'']"
  by (simp add: declared_def demo_dir_def kubeconfigs_def is_kubeconfig_def file_ext_def has_prefix_def Let_def)

lemma demo_live: "live_ids (mg_db demo_manager) = {''bad'', ''gone''}"
  by (rule set_eqI) (auto simp: live_iff demo_manager_def NewManager_def empty_db_def)

lemma demo_loadable: "loadable demo_dir f \<longleftrightarrow> f \<noteq> ''bad.yml''"
  by (simp add: loadable_def demo_dir_def)

lemma demo_stems: "file_stem ''bad.yml'' = ''bad''" "file_stem ''east.yaml'' = ''east''"
  by (simp_all add: file_stem_def file_ext_def)

theorem Load_clusters_witness:
  "live_ids (mg_db (snd (Load demo_dir 5 demo_manager))) = {''bad'', ''east''}"
proof -
  have "clusters_up (mg_db demo_manager)"
    by (simp add: clusters_up_def demo_manager_def NewManager_def empty_db_def)
  from Load_clusters[OF this, of demo_dir 5]
  have "live_ids (mg_db (snd (Load demo_dir 5 demo_manager)))
      = file_stem ` {''bad.yml'', ''east.yaml''}
        \<inter> ({''bad'', ''gone''} \<union> file_stem ` {f \<in> {''bad.yml'', ''east.yaml''}. loadable demo_dir f})"
    by (simp add: Let_def demo_declared demo_live)
  also have "{f \<in> {''bad.yml'', ''east.yaml''}. loadable demo_dir f} = {''east.yaml''}"
    by (auto simp: demo_loadable)
  finally show ?thesis by (auto simp: demo_stems)
qed

text \<open>
  The check for a missing metrics client never holds: \<open>registerCluster\<close> stores a nil pointer
  in the interface, and the first probe of such a cluster panics.
\<close>

lemma unavailable_metrics_panic:
  assumes "kl_clientset kl cfg" and "\<not> kl_metrics kl cfg"
  shows "StartProbe (a # as) (new_client kl cid cfg) db = None"
  using assms by (simp add: StartProbe_def new_client_def probe_def)

text \<open>
  A probe never turns the flag off again: once an answer was seen, the cluster stays enabled
  through every later failure.
\<close>

lemma probe_sticky:
  assumes "cc_metrics_client c = Metrics_Client" and "StartProbe as c db = Some (c', db')"
  shows "cc_metrics_on c' \<longleftrightarrow> cc_metrics_on c \<or> True \<in> set as"
proof -
  have "probe_loop as c db = Some (c', db') \<Longrightarrow> ?thesis"
    using assms(1)
  proof (induction as arbitrary: c db)
    case (Cons a as)
    then show ?case
      by (cases a) (auto simp: probe_def SetMetricsEnabled_def)
  qed auto
  then show ?thesis using assms by (simp add: StartProbe_def)
qed

end
