(* ===== verification/Sampler.thy ===== *)
theory Sampler
  imports Cluster_Manager Store_Props
begin

text \<open>
  Resource sampling (src/internal/sampler/resource_sampler.go): the map of active runs
  behind its mutex, and the goroutine that \<open>Start\<close> leaves behind for each, as a transition
  system. What the Metrics API answers, and when the ticker fires, is part of each step.
\<close>

section \<open>State\<close>

text \<open>
  A goroutine is in its select loop (\<open>Sampling\<close>), has left it and removed its map entry
  (\<open>Leaving\<close>), or has also computed the run's aggregates (\<open>Finished\<close>). \<open>gr_cancelled\<close> is its
  context. \<open>sm_active\<close> maps a run to the goroutine whose cancel function it holds.
\<close>

datatype phase = Sampling | Leaving | Finished

text \<open>The phases of a goroutine follow each other in this order.\<close>

primrec phase_rank :: "phase \<Rightarrow> nat" where
  "phase_rank Sampling = 0"
| "phase_rank Leaving = 1"
| "phase_rank Finished = 2"

lemma phase_rank_inj [simp]: "phase_rank p = phase_rank q \<longleftrightarrow> p = q"
  by (cases p; cases q) simp_all

instantiation phase :: linorder
begin

definition less_eq_phase :: "phase \<Rightarrow> phase \<Rightarrow> bool" where "less_eq_phase p q \<longleftrightarrow> phase_rank p \<le> phase_rank q"
definition less_phase :: "phase \<Rightarrow> phase \<Rightarrow> bool" where "less_phase p q \<longleftrightarrow> phase_rank p < phase_rank q"

instance
  by standard (auto simp: less_eq_phase_def less_phase_def)

end

lemma phase_bounds [simp]: "Sampling \<le> p" "p \<le> Finished"
  by (cases p; simp add: less_eq_phase_def)+

record goroutine =
  gr_run :: string
  gr_cancelled :: bool
  gr_phase :: phase

record sampler =
  sm_client :: metrics_iface
  sm_active :: "string \<rightharpoonup> nat"
  sm_threads :: "goroutine list"
  sm_db :: db

definition NewSampler :: "db \<Rightarrow> metrics_iface \<Rightarrow> sampler" where
  "NewSampler db client = \<lparr>sm_client = client, sm_active = Map.empty, sm_threads = [], sm_db = db\<rparr>"

definition set_thread :: "nat \<Rightarrow> (goroutine \<Rightarrow> goroutine) \<Rightarrow> sampler \<Rightarrow> sampler" where
  "set_thread g f s = s\<lparr>sm_threads := (sm_threads s)[g := f (sm_threads s ! g)]\<rparr>"

section \<open>Operations\<close>

definition Start :: "string \<Rightarrow> sampler \<Rightarrow> sampler" where
  "Start run s =
     (if sm_client s = No_Client then s
      else if sm_active s run \<noteq> None then s
      else s\<lparr>sm_active := (sm_active s)(run \<mapsto> length (sm_threads s)),
             sm_threads := sm_threads s @ [\<lparr>gr_run = run, gr_cancelled = False, gr_phase = Sampling\<rparr>]\<rparr>)"

definition Stop :: "string \<Rightarrow> sampler \<Rightarrow> sampler" where
  "Stop run s =
     (case sm_active s run of
        None \<Rightarrow> s
      | Some g \<Rightarrow> set_thread g (\<lambda>t. t\<lparr>gr_cancelled := True\<rparr>) s)"

text \<open>The parent context: every goroutine's context is derived from it.\<close>

definition Cancel_All :: "sampler \<Rightarrow> sampler" where
  "Cancel_All s = s\<lparr>sm_threads := map (\<lambda>t. t\<lparr>gr_cancelled := True\<rparr>) (sm_threads s)\<rparr>"

text \<open>
  One data point: \<open>usage\<close> is the answer of the Metrics API, one pair of millicores and bytes
  per container. Sums are 64-bit.
\<close>

definition sample :: "gotime \<Rightarrow> (int \<times> int) list option \<Rightarrow> string \<Rightarrow> db \<Rightarrow> db" where
  "sample now usage run db =
     (case usage of
        None \<Rightarrow> db
      | Some cs \<Rightarrow>
          keep_on_error db (InsertResourceSample now db run
            (foldl (\<lambda>a c. wrap64 (a + fst c)) 0 cs) (foldl (\<lambda>a c. wrap64 (a + snd c)) 0 cs)))"

definition finalize :: "string \<Rightarrow> db \<Rightarrow> db" where
  "finalize run db = keep_on_error db (FinalizeResourceUsage db run)"

text \<open>
  The steps of a goroutine. A tick may still be taken after the cancellation, as long as the
  loop has not been left: \<open>select\<close> picks any ready case. A tick on a nil client pointer ends
  the process and is no step.
\<close>

definition tick :: "gotime \<Rightarrow> (int \<times> int) list option \<Rightarrow> nat \<Rightarrow> sampler \<Rightarrow> sampler" where
  "tick now usage g s = s\<lparr>sm_db := sample now usage (gr_run (sm_threads s ! g)) (sm_db s)\<rparr>"

definition leave :: "nat \<Rightarrow> sampler \<Rightarrow> sampler" where
  "leave g s =
     set_thread g (\<lambda>t. t\<lparr>gr_phase := Leaving\<rparr>)
       (s\<lparr>sm_active := (sm_active s)(gr_run (sm_threads s ! g) := None)\<rparr>)"

definition finish :: "nat \<Rightarrow> sampler \<Rightarrow> sampler" where
  "finish g s =
     set_thread g (\<lambda>t. t\<lparr>gr_phase := Finished\<rparr>)
       (s\<lparr>sm_db := finalize (gr_run (sm_threads s ! g)) (sm_db s)\<rparr>)"

inductive sampler_step :: "sampler \<Rightarrow> sampler \<Rightarrow> bool" where
  start: "sampler_step s (Start run s)"
| stop: "sampler_step s (Stop run s)"
| shutdown: "sampler_step s (Cancel_All s)"
| tick: "g < length (sm_threads s) \<Longrightarrow> gr_phase (sm_threads s ! g) = Sampling
    \<Longrightarrow> sm_client s = Metrics_Client \<Longrightarrow> sampler_step s (tick now usage g s)"
| leave: "g < length (sm_threads s) \<Longrightarrow> gr_phase (sm_threads s ! g) = Sampling
    \<Longrightarrow> gr_cancelled (sm_threads s ! g) \<Longrightarrow> sampler_step s (leave g s)"
| finish: "g < length (sm_threads s) \<Longrightarrow> gr_phase (sm_threads s ! g) = Leaving
    \<Longrightarrow> sampler_step s (finish g s)"

inductive_cases sampler_stepE: "sampler_step s s'"

inductive sampler_reach :: "sampler \<Rightarrow> sampler \<Rightarrow> bool" for s0 where
  init: "sampler_reach s0 s0"
| step: "sampler_reach s0 s \<Longrightarrow> sampler_step s s' \<Longrightarrow> sampler_reach s0 s'"

section \<open>Invariants\<close>

text \<open>The map holds exactly the goroutines still in their loop, one per run.\<close>

definition active_inv :: "sampler \<Rightarrow> bool" where
  "active_inv s \<longleftrightarrow>
     (\<forall>run g. sm_active s run = Some g \<longleftrightarrow>
        g < length (sm_threads s) \<and> gr_run (sm_threads s ! g) = run
        \<and> gr_phase (sm_threads s ! g) = Sampling)"

text \<open>The aggregates stored with a run are those of its stored samples.\<close>

definition aggregated :: "string \<Rightarrow> db \<Rightarrow> bool" where
  "aggregated run db \<longleftrightarrow>
     (\<forall>r \<in> set (db_runs db). jr_id r = run \<longrightarrow>
        jr_avg_cpu r = sql_avg (map rs_cpu (samples_of db run))
        \<and> jr_max_cpu r = sql_max (map rs_cpu (samples_of db run))
        \<and> jr_avg_mem r = sql_avg (map rs_mem (samples_of db run))
        \<and> jr_max_mem r = sql_max (map rs_mem (samples_of db run)))"

text \<open>A run that was sampled and whose goroutines have all finished.\<close>

definition quiescent :: "sampler \<Rightarrow> string \<Rightarrow> bool" where
  "quiescent s run \<longleftrightarrow>
     (\<exists>g < length (sm_threads s). gr_run (sm_threads s ! g) = run)
     \<and> (\<forall>g < length (sm_threads s). gr_run (sm_threads s ! g) = run \<longrightarrow> gr_phase (sm_threads s ! g) = Finished)"

definition aggregate_inv :: "sampler \<Rightarrow> bool" where
  "aggregate_inv s \<longleftrightarrow> db_down (sm_db s) ''FinalizeResourceUsage'' = None
     \<and> (\<forall>run. quiescent s run \<longrightarrow> aggregated run (sm_db s))"

lemma active_new: "active_inv (NewSampler db c)"
  by (simp add: active_inv_def NewSampler_def)

lemma active_step: "sampler_step s s' \<Longrightarrow> active_inv s \<Longrightarrow> active_inv s'"
proof (induction rule: sampler_step.induct)
  case (start s run)
  then show ?case
    by (auto simp: active_inv_def Start_def nth_append) (metis option.distinct(1))?
next
  case (stop s run)
  then show ?case
    by (auto simp: active_inv_def Stop_def set_thread_def nth_list_update split: option.splits)
next
  case (shutdown s)
  then show ?case by (simp add: active_inv_def Cancel_All_def conj_commute cong: conj_cong)
next
  case (tick g s now usage)
  then show ?case by (simp add: active_inv_def tick_def)
next
  case (leave g s)
  then show ?case
    by (auto simp: active_inv_def leave_def set_thread_def nth_list_update) (metis option.inject)
next
  case (finish g s)
  then show ?case
    by (auto simp: active_inv_def finish_def set_thread_def nth_list_update)
qed

lemma sample_frame [simp]:
  "db_down (sample now u run db) = db_down db" "db_runs (sample now u run db) = db_runs db"
  "i \<noteq> run \<Longrightarrow> samples_of (sample now u run db) i = samples_of db i"
  by (auto simp: sample_def InsertResourceSample_def exec_sql_def samples_of_def split: option.splits)

lemma sample_keeps_aggregates:
  "i \<noteq> run \<Longrightarrow> aggregated i (sample now u run db) = aggregated i db"
  by (simp add: aggregated_def)

lemma finalize_frame [simp]:
  "db_down (finalize run db) = db_down db" "samples_of (finalize run db) i = samples_of db i"
  by (auto simp: finalize_def FinalizeResourceUsage_def exec_sql_def set_runs_def samples_of_def Let_def
      split: option.splits)

lemma finalize_aggregates:
  assumes "db_down db ''FinalizeResourceUsage'' = None"
  shows "aggregated i (finalize run db) \<longleftrightarrow> i = run \<or> aggregated i db"
  using assms
  by (auto simp: aggregated_def finalize_def FinalizeResourceUsage_def exec_sql_up Let_def set_upd_where
      samples_of_def split: if_splits)

lemma quiescent_set_thread:
  assumes "g < length (sm_threads s)" and "\<And>t. gr_run (f t) = gr_run t"
  shows "quiescent (set_thread g f s) run \<longleftrightarrow>
     (\<exists>h < length (sm_threads s). gr_run (sm_threads s ! h) = run)
     \<and> (\<forall>h < length (sm_threads s). gr_run (sm_threads s ! h) = run \<longrightarrow>
          (if h = g then gr_phase (f (sm_threads s ! h)) else gr_phase (sm_threads s ! h)) = Finished)"
  using assms by (auto simp: quiescent_def set_thread_def nth_list_update)

lemma quiescent_db [simp]:
  "quiescent (s\<lparr>sm_db := d\<rparr>) run = quiescent s run" "quiescent (s\<lparr>sm_active := a\<rparr>) run = quiescent s run"
  by (simp_all add: quiescent_def)

lemma thread_frame [simp]:
  "sm_db (set_thread g f s) = sm_db s" "length (sm_threads (set_thread g f s)) = length (sm_threads s)"
  "sm_client (set_thread g f s) = sm_client s"
  by (simp_all add: set_thread_def)

lemma aggregate_step: "sampler_step s s' \<Longrightarrow> active_inv s \<Longrightarrow> aggregate_inv s \<Longrightarrow> aggregate_inv s'"
proof (induction rule: sampler_step.induct)
  case (start s run)
  have "quiescent (Start run s) i \<Longrightarrow> quiescent s i" for i
    by (auto simp: quiescent_def Start_def nth_append less_Suc_eq split: if_splits)
  then show ?case using start by (auto simp: aggregate_inv_def Start_def)
next
  case (stop s run)
  have "quiescent (Stop run s) i = quiescent s i" for i
    using stop(1)
    by (auto simp: Stop_def active_inv_def quiescent_set_thread split: option.splits) (auto simp: quiescent_def)
  then show ?case using stop by (auto simp: aggregate_inv_def Stop_def split: option.splits)
next
  case (shutdown s)
  have "quiescent (Cancel_All s) i = quiescent s i" for i
    by (auto simp: quiescent_def Cancel_All_def)
  then show ?case using shutdown by (auto simp: aggregate_inv_def Cancel_All_def)
next
  case (tick g s now usage)
  then have "i \<noteq> gr_run (sm_threads s ! g)" if "quiescent s i" for i
    using that by (auto simp: quiescent_def)
  then show ?case
    using tick by (simp add: aggregate_inv_def tick_def sample_keeps_aggregates)
next
  case (leave g s)
  have "quiescent (leave g s) i \<Longrightarrow> quiescent s i" for i
    using leave(1) by (auto simp: leave_def quiescent_set_thread quiescent_def[of s] split: if_splits)
  then show ?case using leave by (auto simp: aggregate_inv_def leave_def)
next
  case (finish g s)
  have "quiescent (finish g s) i \<Longrightarrow> i = gr_run (sm_threads s ! g) \<or> quiescent s i" for i
    using finish(1)
    by (auto simp: finish_def quiescent_set_thread quiescent_def[of s] cong: if_cong split: if_splits)
  then show ?case using finish by (auto simp: aggregate_inv_def finish_def finalize_aggregates)
qed

lemma reach_inv:
  assumes "sampler_reach s0 s" and "active_inv s0" and "aggregate_inv s0"
  shows "active_inv s \<and> aggregate_inv s"
  using assms by (induction rule: sampler_reach.induct) (auto intro: active_step aggregate_step)

text \<open>
  A stopped run: leaving and finishing are enabled one after the other, and then its map
  entry is gone and its goroutine finished.
\<close>

lemma stop_then_finish:
  assumes inv: "active_inv s" and act: "sm_active s run = Some g"
  shows "sampler_step (Stop run s) (leave g (Stop run s))"
    and "sampler_step (leave g (Stop run s)) (finish g (leave g (Stop run s)))"
    and "sm_active (finish g (leave g (Stop run s))) run = None"
    and "gr_phase (sm_threads (finish g (leave g (Stop run s))) ! g) = Finished"
proof -
  have g: "g < length (sm_threads s)" "gr_run (sm_threads s ! g) = run" "gr_phase (sm_threads s ! g) = Sampling"
    using inv act by (auto simp: active_inv_def)
  show "sampler_step (Stop run s) (leave g (Stop run s))"
    by (rule sampler_step.leave) (use g act in \<open>simp_all add: Stop_def set_thread_def\<close>)
  show "sampler_step (leave g (Stop run s)) (finish g (leave g (Stop run s)))"
    by (rule sampler_step.finish) (use g act in \<open>simp_all add: Stop_def leave_def set_thread_def\<close>)
  show "sm_active (finish g (leave g (Stop run s))) run = None"
    "gr_phase (sm_threads (finish g (leave g (Stop run s))) ! g) = Finished"
    using g act by (simp_all add: Stop_def leave_def finish_def set_thread_def)
qed

text \<open>
  A later state of a goroutine: the same run, its phase not earlier, its cancellation kept.
\<close>

definition later :: "goroutine \<Rightarrow> goroutine \<Rightarrow> bool" where
  "later t u \<longleftrightarrow> gr_run u = gr_run t \<and> gr_phase t \<le> gr_phase u \<and> (gr_cancelled t \<longrightarrow> gr_cancelled u)"

definition threads_later :: "sampler \<Rightarrow> sampler \<Rightarrow> bool" where
  "threads_later s s' \<longleftrightarrow>
     (\<forall>g < length (sm_threads s). g < length (sm_threads s') \<and> later (sm_threads s ! g) (sm_threads s' ! g))"

lemma later_refl [simp]: "later t t"
  by (simp add: later_def)

lemma later_trans: "later t u \<Longrightarrow> later u v \<Longrightarrow> later t v"
  by (auto simp: later_def)

lemma threads_later_set:
  "(\<And>t. t = sm_threads s ! g \<Longrightarrow> later t (f t)) \<Longrightarrow> threads_later s (set_thread g f s)"
proof -
  assume f: "\<And>t. t = sm_threads s ! g \<Longrightarrow> later t (f t)"
  have "later (sm_threads s ! h) ((sm_threads s)[g := f (sm_threads s ! g)] ! h)" if "h < length (sm_threads s)" for h
    using f that by (cases "h = g") simp_all
  then show ?thesis by (simp add: threads_later_def set_thread_def)
qed

lemma threads_later_frame [simp]:
  "threads_later (s\<lparr>sm_db := d\<rparr>) s' = threads_later s s'" "threads_later (s\<lparr>sm_active := a\<rparr>) s' = threads_later s s'"
  by (simp_all add: threads_later_def)

lemma step_later: "sampler_step s s' \<Longrightarrow> threads_later s s'"
proof (induction rule: sampler_step.induct)
  case (start s run)
  show ?case by (simp add: threads_later_def Start_def nth_append)
next
  case (stop s run)
  show ?case
  proof (cases "sm_active s run")
    case (Some g)
    then show ?thesis by (auto simp: Stop_def later_def intro: threads_later_set)
  qed (simp add: Stop_def threads_later_def)
next
  case (leave g s)
  let ?s = "s\<lparr>sm_active := (sm_active s)(gr_run (sm_threads s ! g) := None)\<rparr>"
  have "threads_later ?s (leave g s)"
    unfolding leave_def by (rule threads_later_set) (use leave in \<open>simp add: later_def\<close>)
  then show ?case by simp
next
  case (finish g s)
  let ?s = "s\<lparr>sm_db := finalize (gr_run (sm_threads s ! g)) (sm_db s)\<rparr>"
  have "threads_later ?s (finish g s)"
    unfolding finish_def by (rule threads_later_set) (simp add: later_def)
  then show ?case by simp
qed (simp_all add: threads_later_def Cancel_All_def tick_def later_def)

lemma reach_later: "sampler_reach s s' \<Longrightarrow> threads_later s s'"
proof (induction rule: sampler_reach.induct)
  case (step t t')
  from step.IH step_later[OF step.hyps(2)] show ?case
    by (auto simp: threads_later_def intro: later_trans)
qed (simp add: threads_later_def)

text \<open>
  C38. Whatever the interleaving of starts, stops, ticks, the shutdown and the goroutines'
  own steps, from an empty sampler on a store whose finalizing statement works: a run has at
  most one goroutine in its sampling loop, and that is the one the map knows; once all
  goroutines of a sampled run have finished, the aggregates stored with the run are exactly
  those of its stored samples, however often sampling was restarted; a run that is being
  sampled can always be brought to rest by stopping it: the two steps its goroutine then
  needs are enabled one after the other; and no later step revives a goroutine: it keeps its
  run and its cancellation, and its phase never goes back.
\<close>

theorem sampling_settles:
  assumes "sampler_reach (NewSampler db client) s"
    and "db_down db ''FinalizeResourceUsage'' = None"
  shows "(\<forall>run g. sm_active s run = Some g \<longleftrightarrow>
        g < length (sm_threads s) \<and> gr_run (sm_threads s ! g) = run \<and> gr_phase (sm_threads s ! g) = Sampling)
   \<and> (\<forall>run. quiescent s run \<longrightarrow> aggregated run (sm_db s))
   \<and> (\<forall>run g. sm_active s run = Some g \<longrightarrow>
        (\<exists>s1 s2. sampler_step (Stop run s) s1 \<and> sampler_step s1 s2
           \<and> sm_active s2 run = None \<and> gr_phase (sm_threads s2 ! g) = Finished))
   \<and> (\<forall>s'. sampler_reach s s' \<longrightarrow> (\<forall>g < length (sm_threads s). g < length (sm_threads s')
        \<and> gr_run (sm_threads s' ! g) = gr_run (sm_threads s ! g)
        \<and> gr_phase (sm_threads s ! g) \<le> gr_phase (sm_threads s' ! g)
        \<and> (gr_cancelled (sm_threads s ! g) \<longrightarrow> gr_cancelled (sm_threads s' ! g))))"
proof -
  have "aggregate_inv (NewSampler db client)"
    using assms(2) by (simp add: aggregate_inv_def quiescent_def NewSampler_def)
  from reach_inv[OF assms(1) active_new this] have inv: "active_inv s" "aggregate_inv s" by auto
  show ?thesis
  proof (intro conjI)
    show "\<forall>run g. sm_active s run = Some g \<longleftrightarrow>
        g < length (sm_threads s) \<and> gr_run (sm_threads s ! g) = run \<and> gr_phase (sm_threads s ! g) = Sampling"
      using inv(1) unfolding active_inv_def .
    show "\<forall>run. quiescent s run \<longrightarrow> aggregated run (sm_db s)"
      using inv(2) unfolding aggregate_inv_def by blast
    show "\<forall>run g. sm_active s run = Some g \<longrightarrow>
        (\<exists>s1 s2. sampler_step (Stop run s) s1 \<and> sampler_step s1 s2
           \<and> sm_active s2 run = None \<and> gr_phase (sm_threads s2 ! g) = Finished)"
      using stop_then_finish[OF inv(1)] by blast
    show "\<forall>s'. sampler_reach s s' \<longrightarrow> (\<forall>g < length (sm_threads s). g < length (sm_threads s')
        \<and> gr_run (sm_threads s' ! g) = gr_run (sm_threads s ! g)
        \<and> gr_phase (sm_threads s ! g) \<le> gr_phase (sm_threads s' ! g)
        \<and> (gr_cancelled (sm_threads s ! g) \<longrightarrow> gr_cancelled (sm_threads s' ! g)))"
      using reach_later unfolding threads_later_def later_def by blast
  qed
qed

text \<open>Run r2 is sampled once, with two containers, and stopped.\<close>

definition demo_sampled :: "nat \<Rightarrow> sampler" where
  "demo_sampled n =
     foldl (\<lambda>s f. f s) (NewSampler demo_db Metrics_Client)
       (take n [Start ''r2'', tick 9 (Some [(40, 100), (2, 11)]) 0, Stop ''r2'', leave 0, finish 0])"

lemma demo_sampled_reach: "sampler_reach (NewSampler demo_db Metrics_Client) (demo_sampled 5)"
proof -
  note ev = demo_sampled_def eval_nat_numeral NewSampler_def Start_def tick_def Stop_def leave_def
    set_thread_def
  have "sampler_step (demo_sampled 0) (demo_sampled 1)" "sampler_step (demo_sampled 2) (demo_sampled 3)"
    by (simp_all add: demo_sampled_def eval_nat_numeral sampler_step.start sampler_step.stop)
  moreover have "sampler_step (demo_sampled 1) (demo_sampled 2)"
  proof -
    have "demo_sampled 2 = tick 9 (Some [(40, 100), (2, 11)]) 0 (demo_sampled 1)"
      by (simp add: demo_sampled_def eval_nat_numeral)
    then show ?thesis by (simp only:) (rule sampler_step.tick; simp add: ev)
  qed
  moreover have "sampler_step (demo_sampled 3) (demo_sampled 4)"
  proof -
    have "demo_sampled 4 = leave 0 (demo_sampled 3)" by (simp add: demo_sampled_def eval_nat_numeral)
    then show ?thesis by (simp only:) (rule sampler_step.leave; simp add: ev)
  qed
  moreover have "sampler_step (demo_sampled 4) (demo_sampled 5)"
  proof -
    have "demo_sampled 5 = finish 0 (demo_sampled 4)" by (simp add: demo_sampled_def eval_nat_numeral)
    then show ?thesis by (simp only:) (rule sampler_step.finish; simp add: ev)
  qed
  moreover have "demo_sampled 0 = NewSampler demo_db Metrics_Client" by (simp add: demo_sampled_def)
  ultimately show ?thesis by (metis sampler_reach.init sampler_reach.step)
qed

theorem sampling_settles_witness:
  "quiescent (demo_sampled 5) ''r2'' \<and> aggregated ''r2'' (sm_db (demo_sampled 5))
   \<and> map rs_cpu (samples_of (sm_db (demo_sampled 5)) ''r2'') = [42]"
proof -
  have q: "quiescent (demo_sampled 5) ''r2''"
    by (simp add: quiescent_def demo_sampled_def eval_nat_numeral NewSampler_def Start_def tick_def
        Stop_def leave_def finish_def set_thread_def)
  have "map rs_cpu (samples_of (sm_db (demo_sampled 5)) ''r2'') = [42]"
    by (simp add: demo_sampled_def eval_nat_numeral NewSampler_def Start_def tick_def Stop_def leave_def
        finish_def sample_def InsertResourceSample_def exec_sql_up demo_up)
      (simp add: samples_of_def demo_defs jr_ids_def wrap64_id)
  moreover have "db_down demo_db ''FinalizeResourceUsage'' = None" by (simp add: demo_up)
  ultimately show ?thesis using q sampling_settles[OF demo_sampled_reach] by blast
qed

end
