(* ===== verification/Html.thy ===== *)
theory Html
  imports Html_Text Store_Fleet
begin

text \<open>
  The markup of the pages, as the source writes it: src/internal/api/html.go,
  html_components.go, html_overview.go and html_log.go. Every template is the Go literal,
  filled in by \<open>Sprintf\<close>; the scripts are constants of the source. \<open>fm layout t\<close> is
  \<open>t.Format(layout)\<close>.
\<close>

section \<open>The frame of a page (html.go)\<close>

record nav_state =
  nv_email :: string
  nv_clusters :: "cluster list"
  nv_active :: string

definition clusterNav :: "nav_state \<Rightarrow> string" where
  "clusterNav n =
     (case nv_clusters n of
        [] \<Rightarrow> []
      | [c] \<Rightarrow>
          Sprintf ''<a class=\"%s\" href=\"/clusters/%s\" title=\"Cluster\">%s</a>''
            [if nv_active n = cl_id c then ''nav-cluster active'' else ''nav-cluster'',
             escape_string (cl_id c), escape_string (cl_name c)]
      | cs \<Rightarrow>
          ''<select class=\"nav-cluster-select\" aria-label=\"Cluster\" onchange=\"location.href=this.value\">''
          @ Sprintf ''<option value=\"/\"%s>All clusters</option>'' [if nv_active n = [] then '' selected'' else []]
          @ concat (map (\<lambda>c. Sprintf ''<option value=\"/clusters/%s\"%s>%s</option>''
              [escape_string (cl_id c), if cl_id c = nv_active n then '' selected'' else [],
               escape_string (cl_name c)]) cs)
          @ ''</select>'')"

definition overview_link :: "nav_state \<Rightarrow> string" where
  "overview_link n =
     (if length (nv_clusters n) > 1 then
        ''<a class=\"'' @ (if nv_active n = [] then ''nav-link active'' else ''nav-link'')
        @ ''\" href=\"/\">Overview</a>''
      else [])"

definition nav_right :: "nav_state \<Rightarrow> string" where
  "nav_right n =
     (if nv_email n \<noteq> [] then
        ''<div style=\"margin-left:auto;display:flex;align-items:center;gap:10px;\">''
        @ ''<span style=\"font-family:var(--font-mono);font-size:0.8rem;color:var(--muted);\">'' @ escape_string (nv_email n) @ ''</span>''
        @ ''<button hx-post=\"/auth/logout\" style=\"font-family:var(--font-mono);font-size:0.8rem;color:var(--muted);background:none;cursor:pointer;border:1px solid var(--border);padding:2px 10px;border-radius:4px;\">logout</button>''
        @ ''</div>''
      else [])"

definition html_head_open :: string where
  "html_head_open = ''<!DOCTYPE html>
<html lang=\"en\">
<head>
<meta charset=\"UTF-8\">
<meta name=\"viewport\" content=\"width=device-width, initial-scale=1.0\">
<title>KubeCron</title>
<link rel=\"preconnect\" href=\"https://fonts.googleapis.com\">
<link href=\"https://fonts.googleapis.com/css2?family=JetBrains+Mono:wght@400;600&family=Syne:wght@400;600;800&display=swap\" rel=\"stylesheet\">
<link rel=\"icon\" type=\"image/svg+xml\" href=\"/static/favicon.svg\">
<link rel=\"icon\" type=\"image/png\" sizes=\"32x32\" href=\"/static/favicon.png\">
<link rel=\"stylesheet\" href=\"/static/app.css\">
<script src=\"https://unpkg.com/htmx.org@2.0.4\" defer></script>
</head>
<body>
<nav>
  <a class=\"logo\" href=\"/\"><span style=\"font-family:var(--font-mono);\">[KubeCron]</span></a>
  ''"

definition html_head_close :: string where
  "html_head_close = (''
</nav>
<div id=\"toast\"></div>
<script>
function showToast(msg, ok) {
  const t = document.getElementById('toast');
  t.textContent = msg;
  t.style.borderColor = ok ? 'var(--accent)' : 'var(--red)';
  t.style.color       = ok ? 'var(--accent)' : 'var(--red)';
  t.classList.add('show');
  setTimeout(() => t.classList.remove('show'), 3000);
}
document.body.addEventListener('htmx:afterRequest', function(e) {
  if (!e.detail.successful) showToast('Error ' + e.detail.xhr.status, false);
});
document.addEventListener('htmx:configRequest', function(e) {
  var match = document.cookie.match(/(?:^|;'' @ [CHR 0x5C] @ ''s*)csrf_token=([^;]+)/);
  if (match) e.detail.headers['X-CSRF-Token'] = match[1];
});
</script>
'')"

definition htmlHead :: "nav_state \<Rightarrow> string" where
  "htmlHead n =
     html_head_open @ overview_link n @ ''
  '' @ clusterNav n
     @ ''
  '' @ nav_right n @ html_head_close"

definition htmlHeadSidebar :: "string \<Rightarrow> nav_state \<Rightarrow> string" where
  "htmlHeadSidebar sidebar n =
     htmlHead n @ ''<div class=\"page-layout\"><aside class=\"sidebar\">'' @ sidebar @ ''</aside><div class=\"page-main\">''"

definition htmlFoot :: string where "htmlFoot = ''</body></html>''"
definition htmlFootSidebar :: string where "htmlFootSidebar = ''</div></div>'' @ htmlFoot"

definition countdownSpan :: "(string \<Rightarrow> gotime \<Rightarrow> string) \<Rightarrow> gotime \<Rightarrow> string" where
  "countdownSpan fm t =
     Sprintf ''<span class=\"countdown\" data-ts=\"%d\">%s</span>'' [int_text (unix_sec t), fm ''02/01 15:04'' t]"

definition countdownJS :: string where
  "countdownJS = ''<script>
(function() {
  function update() {
    document.querySelectorAll('.countdown[data-ts]').forEach(function(el) {
      var diff = parseInt(el.dataset.ts) - Math.floor(Date.now() / 1000);
      if (diff <= 0) { el.textContent = 'now'; return; }
      var w = Math.floor(diff/604800), d = Math.floor((diff%604800)/86400);
      var h = Math.floor((diff%86400)/3600), m = Math.floor((diff%3600)/60), s = diff%60;
      if (w > 0)      el.textContent = d > 0 ? w+'w '+d+'j' : w+'w';
      else if (d > 0) el.textContent = d+'j '+h+'h';
      else if (h > 0) el.textContent = h+'h '+m+'m';
      else if (m > 0) el.textContent = m+'m '+s+'s';
      else            el.textContent = s+'s';
    });
  }
  update();
  setInterval(update, 1000);
})();
</script>''"

section \<open>Rows and buttons (html_components.go)\<close>

text \<open>\<open>sparklineSVG\<close> of html_chart.go.\<close>

definition spark_point :: "nat \<Rightarrow> int \<Rightarrow> nat \<times> int \<Rightarrow> string" where
  "spark_point n peak = (\<lambda>(i, v).
     Sprintf ''%.1f,%.1f''
       [fixed 1 (f_mul (f_div (of_nat i) (of_nat (max (n - 1) 1))) 60),
        fixed 1 (f_sub (f_sub 16 (f_mul (f_div (f_int v) (f_int peak)) 14)) 1)])"

definition sparklineSVG :: "int list \<Rightarrow> string" where
  "sparklineSVG ds =
     (if ds = [] then []
      else
        (let n = length ds; vs = rev ds;
             m = fold (\<lambda>v m. if v > m then v else m) vs 0;
             peak = (if m = 0 then 1 else m)
         in Sprintf ''<svg width=\"%d\" height=\"%d\" viewBox=\"0 0 %d %d\" style=\"vertical-align:middle;margin-left:6px;\">'' [''60'', ''16'', ''60'', ''16'']
            @ Sprintf ''<polyline points=\"%s\" fill=\"none\" stroke=\"var(--accent)\" stroke-width=\"1.5\" stroke-linejoin=\"round\"/>''
                [join_with '' '' (map (spark_point n peak) (zip [0..<n] vs))]
            @ ''</svg>''))"

record cronjob_row =
  rw_cluster :: string
  rw_cronjob :: cronjob
  rw_next :: gotime
  rw_last :: "job_run option"
  rw_stats :: "run_stats option"
  rw_durations :: "int list"
  rw_missed :: bool
  rw_schedule_error :: bool
  rw_concurrent :: bool

definition no_value :: string where
  "no_value = (''<span style=\"color:var(--muted);\">'' @ em_dash @ ''</span>'')"

definition last_status_cell :: "cronjob_row \<Rightarrow> string" where
  "last_status_cell d =
     (case rw_last d of None \<Rightarrow> no_value | Some r \<Rightarrow> statusBadge (jr_status r))
     @ (if rw_concurrent d then ('' <span class=\"badge\" style=\"border-color:rgba(236,201,75,0.4);color:var(--yellow);\">'' @ warning_sign @ '' concurrent</span>'') else [])"

definition stats_cell :: "cronjob_row \<Rightarrow> string" where
  "stats_cell d =
     (case rw_stats d of
        None \<Rightarrow> no_value
      | Some s \<Rightarrow>
          (if st_total s > 0 then
             Sprintf ''<span style=\"font-family:var(--font-mono);font-size:0.8rem;color:%s;\">%d/%d</span>''
               [if st_succeeded s = 0 then ''var(--red)''
                else if st_failed s > 0 then ''var(--yellow)'' else ''var(--green)'',
                int_text (st_succeeded s), int_text (st_total s)]
           else no_value))
     @ sparklineSVG (rw_durations d)"

definition resources_cell :: "cronjob \<Rightarrow> string" where
  "resources_cell c =
     (if cj_cpu_request c = None \<and> cj_mem_request c = None then no_value
      else
        (case cj_cpu_request c of None \<Rightarrow> []
         | Some q \<Rightarrow> Sprintf ''<span class=\"badge\" style=\"margin-right:3px;\">cpu:%s</span>'' [escape_string q])
        @ (case cj_mem_request c of None \<Rightarrow> []
           | Some q \<Rightarrow> Sprintf ''<span class=\"badge\">mem:%s</span>'' [escape_string q]))"

definition name_tags :: "cronjob_row \<Rightarrow> string" where
  "name_tags d =
     (if cj_suspended (rw_cronjob d) then '' <span class=\"badge badge-suspended\">paused</span>'' else [])
     @ (if rw_missed d then '' <span class=\"badge\" style=\"border-color:rgba(252,129,129,0.4);color:var(--red);\">missed</span>'' else [])"

definition schedule_cell :: "cronjob \<Rightarrow> string" where
  "schedule_cell c =
     Sprintf ''<code style=\"font-size:0.8rem;color:var(--muted);\">%s</code>'' [escape_string (cj_schedule c)]
     @ (if TZ c \<noteq> [] then
          Sprintf ''<br><span style=\"font-family:var(--font-mono);font-size:0.7rem;color:var(--muted);opacity:0.75;\" title=\"CronJob spec.timeZone\">%s</span>'' [escape_string (TZ c)]
        else [])"

definition next_run_cell :: "(string \<Rightarrow> gotime \<Rightarrow> string) \<Rightarrow> cronjob_row \<Rightarrow> string" where
  "next_run_cell fm d =
     (if rw_schedule_error d then ''<span class=\"badge\" style=\"border-color:rgba(252,129,129,0.4);color:var(--red);\" title=\"Unparseable schedule or unknown time zone\">unresolved</span>''
      else countdownSpan fm (rw_next d))"

definition suspend_template :: string where
  "suspend_template = (''<button class=\"btn ghost\" style=\"font-size:0.75rem;\"
			  hx-post=\"/api/clusters/%s/cronjobs/%s/%s/suspend\"
			  hx-confirm=\"Suspend %s?\"
			  hx-swap=\"none\"
			  hx-on::after-request=\"if(event.detail.successful){showToast('Suspended',true);setTimeout(()=>location.reload(),800);}\">'' @ pause_sign @ ''</button>'')"

definition resume_template :: string where
  "resume_template = (''<button class=\"btn\" style=\"font-size:0.75rem;\"
			  hx-post=\"/api/clusters/%s/cronjobs/%s/%s/resume\"
			  hx-confirm=\"Resume %s?\"
			  hx-swap=\"none\"
			  hx-on::after-request=\"if(event.detail.successful){showToast('Resumed',true);setTimeout(()=>location.reload(),800);}\">'' @ play_sign @ '' Resume</button>'')"

definition trigger_template :: string where
  "trigger_template = (''<button class=\"btn\" style=\"font-size:0.75rem;margin-left:4px;\"
		  hx-post=\"/api/clusters/%s/cronjobs/%s/%s/trigger\"
		  hx-confirm=\"Trigger a manual run of %s?\"
		  hx-swap=\"none\"
		  hx-on::after-request=\"if(event.detail.successful){var d=JSON.parse(event.detail.xhr.responseText);window.location='/clusters/%s/cronjobs/%s/%s/runs/'+d.run_id;}else{showToast('Trigger failed',false);}\">'' @ play_sign @ '' Run</button>'')"

definition actionButtons :: "string \<Rightarrow> string \<Rightarrow> string \<Rightarrow> bool \<Rightarrow> string" where
  "actionButtons cl ns nm suspended =
     (let c = escape_string cl; s = escape_string ns; m = escape_string nm in
      Sprintf (if suspended then resume_template else suspend_template) [c, s, m, m]
      @ Sprintf trigger_template [c, s, m, m, c, s, m])"

definition row_template :: string where
  "row_template = ''
<tr style=\"cursor:pointer;\" onclick=\"window.location='/clusters/%s/cronjobs/%s/%s/runs'\">
  <td><span style=\"font-family:var(--font-mono);color:%s;\">%s</span>%s</td>
  <td>%s</td>
  <td>%s</td>
  <td>%s</td>
  <td>%s</td>
  <td>%s</td>
  <td style=\"white-space:nowrap;\" onclick=\"event.stopPropagation()\">%s</td>
</tr>''"

definition renderCronJobRow :: "(string \<Rightarrow> gotime \<Rightarrow> string) \<Rightarrow> cronjob_row \<Rightarrow> string" where
  "renderCronJobRow fm d =
     (let c = rw_cronjob d in
      Sprintf row_template
        [escape_string (rw_cluster d), escape_string (cj_ns c), escape_string (cj_name c),
         if cj_suspended c then ''var(--yellow)'' else ''var(--accent)'',
         escape_string (cj_name c), name_tags d, schedule_cell c, next_run_cell fm d,
         last_status_cell d, stats_cell d, resources_cell c,
         actionButtons (rw_cluster d) (cj_ns c) (cj_name c) (cj_suspended c)])"

definition cronJobTableOpen :: string where
  "cronJobTableOpen = ''<div class=\"card\" style=\"padding:0;overflow:hidden;\"><table>
<thead><tr>
  <th>Name</th><th>Schedule</th><th>Next run</th>
  <th>Last status</th><th>7d</th><th>Resources</th><th>Actions</th>
</tr></thead>''"

definition cronJobTableBodyPoll :: "string \<Rightarrow> string" where
  "cronJobTableBodyPoll url = Sprintf ''<tbody hx-get=\"%s\" hx-trigger=\"every 10s\" hx-swap=\"innerHTML\">'' [escape_string url]"

definition run_row_template :: string where
  "run_row_template = (''<tr style=\"cursor:pointer;\" data-day=\"%s\" onclick=\"window.location='/clusters/%s/cronjobs/%s/%s/runs/%s'\">
  <td><code style=\"color:var(--accent);\">%s'' @ ellipsis @ ''</code></td>
  <td>%s</td>
  <td>%s</td>
  <td style=\"font-family:var(--font-mono);font-size:0.8rem;color:var(--muted);\">%s</td>
  <td>%s</td>
  <td>%s</td>
  <td style=\"font-family:var(--font-mono);font-size:0.8rem;color:var(--muted);\">%s</td>
</tr>'')"

definition duration_cell :: "job_run \<Rightarrow> string" where
  "duration_cell r =
     (case jr_duration r of None \<Rightarrow> no_value
      | Some d \<Rightarrow> Sprintf ''<span style=\"font-family:var(--font-mono);\">%s</span>'' [fmtDuration d])"

definition exit_cell :: "job_run \<Rightarrow> string" where
  "exit_cell r =
     (case jr_exit r of None \<Rightarrow> no_value
      | Some n \<Rightarrow>
          Sprintf ''<span style=\"font-family:var(--font-mono);color:%s;\">%d</span>''
            [if n \<noteq> 0 then ''var(--red)'' else ''var(--accent)'', int_text n])"

definition trigger_cell :: "job_run \<Rightarrow> string" where
  "trigger_cell r =
     (if jr_trigger r = ''manual''
      then ''<span class=\"badge\" style=\"border:1px solid var(--accent);color:var(--accent);\">manual</span>''
      else ''<span class=\"badge\" style=\"border:1px solid var(--border);color:var(--muted);\">scheduled</span>'')"

definition renderRunRow ::
    "(string \<Rightarrow> gotime \<Rightarrow> string) \<Rightarrow> job_run \<Rightarrow> string \<Rightarrow> string \<Rightarrow> string \<Rightarrow> string" where
  "renderRunRow fm r cl ns nm =
     Sprintf run_row_template
       [escape_string (fm ''2006-01-02'' (jr_started r)),
        escape_string cl, escape_string ns, escape_string nm, escape_string (jr_id r),
        escape_string (take 8 (jr_id r)), trigger_cell r, statusBadge (jr_status r),
        escape_string (fm ''2006-01-02 15:04:05'' (jr_started r)),
        duration_cell r, exit_cell r, escape_string (derefStr (jr_node r))]"

definition load_more_url :: "string \<Rightarrow> string \<Rightarrow> string \<Rightarrow> string \<Rightarrow> string \<Rightarrow> string" where
  "load_more_url cl ns nm cursor day =
     ''/clusters/'' @ PathEscape cl @ ''/cronjobs/'' @ PathEscape ns @ ''/'' @ PathEscape nm
     @ ''/runs/more?before='' @ QueryEscape cursor
     @ (if day \<noteq> [] then ''&day='' @ QueryEscape day else [])"

definition runLoadMoreBtn :: "string \<Rightarrow> string \<Rightarrow> string \<Rightarrow> string \<Rightarrow> string \<Rightarrow> string" where
  "runLoadMoreBtn cl ns nm cursor day =
     Sprintf ''<button class=\"btn\" hx-get=\"%s\" hx-target=\"#runs-tbody\" hx-swap=\"beforeend\">Load more</button>''
       [escape_string (load_more_url cl ns nm cursor day)]"

definition runLoadMoreWrap :: "string \<Rightarrow> string \<Rightarrow> string \<Rightarrow> string \<Rightarrow> string \<Rightarrow> string" where
  "runLoadMoreWrap cl ns nm cursor day =
     ''<div id=\"load-more-wrap\" style=\"text-align:center;padding:0.75rem 0;\">'' @ runLoadMoreBtn cl ns nm cursor day @ ''</div>''"

definition runLoadMoreOOB :: "string \<Rightarrow> string \<Rightarrow> string \<Rightarrow> string \<Rightarrow> string \<Rightarrow> string" where
  "runLoadMoreOOB cl ns nm cursor day =
     ''<div id=\"load-more-wrap\" hx-swap-oob=\"innerHTML\">''
     @ (if cursor \<noteq> [] then runLoadMoreBtn cl ns nm cursor day else []) @ ''</div>''"

section \<open>The overview (html_overview.go)\<close>

definition sectionHeading :: "string \<Rightarrow> string" where
  "sectionHeading t = Sprintf ''<h2 class=\"section-heading\">%s</h2>'' [escape_string t]"

definition tone_color :: "string \<Rightarrow> string" where
  "tone_color tone =
     (if tone = ''green'' then ''var(--green)'' else if tone = ''red'' then ''var(--red)''
      else if tone = ''yellow'' then ''var(--yellow)'' else if tone = ''running'' then ''var(--running)''
      else ''var(--text)'')"

definition statTile :: "string \<Rightarrow> string \<Rightarrow> string \<Rightarrow> string \<Rightarrow> string" where
  "statTile label val sub tone =
     Sprintf ''<div class=\"stat-tile\">
  <div class=\"stat-tile-label\">%s</div>
  <div class=\"stat-tile-value\" style=\"color:%s;\">%s</div>
  %s
</div>''
       [escape_string label, tone_color tone, escape_string val,
        if sub \<noteq> [] then Sprintf ''<div class=\"stat-tile-sub\">%s</div>'' [escape_string sub] else []]"

definition rangeSwitchFor :: "string \<Rightarrow> int \<Rightarrow> string" where
  "rangeSwitchFor base active =
     ''<div class=\"range-switch\">''
     @ concat (map (\<lambda>w. Sprintf ''<a class=\"%s\" href=\"%s?days=%d\">%s</a>''
         [if w = active then ''range-opt active'' else ''range-opt'', base, int_text w, overviewWindowLabel w])
         overviewWindows)
     @ ''</div>''"

definition top_row_template :: string where
  "top_row_template = ''<div class=\"top-row\">
  <div class=\"top-row-head\">
    <a class=\"top-row-name\" href=\"/clusters/%s/cronjobs/%s/%s/runs\" title=\"%s\">%s</a>
    <span class=\"top-row-value\">%s</span>
  </div>
  <div class=\"top-row-meta\">
    <span class=\"top-row-loc\">%s / %s</span>
    <span class=\"top-row-runs\">%d run(s)%s</span>
  </div>
  <div class=\"top-bar\"><div class=\"top-bar-fill\" style=\"width:%.1f%%;\"></div></div>
</div>''"

definition bar_width :: "int \<Rightarrow> int \<Rightarrow> rat" where
  "bar_width v peak = (let pct = f_mul (f_div (f_int v) (f_int peak)) 100 in if pct < 2 then 2 else pct)"

definition top_row :: "(int \<Rightarrow> string) \<Rightarrow> int \<Rightarrow> cronjob_rank \<Rightarrow> string" where
  "top_row fmtValue peak r =
     Sprintf top_row_template
       [escape_string (rk_cluster r), escape_string (rk_ns r), escape_string (rk_name r),
        escape_string (rk_cronjob r), escape_string (rk_name r),
        escape_string (fmtValue (rk_value r)),
        escape_string (rk_cluster r), escape_string (rk_ns r),
        int_text (rk_runs r),
        if rk_failed r > 0 then
          Sprintf ''<span class=\"badge badge-failed\" style=\"margin-left:6px;\">%d fail</span>'' [int_text (rk_failed r)]
        else [],
        fixed 1 (bar_width (rk_value r) peak)]"

definition topList :: "string \<Rightarrow> string \<Rightarrow> cronjob_rank list \<Rightarrow> (int \<Rightarrow> string) \<Rightarrow> string" where
  "topList title hint ranks fmtValue =
     ''<div class=\"card top-list\">''
     @ Sprintf ''<div class=\"top-list-head\"><span class=\"top-list-title\">%s</span><span class=\"top-list-hint\">%s</span></div>''
         [escape_string title, escape_string hint]
     @ (case ranks of
          [] \<Rightarrow> ''<div class=\"top-list-empty\">no data in this window</div></div>''
        | r # _ \<Rightarrow>
            ''<div class=\"top-list-body\">''
            @ concat (map (top_row fmtValue (if rk_value r \<le> 0 then 1 else rk_value r)) ranks)
            @ ''</div></div>'')"

section \<open>The log terminal (html_log.go)\<close>

definition logSearchBar :: "string \<Rightarrow> string" where
  "logSearchBar run = Sprintf (''<div style=\"display:flex;align-items:center;gap:10px;margin-bottom:8px;\">
  <input id=\"log-search\" type=\"text\" placeholder=\"Filter by regex'' @ ellipsis @ ''\"
    style=\"flex:1;background:var(--surface2);border:1px solid var(--border);border-radius:6px;
           padding:5px 10px;color:var(--text);font-family:var(--font-mono);font-size:12px;outline:none;\">
  <span id=\"log-count\" style=\"font-family:var(--font-mono);font-size:11px;color:var(--muted);white-space:nowrap;\"></span>
  <a id=\"log-dl\" href=\"/api/runs/%s/logs.txt\" download
    style=\"font-family:var(--font-mono);font-size:11px;color:var(--accent);white-space:nowrap;\">&#11015; .log</a>
</div>'') [escape_string run]"

definition logSearchJS :: string where
  "logSearchJS = (''<script>
(function(){
  var LEVELS = [
    {re:/FATAL|CRITICAL/i, cls:'log-fatal'},
    {re:/'' @ [CHR 0x5C] @ ''bERROR'' @ [CHR 0x5C] @ ''b|'' @ [CHR 0x5C] @ ''bERR'' @ [CHR 0x5C] @ ''b/i, cls:'log-error'},
    {re:/WARN(?:ING)?/i, cls:'log-warn'},
    {re:/'' @ [CHR 0x5C] @ ''bINFO'' @ [CHR 0x5C] @ ''b/i, cls:'log-info'},
    {re:/'' @ [CHR 0x5C] @ ''bDEBUG'' @ [CHR 0x5C] @ ''b/i, cls:'log-debug'}
  ];
  function levelClass(raw) {
    for (var i=0; i<LEVELS.length; i++) {
      if (LEVELS[i].re.test(raw)) return LEVELS[i].cls;
    }
    return '' @ [CHR 0x27] @ [CHR 0x27] @ '';
  }
  function renderLine(el, re) {
    var raw = el.dataset.raw || el.textContent;
    var lvl = levelClass(raw);
    if (re) {
      try {
        if (!re.test(raw)) { el.style.display='none'; return; }
        el.style.display='' @ [CHR 0x27] @ [CHR 0x27] @ '';
        el.className = 'll' + (lvl ? ' '+lvl : '' @ [CHR 0x27] @ [CHR 0x27] @ '');
        el.innerHTML = raw.replace(re, function(m){ return '<mark class=\"log-hl\">'+m+'</mark>'; });
      } catch(e) { el.style.display='' @ [CHR 0x27] @ [CHR 0x27] @ ''; el.className='ll'+(lvl?' '+lvl:'' @ [CHR 0x27] @ [CHR 0x27] @ ''); el.textContent=raw; }
    } else {
      el.style.display='' @ [CHR 0x27] @ [CHR 0x27] @ '';
      el.className = 'll' + (lvl ? ' '+lvl : '' @ [CHR 0x27] @ [CHR 0x27] @ '');
      el.textContent = raw;
    }
  }
  function applyFilter() {
    var pat = document.getElementById('log-search') ? document.getElementById('log-search').value : '' @ [CHR 0x27] @ [CHR 0x27] @ '';
    var re = null;
    if (pat) { try { re = new RegExp(pat,'gi'); } catch(e){} }
    var els = document.querySelectorAll('#log-term .ll');
    var shown=0;
    els.forEach(function(el){ renderLine(el,re); if(el.style.display!=='none') shown++; });
    var cnt = document.getElementById('log-count');
    if (cnt) cnt.textContent = pat ? shown+' / '+els.length+' lines' : els.length+' lines';
  }
  var srch = document.getElementById('log-search');
  if (srch) srch.addEventListener('input', applyFilter);
  document.querySelectorAll('#log-term .ll').forEach(function(el){ renderLine(el,null); });
  applyFilter();
  var term = document.getElementById('log-term');
  if (term) {
    var obs = new MutationObserver(function(mutations){
      var pat = srch ? srch.value : '' @ [CHR 0x27] @ [CHR 0x27] @ '';
      var re = null;
      if (pat) { try { re = new RegExp(pat,'gi'); } catch(e){} }
      mutations.forEach(function(m){
        m.addedNodes.forEach(function(node){
          if (node.classList && node.classList.contains('ll')) {
            renderLine(node, re);
          }
        });
      });
      if (!pat) term.scrollTop = term.scrollHeight;
      var els = document.querySelectorAll('#log-term .ll');
      var shown=0;
      els.forEach(function(el){ if(el.style.display!=='none') shown++; });
      var cnt = document.getElementById('log-count');
      if (cnt) cnt.textContent = pat ? shown+' / '+els.length+' lines' : els.length+' lines';
    });
    obs.observe(term, {childList:true});
  }
})();
</script>'')"

end
