(* ===== verification/Heatmap.thy ===== *)
theory Heatmap
  imports Html
begin

text \<open>
  The calendar heatmap of src/internal/api/html_chart.go, with the part of the \<open>time\<close> package
  it uses: days are counted from 1 January 1970, a UTC midnight being a day number.
\<close>

section \<open>Calendar\<close>

text \<open>The civil date of a day number in the proleptic Gregorian calendar.\<close>

definition civil_date :: "int \<Rightarrow> int \<times> int \<times> int" where
  "civil_date z =
     (let s = z + 719468; era = s div 146097; doe = s mod 146097;
          yoe = (doe - doe div 1460 + doe div 36524 - doe div 146096) div 365;
          doy = doe - (365 * yoe + yoe div 4 - yoe div 100);
          mp = (5 * doy + 2) div 153;
          m = (if mp < 10 then mp + 3 else mp - 9)
      in (yoe + era * 400 + (if m \<le> 2 then 1 else 0), m, doy - (153 * mp + 2) div 5 + 1))"

definition padded :: "nat \<Rightarrow> int \<Rightarrow> string" where
  "padded n i = (let t = int_text i in replicate (n - length t) (CHR ''0'') @ t)"

text \<open>The layouts \<open>2006-01-02\<close> and \<open>Jan\<close>.\<close>

definition day_text :: "int \<Rightarrow> string" where
  "day_text d = (case civil_date d of (y, m, k) \<Rightarrow> padded 4 y @ ''-'' @ padded 2 m @ ''-'' @ padded 2 k)"

definition month_text :: "int \<Rightarrow> string" where
  "month_text d =
     (case civil_date d of (y, m, k) \<Rightarrow>
        [''Jan'', ''Feb'', ''Mar'', ''Apr'', ''May'', ''Jun'', ''Jul'', ''Aug'', ''Sep'', ''Oct'', ''Nov'', ''Dec'']
        ! nat (m - 1))"

text \<open>Sunday is 0; the grid's rows start on Monday.\<close>

definition weekday :: "int \<Rightarrow> int" where "weekday d = (d + 4) mod 7"
definition day_row :: "int \<Rightarrow> int" where "day_row w = (w + 6) mod 7"

function back_to_monday :: "int \<Rightarrow> int" where
  "back_to_monday d = (if weekday d = 1 then d else back_to_monday (d - 1))"
  by auto

lemma day_row_weekday: "day_row (weekday d) = (d + 3) mod 7"
proof -
  have "day_row (weekday d) = (d + 4 + 6) mod 7" by (simp only: day_row_def weekday_def mod_add_left_eq)
  also have "d + 4 + 6 = d + 3 + 7" by simp
  finally show ?thesis by (simp only: mod_add_self2)
qed

lemma monday_iff: "weekday d = 1 \<longleftrightarrow> (d + 3) mod 7 = 0"
  unfolding weekday_def by presburger

lemma day_row_pred: "weekday d \<noteq> 1 \<Longrightarrow> day_row (weekday d) = day_row (weekday (d - 1)) + 1"
  unfolding day_row_weekday monday_iff
  using mod_pos_pos_trivial[of "(d + 3) mod 7 - 1" 7] mod_diff_left_eq[of "d + 3" 7 1]
  by (smt (verit) pos_mod_bound pos_mod_sign)

lemma day_row_range: "0 \<le> day_row w" "day_row w < 7"
  by (simp_all add: day_row_def)

termination back_to_monday
  by (relation "measure (\<lambda>d. nat (day_row (weekday d)))")
    (use day_row_pred day_row_range in \<open>simp_all add: nat_less_eq_zless\<close>)

declare back_to_monday.simps [simp del]

lemma back_to_monday_eq: "back_to_monday d = d - day_row (weekday d)"
proof (induction d rule: back_to_monday.induct)
  case (1 d)
  show ?case
  proof (cases "weekday d = 1")
    case True
    then show ?thesis by (simp add: back_to_monday.simps day_row_def)
  next
    case False
    then show ?thesis using 1 day_row_pred[of d] by (simp add: back_to_monday.simps[of d])
  qed
qed

section \<open>The grid\<close>

definition cell_step :: int where "cell_step = 15"
definition label_width :: int where "label_width = 26"
definition month_height :: int where "month_height = 14"

record heat_frame =
  hf_start :: int
  hf_end :: int
  hf_grid :: int
  hf_weeks :: int

definition heat_frame_of :: "gotime \<Rightarrow> int \<Rightarrow> heat_frame" where
  "heat_frame_of now days =
     (let e = unix_sec now div 86400; s = e - (days - 1); g = back_to_monday s in
      \<lparr>hf_start = s, hf_end = e, hf_grid = g, hf_weeks = (e - g + 1 + 6) div 7\<rparr>)"

text \<open>What a cell shows: its colour, its tooltip, and whether it can be clicked.\<close>

definition heat_look :: "(string \<rightharpoonup> daily_stat) \<Rightarrow> heat_frame \<Rightarrow> int \<Rightarrow> string \<times> string \<times> bool" where
  "heat_look by_day f day =
     (let txt = day_text day in
      if day < hf_start f then (''#1a1d27'', txt, False)
      else
        (case by_day txt of
           None \<Rightarrow> (''var(--border)'', txt @ '': no runs'', False)
         | Some s \<Rightarrow>
             (if dy_running s > 0 then
                (''#4299e1'',
                 Sprintf ''%s: %d running, %d/%d ok''
                   [txt, int_text (dy_running s), int_text (dy_succeeded s), int_text (dy_total s - dy_running s)],
                 True)
              else
                (if dy_succeeded s = dy_total s then ''var(--green)''
                 else if dy_succeeded s = 0 then ''var(--red)'' else ''var(--yellow)'',
                 Sprintf ''%s: %d/%d ok'' [txt, int_text (dy_succeeded s), int_text (dy_total s)],
                 True))))"

definition heat_cell :: "(string \<rightharpoonup> daily_stat) \<Rightarrow> heat_frame \<Rightarrow> int \<Rightarrow> string" where
  "heat_cell by_day f d =
     (let day = hf_grid f + d; (color, tooltip, clickable) = heat_look by_day f day in
      Sprintf ''<rect x=\"%d\" y=\"%d\" width=\"%d\" height=\"%d\" rx=\"2\" fill=\"%s\" opacity=\"0.85\"%s%s><title>%s</title></rect>''
        [int_text (label_width + d div 7 * cell_step),
         int_text (month_height + day_row (weekday day) * cell_step), ''12'', ''12'', color,
         if clickable then '' style=\"cursor:pointer;\"'' else [],
         if clickable then Sprintf '' onclick=\"location.href=location.pathname+'?day=%s'\"'' [day_text day] else [],
         escape_string tooltip])"

fun heat_months :: "int \<Rightarrow> string \<Rightarrow> int list \<Rightarrow> string" where
  "heat_months grid seen [] = []"
| "heat_months grid seen (col # cols) =
     (let m = month_text (grid + col * 7) in
      if m \<noteq> seen then
        Sprintf ''<text x=\"%d\" y=\"%d\" font-size=\"9\" fill=\"#718096\" font-family=\"monospace\">%s</text>''
          [int_text (label_width + col * cell_step), int_text (month_height - 2), m]
        @ heat_months grid m cols
      else heat_months grid seen cols)"

definition heat_label :: "int \<times> string \<Rightarrow> string" where
  "heat_label l =
     Sprintf ''<text x=\"0\" y=\"%d\" font-size=\"9\" fill=\"#718096\" font-family=\"monospace\">%s</text>''
       [int_text (month_height + fst l * cell_step + 12 - 1), snd l]"

definition heat_legend :: "string \<times> string \<Rightarrow> string" where
  "heat_legend l =
     Sprintf ''<span style=\"display:flex;align-items:center;gap:4px;\"><svg width=\"10\" height=\"10\"><rect width=\"10\" height=\"10\" rx=\"2\" fill=\"%s\" opacity=\"0.85\"/></svg>%s</span>'' [fst l, snd l]"

text \<open>
  The weekday labels are ranged over in the order of a Go map, which is not determined: \<open>labels\<close>
  is that order, some arrangement of \<open>weekday_labels\<close>.
\<close>

definition weekday_labels :: "(int \<times> string) list" where
  "weekday_labels = [(0, ''Mo''), (2, ''We''), (4, ''Fr''), (6, ''Su'')]"

definition heatmapHTML :: "(int \<times> string) list \<Rightarrow> gotime \<Rightarrow> daily_stat list \<Rightarrow> int \<Rightarrow> string" where
  "heatmapHTML labels now stats days =
     (let by_day = map_of (rev (map (\<lambda>s. (dy_day s, s)) stats));
          f = heat_frame_of now days;
          w = int_text (label_width + hf_weeks f * cell_step);
          h = int_text (month_height + 7 * cell_step + 2)
      in ''<div style=\"overflow-x:auto;-webkit-overflow-scrolling:touch;\">''
         @ Sprintf ''<svg width=\"%d\" height=\"%d\" viewBox=\"0 0 %d %d\" style=\"display:block;min-width:%dpx;\">'' [w, h, w, h, w]
         @ heat_months (hf_grid f) [] [0..hf_weeks f - 1]
         @ concat (map heat_label labels)
         @ concat (map (heat_cell by_day f) [0..hf_end f - hf_grid f])
         @ ''</svg>''
         @ ''<div style=\"display:flex;gap:12px;margin-top:8px;font-family:monospace;font-size:11px;color:#718096;flex-wrap:wrap;\">''
         @ concat (map heat_legend
             [(''var(--green)'', ''all ok''), (''var(--yellow)'', ''partial''), (''var(--red)'', ''all failed''),
              (''#4299e1'', ''running''), (''var(--border)'', ''no runs'')])
         @ ''</div></div>'')"

section \<open>The cells\<close>

text \<open>
  The grid starts on a Monday at most six days before the first day of the window, so the
  drawn days are those of the window behind at most six blank ones; a day's cell lies in the
  row of its weekday and in one of the columns the picture is wide enough for.
\<close>

lemma heat_grid:
  fixes now :: gotime and days d :: int
  defines "f \<equiv> heat_frame_of now days"
  shows "map (\<lambda>d. hf_grid f + d) [0..hf_end f - hf_grid f] = [hf_grid f..hf_end f]"
    and "weekday (hf_grid f) = 1" and "hf_grid f \<le> hf_start f" and "hf_start f - hf_grid f < 7"
    and "0 \<le> d \<Longrightarrow> d \<le> hf_end f - hf_grid f \<Longrightarrow> d div 7 < hf_weeks f"
    and "day_row (weekday (hf_grid f + d)) = d mod 7"
proof -
  have "map (\<lambda>d. g + d) [a..b] = [g + a..g + b]" for g a b :: int
    by (induction a b rule: upto.induct) (simp add: upto.simps algebra_simps)
  from this[of "hf_grid f" 0 "hf_end f - hf_grid f"]
  show "map (\<lambda>d. hf_grid f + d) [0..hf_end f - hf_grid f] = [hf_grid f..hf_end f]" by simp
  have g: "hf_grid f = hf_start f - day_row (weekday (hf_start f))"
    by (simp add: f_def heat_frame_of_def Let_def back_to_monday_eq)
  have "hf_grid f + 3 = 7 * ((hf_start f + 3) div 7)"
    using minus_mod_eq_mult_div[of "hf_start f + 3" 7] by (simp add: g day_row_weekday)
  then show "weekday (hf_grid f) = 1" "day_row (weekday (hf_grid f + d)) = d mod 7"
    by (simp_all add: day_row_weekday monday_iff) (simp add: algebra_simps)
  show "hf_grid f \<le> hf_start f" "hf_start f - hf_grid f < 7"
    using g day_row_range[of "weekday (hf_start f)"] by auto
  assume "0 \<le> d" "d \<le> hf_end f - hf_grid f"
  moreover have "hf_weeks f = (hf_end f - hf_grid f + 1 + 6) div 7"
    by (simp add: f_def heat_frame_of_def Let_def)
  ultimately show "d div 7 < hf_weeks f" by (auto simp: div_less_iff_less_mult)
qed

text \<open>Three dates around a leap day.\<close>

lemma calendar_examples:
  "day_text 0 = ''1970-01-01''" "day_text 19781 = ''2024-02-28''" "day_text 19782 = ''2024-02-29''"
  "day_text 19783 = ''2024-03-01''" "month_text 20453 = ''Dec''" "weekday 20454 = 4"
  by code_simp+

end
