(* ===== verification/Pages.thy ===== *)
theory Pages
  imports Api Heatmap
begin

text \<open>
  The HTML pages of src/internal/api/handlers_cluster.go and handlers_runs.go: overview,
  cluster, namespace, run list and run, with the fragments HTMX polls for. A page is the list
  of strings the handler writes, one per call.
\<close>

definition write_page :: "string list \<Rightarrow> 'a exchange \<Rightarrow> 'a exchange" where
  "write_page parts x = fold write_body parts (set_header ''Content-Type'' ''text/html; charset=utf-8'' x)"

text \<open>The request state a page needs besides the store: see \<open>api_env\<close>.\<close>

definition nav :: "db \<Rightarrow> request \<Rightarrow> string \<Rightarrow> nav_state" where
  "nav db r active =
     \<lparr>nv_email = rq_email r,
      nv_clusters = (case ListClusters db of Inl _ \<Rightarrow> [] | Inr cs \<Rightarrow> cs), nv_active = active\<rparr>"

section \<open>CronJob rows\<close>

definition buildCronJobRow ::
    "('s, 'l) api_env \<Rightarrow> string \<Rightarrow> cronjob \<Rightarrow> cj_summary option \<Rightarrow> (string \<Rightarrow> int option) \<Rightarrow> gotime
     \<Rightarrow> cronjob_row" where
  "buildCronJobRow ev cl c s running now =
     (let last' = map_option sm_last s;
          next' = NextRun (ev_cron ev) (cj_schedule c) (TZ c) now in
      \<lparr>rw_cluster = cl, rw_cronjob = c,
       rw_next = (case next' of Inl _ \<Rightarrow> zero_time | Inr t \<Rightarrow> t),
       rw_last = last', rw_stats = map_option sm_stats s,
       rw_durations = (case s of None \<Rightarrow> [] | Some v \<Rightarrow> sm_durations v),
       rw_missed = IsMissed (ev_cron ev) (cj_schedule c) (TZ c) (cj_suspended c) (lastRunForSchedule last') now,
       rw_schedule_error = (case next' of Inl _ \<Rightarrow> True | Inr _ \<Rightarrow> False),
       rw_concurrent = ((case running (cj_id c) of None \<Rightarrow> 0 | Some n \<Rightarrow> n) > 1)\<rparr>)"

text \<open>\<open>cronJobRowInputs\<close>: the first error ends it.\<close>

definition cronJobRowInputs ::
    "('s, 'l) api_env \<Rightarrow> db \<Rightarrow> string
     \<Rightarrow> (cronjob list \<times> (string \<Rightarrow> cj_summary option) \<times> (string \<Rightarrow> int option)) result" where
  "cronJobRowInputs ev db cl =
     (case ListCronJobs db cl of
        Inl e \<Rightarrow> Inl e
      | Inr cjs \<Rightarrow>
          (case GetCronJobSummaries (ev_tx ev) (ev_dn ev) db cl sparklineRuns of
             Inl e \<Rightarrow> Inl e
           | Inr smap \<Rightarrow>
               (case CountRunningRuns db of
                  Inl e \<Rightarrow> Inl e
                | Inr running \<Rightarrow> Inr (cjs, smap, running))))"

fun bump_ns :: "string \<Rightarrow> (string \<times> nat) list \<Rightarrow> (string \<times> nat) list" where
  "bump_ns n [] = [(n, 1)]"
| "bump_ns n ((m, k) # es) = (if m = n then (m, k + 1) # es else (m, k) # bump_ns n es)"

definition buildNsSidebar :: "string \<Rightarrow> cronjob list \<Rightarrow> string \<Rightarrow> string" where
  "buildNsSidebar cl cjs active =
     (let entries = fold (\<lambda>c. bump_ns (cj_ns c)) cjs [] in
      ''<div class=\"sidebar-title\">Namespaces</div>'' @ ''<ul class=\"ns-list\" id=\"ns-nav\">''
      @ concat (map (\<lambda>(n, k).
          Sprintf ''<li><a class=\"ns-link%s\" href=\"/clusters/%s/cronjobs/%s\" data-ns=\"ns-%s\"><span class=\"ns-link-name\">%s</span><span class=\"ns-link-count\">%d</span></a></li>''
            [if n = active then '' active'' else [], escape_string cl, escape_string n, escape_string n,
             escape_string n, int_text (int k)]) entries)
      @ ''</ul>''
      @ (if cjs \<noteq> [] then
           Sprintf ''<div class=\"sidebar-stats\"><span>%d cron(s)</span><span>%d ns</span></div>''
             [int_text (int (length cjs)), int_text (int (length entries))]
         else []))"

section \<open>The overview block\<close>

definition topListSize :: int where "topListSize = 5"

text \<open>\<open>FleetStats.SuccessRate\<close> in floating point.\<close>

definition success_rate :: "fleet_stats \<Rightarrow> rat" where
  "success_rate f =
     (let finished = fs_succeeded f + fs_failed f in
      if finished = 0 then 0 else f_mul (f_div (f_int (fs_succeeded f)) (f_int finished)) 100)"

definition rate_tone :: "fleet_stats \<Rightarrow> string" where
  "rate_tone f =
     (if fs_succeeded f + fs_failed f = 0 then []
      else if success_rate f < 90 then ''red'' else if success_rate f < 99 then ''yellow'' else ''green'')"

definition overview_tiles :: "string \<Rightarrow> fleet_stats \<Rightarrow> string list" where
  "overview_tiles cl f =
     [statTile ''CronJobs'' (int_text (fs_cronjobs f))
        (if cl \<noteq> [] then Sprintf ''in %d namespace(s)'' [int_text (fs_namespaces f)]
         else Sprintf ''across %d cluster(s)'' [int_text (fs_clusters f)]) [],
      statTile ''Success rate''
        (if fs_succeeded f + fs_failed f > 0 then Sprintf ''%.1f%%'' [fixed 1 (success_rate f)] else em_dash)
        (Sprintf ''%d finished run(s)'' [int_text (fs_succeeded f + fs_failed f)]) (rate_tone f),
      statTile ''Failed'' (int_text (fs_failed f))
        (Sprintf ''in %d cronjob(s)'' [int_text (fs_failing f)])
        (if fs_failed f > 0 then ''red'' else ''green''),
      statTile ''Running'' (int_text (fs_running f)) ''right now'' ''running'',
      statTile ''Suspended'' (int_text (fs_suspended f)) ''not scheduled''
        (if fs_suspended f > 0 then ''yellow'' else [])]"

definition overview_rank :: "('s, 'l) api_env \<Rightarrow> db \<Rightarrow> string \<Rightarrow> int \<Rightarrow> string \<Rightarrow> cronjob_rank list" where
  "overview_rank ev db cl days metric =
     (case GetTopCronJobs (ev_tx ev) (ev_dn ev) db cl metric days topListSize of
        Inl _ \<Rightarrow> [] | Inr ranks \<Rightarrow> ranks)"

definition renderOverview :: "('s, 'l) api_env \<Rightarrow> db \<Rightarrow> string \<Rightarrow> int \<Rightarrow> string list" where
  "renderOverview ev db cl days =
     (case GetFleetStats (ev_tx ev) (ev_dn ev) db cl days of
        Inl _ \<Rightarrow> []
      | Inr f \<Rightarrow>
          ''<div class=\"stat-row\">'' # overview_tiles cl f @ [''</div>'', ''<div class=\"overview-grid\">'',
            topList ''Most failures'' ''failed runs'' (overview_rank ev db cl days ''failures'') int_text,
            topList ''Longest running'' ''mean duration'' (overview_rank ev db cl days ''duration'') fmtDuration,
            topList ''Top CPU'' ''peak observed'' (overview_rank ev db cl days ''cpu'') fmtMillicores,
            topList ''Top memory'' ''peak observed'' (overview_rank ev db cl days ''memory'') fmtBytes,
            ''</div>''])"

definition window_of :: "request \<Rightarrow> int" where
  "window_of r = normalizeWindow (atoiDefault (query_get r ''days'') 7)"

section \<open>Dashboard\<close>

definition cluster_card :: "db \<Rightarrow> cluster \<Rightarrow> string" where
  "cluster_card db c =
     (let running = runningCountByCluster db (cl_id c) in
      Sprintf ''
<a href=\"/clusters/%s\" style=\"text-decoration:none;\">
  <div class=\"card\" style=\"cursor:pointer;\"
       onmouseover=\"this.style.borderColor='var(--accent)'\"
       onmouseout=\"this.style.borderColor='var(--border)'\">
    <div style=\"display:flex;justify-content:space-between;align-items:center;margin-bottom:.75rem;\">
      <span style=\"font-family:var(--font-mono);color:var(--accent);font-size:1.05rem;\">%s</span>
      <span class=\"%s\" title=\"Metrics API\"></span>
    </div>
    <div style=\"font-family:var(--font-mono);font-size:0.8rem;color:var(--muted);\">
      %d cronjob(s)%s
    </div>
  </div>
</a>''
        [escape_string (cl_id c), escape_string (cl_name c),
         if cl_metrics c then ''metrics-dot enabled'' else ''metrics-dot'',
         int_text (int (cronjob_count db (cl_id c))),
         if running > 0 then
           Sprintf '' &nbsp;<span class=\"badge badge-running\">%d running</span>'' [int_text running]
         else []])"

definition Dashboard :: "('s, 'l) api_env \<Rightarrow> 'k app_state handler" where
  "Dashboard ev r x =
     (let db = store_of x; days = window_of r in
      case ListClusters db of
        Inl _ \<Rightarrow> http_error ''failed to load clusters'' 500 x
      | Inr [c] \<Rightarrow>
          http_redirect (Sprintf ''/clusters/%s?days=%d'' [PathEscape (cl_id c), int_text days]) 303 x
      | Inr cs \<Rightarrow>
          write_page
            ([htmlHead (nav db r []), ''<div class=\"container\">'',
              Sprintf ''<div style=\"display:flex;justify-content:space-between;align-items:center;margin-bottom:1.5rem;\">
  <h1 style=\"font-family:var(--font-mono);color:var(--accent);\">[KubeCron]</h1>%s
</div>'' [rangeSwitchFor ''/'' days]]
             @ renderOverview ev db [] days
             @ [sectionHeading ''Clusters'']
             @ (if cs = [] then
                  [(''<div class=\"card\" style=\"text-align:center;padding:3rem;color:var(--muted);font-family:var(--font-mono);\">
			No clusters loaded '' @ em_dash @ '' drop a kubeconfig in <code>dev/kubeconfigs/</code> and restart.
		</div>'')]
                else ''<div class=\"grid grid-2\">'' # map (cluster_card db) cs @ [''</div>''])
             @ [''</div>'', htmlFoot]) x)"

section \<open>Cluster and namespace\<close>

definition crumb_clusters :: string where "crumb_clusters = ''<a href=\"/\">clusters</a>''"

definition crumb_cluster :: "string \<Rightarrow> string" where
  "crumb_cluster cl = ''<a href=\"/clusters/'' @ escape_string cl @ ''\">'' @ escape_string cl @ ''</a>''"

definition crumb_ns :: "string \<Rightarrow> string \<Rightarrow> string" where
  "crumb_ns cl ns =
     ''<a href=\"/clusters/'' @ escape_string cl @ ''/cronjobs/'' @ escape_string ns @ ''\">''
     @ escape_string ns @ ''</a>''"

definition crumb_here :: "string \<Rightarrow> string" where
  "crumb_here s = ''<span>'' @ escape_string s @ ''</span>''"

definition poll_url :: "string \<Rightarrow> string \<Rightarrow> string" where
  "poll_url cl ns = Sprintf ''/clusters/%s/cronjobs/%s/rows'' [escape_string cl, escape_string ns]"

fun add_row :: "cronjob_row \<Rightarrow> (string \<times> cronjob_row list) list \<Rightarrow> (string \<times> cronjob_row list) list" where
  "add_row d [] = [(cj_ns (rw_cronjob d), [d])]"
| "add_row d ((n, ds) # gs) =
     (if n = cj_ns (rw_cronjob d) then (n, ds @ [d]) # gs else (n, ds) # add_row d gs)"

definition ns_group :: "('s, 'l) api_env \<Rightarrow> string \<Rightarrow> string \<times> cronjob_row list \<Rightarrow> string list" where
  "ns_group ev cl g =
     (case g of (n, ds) \<Rightarrow>
        [Sprintf ''<div class=\"ns-section\" id=\"ns-%s\">'' [escape_string n],
         Sprintf ''<div class=\"ns-header\"><span class=\"ns-tag\">namespace</span><span class=\"ns-name\">%s</span><span class=\"ns-count\">%d cron(s)</span></div>''
           [escape_string n, int_text (int (length ds))],
         cronJobTableOpen, cronJobTableBodyPoll (poll_url cl n)]
        @ map (renderCronJobRow (ev_format ev)) ds @ [''</tbody></table></div></div>''])"

definition ClusterDetail :: "('s, 'l) api_env \<Rightarrow> 'k app_state handler" where
  "ClusterDetail ev r x =
     (let cl = path_value r 0; db = store_of x; now = rq_now r; days = window_of r in
      case cronJobRowInputs ev db cl of
        Inl _ \<Rightarrow> http_error ''failed to load cronjobs'' 500 x
      | Inr (cjs, smap, running) \<Rightarrow>
          (let groups = fold (\<lambda>c. add_row (buildCronJobRow ev cl c (smap (cj_id c)) running now)) cjs [] in
           write_page
             ([htmlHeadSidebar (buildNsSidebar cl cjs []) (nav db r cl),
               ''<div class=\"page-content\">'', breadcrumb [crumb_clusters, crumb_here cl],
               Sprintf ''<div style=\"display:flex;justify-content:flex-end;margin-bottom:12px;\">%s</div>''
                 [rangeSwitchFor (''/clusters/'' @ PathEscape cl) days]]
              @ renderOverview ev db cl days
              @ [sectionHeading ''CronJobs'']
              @ (if groups = [] then
                   [''<div class=\"card\" style=\"text-align:center;padding:3rem;color:var(--muted);font-family:var(--font-mono);\">No CronJobs found in this cluster.</div>'']
                 else concat (map (ns_group ev cl) groups))
              @ [''</div>'', countdownJS, htmlFootSidebar]) x))"

definition rows_of_ns ::
    "('s, 'l) api_env \<Rightarrow> gotime \<Rightarrow> string \<Rightarrow> string
     \<Rightarrow> cronjob list \<times> (string \<Rightarrow> cj_summary option) \<times> (string \<Rightarrow> int option) \<Rightarrow> cronjob_row list" where
  "rows_of_ns ev now cl ns inp =
     (case inp of (cjs, smap, running) \<Rightarrow>
        map (\<lambda>c. buildCronJobRow ev cl c (smap (cj_id c)) running now) (filter (\<lambda>c. cj_ns c = ns) cjs))"

definition NamespaceDetail :: "('s, 'l) api_env \<Rightarrow> 'k app_state handler" where
  "NamespaceDetail ev r x =
     (let cl = path_value r 0; ns = path_value r 1; db = store_of x in
      case cronJobRowInputs ev db cl of
        Inl _ \<Rightarrow> http_error ''failed to load cronjobs'' 500 x
      | Inr inp \<Rightarrow>
          (let rows = rows_of_ns ev (rq_now r) cl ns inp in
           write_page
             ([htmlHeadSidebar (buildNsSidebar cl (fst inp) ns) (nav db r cl),
               ''<div class=\"page-content\">'',
               breadcrumb [crumb_clusters, crumb_cluster cl, crumb_here ns]]
              @ (if rows = [] then
                   [''<div class=\"card\" style=\"text-align:center;padding:3rem;color:var(--muted);font-family:var(--font-mono);\">No CronJobs in this namespace.</div>'']
                 else [cronJobTableOpen, cronJobTableBodyPoll (poll_url cl ns)]
                      @ map (renderCronJobRow (ev_format ev)) rows @ [''</tbody></table></div>''])
              @ [''</div>'', countdownJS, htmlFootSidebar]) x))"

definition NamespaceRows :: "('s, 'l) api_env \<Rightarrow> 'k app_state handler" where
  "NamespaceRows ev r x =
     (let cl = path_value r 0; ns = path_value r 1 in
      if header_get r ''HX-Request'' \<noteq> ''true'' then
        http_redirect (Sprintf ''/clusters/%s/cronjobs/%s'' [PathEscape cl, PathEscape ns]) 303 x
      else
        (case cronJobRowInputs ev (store_of x) cl of
           Inl _ \<Rightarrow> http_error ''failed to load cronjobs'' 500 x
         | Inr inp \<Rightarrow>
             write_page (map (renderCronJobRow (ev_format ev)) (rows_of_ns ev (rq_now r) cl ns inp)) x))"

end
