(* ===== verification/Run_Pages.thy ===== *)
theory Run_Pages
  imports Pages
begin

text \<open>
  The run list and the run page (src/internal/api/handlers_runs.go).
\<close>

definition runsPageSize :: int where "runsPageSize = 50"

section \<open>The run list\<close>

definition list_header_template :: string where
  "list_header_template = (''<div style=\"display:flex;justify-content:space-between;align-items:center;margin-bottom:1.25rem;\">
	  <h1 style=\"font-family:var(--font-mono);color:var(--accent);font-size:1.25rem;margin:0;\">%s</h1>
	  <button class=\"btn btn-primary\"
	    hx-post=\"/api/clusters/%s/cronjobs/%s/%s/trigger\"
	    hx-confirm=\"Trigger a manual run?\"
	    hx-swap=\"none\"
	    hx-on::after-request=\"if(event.detail.successful){var d=JSON.parse(event.detail.xhr.responseText);window.location='/clusters/%s/cronjobs/%s/%s/runs/'+d.run_id;}else{showToast('Trigger failed',false);}\">
	    '' @ play_sign @ '' Run now
	  </button>
	</div>'')"

definition list_header :: "cronjob \<Rightarrow> string \<Rightarrow> string \<Rightarrow> string \<Rightarrow> string" where
  "list_header cj cl ns nm =
     (let c = escape_string cl; s = escape_string ns; m = escape_string nm in
      Sprintf list_header_template [escape_string (cj_schedule cj), c, s, m, c, s, m])"

definition day_chip :: "string \<Rightarrow> string \<Rightarrow> string \<Rightarrow> string \<Rightarrow> string" where
  "day_chip cl ns nm day =
     Sprintf (''<div style=\"margin-bottom:0.75rem;display:flex;align-items:center;gap:0.5rem;font-family:var(--font-mono);font-size:0.85rem;\">
  <span style=\"background:rgba(66,153,225,0.15);border:1px solid rgba(66,153,225,0.4);color:#4299e1;padding:2px 10px;border-radius:12px;\">%s</span>
  <a href=\"%s\" style=\"color:var(--muted);text-decoration:none;\" title=\"Clear filter\">'' @ cross_sign @ '' clear</a>
</div>'')
       [escape_string day,
        escape_string (''/clusters/'' @ PathEscape cl @ ''/cronjobs/'' @ PathEscape ns @ ''/''
                       @ PathEscape nm @ ''/runs'')]"

definition runs_table_open :: string where
  "runs_table_open = ''<div class=\"card\" style=\"padding:0;overflow:hidden;\"><table>
<thead><tr>
  <th>ID</th><th>Trigger</th><th>Status</th>
  <th>Started</th><th>Duration</th><th>Exit code</th><th>Node</th>
</tr></thead><tbody id=\"runs-tbody\">''"

definition list_runs ::
    "('s, 'l) api_env \<Rightarrow> db \<Rightarrow> string \<Rightarrow> string \<Rightarrow> gotime \<Rightarrow> job_run list result" where
  "list_runs ev db cj day before =
     (if day \<noteq> [] then ListJobRunsByDay (ev_tx ev) db cj day
      else ListJobRunsPaged (ev_tx ev) db cj before runsPageSize)"

definition has_more :: "string \<Rightarrow> job_run list \<Rightarrow> bool" where
  "has_more day runs \<longleftrightarrow> day = [] \<and> int (length runs) = runsPageSize"

definition daily_stats :: "('s, 'l) api_env \<Rightarrow> db \<Rightarrow> string \<Rightarrow> daily_stat list" where
  "daily_stats ev db cj =
     (case GetDailyRunStats (ev_tx ev) (ev_dn ev) db cj 90 of Inl _ \<Rightarrow> [] | Inr s \<Rightarrow> s)"

definition all_cronjobs :: "db \<Rightarrow> string \<Rightarrow> cronjob list" where
  "all_cronjobs db cl = (case ListCronJobs db cl of Inl _ \<Rightarrow> [] | Inr cjs \<Rightarrow> cjs)"

definition found_cronjob :: "db \<Rightarrow> request \<Rightarrow> cronjob option" where
  "found_cronjob db r =
     (case GetCronJobByName db (path_value r 0) (path_value r 1) (path_value r 2) of
        Inl _ \<Rightarrow> None | Inr c \<Rightarrow> c)"

text \<open>\<open>labels\<close> is the iteration order of the heatmap's label map.\<close>

definition RunsList :: "(int \<times> string) list \<Rightarrow> ('s, 'l) api_env \<Rightarrow> 'k app_state handler" where
  "RunsList labels ev r x =
     (let cl = path_value r 0; ns = path_value r 1; nm = path_value r 2; db = store_of x;
          day = query_get r ''day'' in
      case found_cronjob db r of
        None \<Rightarrow> http_error ''cronjob not found'' 404 x
      | Some cj \<Rightarrow>
          (case list_runs ev db (cj_id cj) day zero_time of
             Inl _ \<Rightarrow> http_error ''failed to load runs'' 500 x
           | Inr runs \<Rightarrow>
               write_page
                 ([htmlHeadSidebar (buildNsSidebar cl (all_cronjobs db cl) ns) (nav db r cl),
                   ''<div class=\"page-content\">'',
                   breadcrumb [crumb_clusters, crumb_cluster cl, crumb_ns cl ns, crumb_here nm],
                   list_header cj cl ns nm,
                   ''<div class=\"card\" style=\"margin-bottom:1rem;\">'',
                   ''<div class=\"section-label\">90-day history</div>'',
                   heatmapHTML labels (rq_now r) (daily_stats ev db (cj_id cj)) 90,
                   ''</div>'']
                  @ (if day \<noteq> [] then [day_chip cl ns nm day] else [])
                  @ (if runs = [] then
                       [''<div class=\"card\" style=\"text-align:center;padding:3rem;color:var(--muted);font-family:var(--font-mono);\">No runs yet.</div>'']
                     else
                       runs_table_open # map (\<lambda>run. renderRunRow (ev_format ev) run cl ns nm) runs
                       @ [''</tbody></table></div>'',
                          if has_more day runs then runLoadMoreWrap cl ns nm (runCursor ev (last runs)) []
                          else ''<div id=\"load-more-wrap\"></div>''])
                  @ [''</div>'', htmlFootSidebar]) x))"

definition RunsListMore :: "('s, 'l) api_env \<Rightarrow> 'k app_state handler" where
  "RunsListMore ev r x =
     (let cl = path_value r 0; ns = path_value r 1; nm = path_value r 2; db = store_of x;
          before = parseRunCursor ev (query_get r ''before''); day = query_get r ''day'' in
      case found_cronjob db r of
        None \<Rightarrow> http_error ''cronjob not found'' 404 x
      | Some cj \<Rightarrow>
          (case list_runs ev db (cj_id cj) day before of
             Inl _ \<Rightarrow> http_error ''failed to load runs'' 500 x
           | Inr runs \<Rightarrow>
               write_page
                 (map (\<lambda>run. renderRunRow (ev_format ev) run cl ns nm) runs
                  @ [runLoadMoreOOB cl ns nm (if has_more day runs then runCursor ev (last runs) else []) []]) x))"

section \<open>One run\<close>

definition exit_display :: "job_run \<Rightarrow> string" where
  "exit_display run =
     (case jr_exit run of
        Some n \<Rightarrow>
          Sprintf ''<span class=\"meta-kv\">exit <strong id=\"run-exit\" style=\"color:%s;\">%d</strong></span>''
            [if n \<noteq> 0 then ''var(--red)'' else ''var(--green)'', int_text n]
      | None \<Rightarrow>
          (if jr_status run = ''running''
           then ''<span class=\"meta-kv\" id=\"run-exit-wrap\" style=\"display:none\">exit <strong id=\"run-exit\"></strong></span>''
           else []))"

definition mib :: "int option \<Rightarrow> string" where
  "mib m = (case m of None \<Rightarrow> em_dash | Some b \<Rightarrow> Sprintf ''%d MiB'' [int_text (b sdiv 1048576)])"

definition resource_display :: "job_run \<Rightarrow> string" where
  "resource_display run =
     (if jr_status run = ''running'' then
        ''<span class=\"meta-kv\" id=\"run-res-wrap\" style=\"display:none\">''
        @ (''cpu avg <strong id=\"run-avg-cpu\">'' @ em_dash @ ''</strong> peak <strong id=\"run-max-cpu\">'' @ em_dash @ ''</strong>'')
        @ ('' &nbsp;'' @ [CHR 0xC2, CHR 0xB7] @ ''&nbsp; '')
        @ (''mem avg <strong id=\"run-avg-mem\">'' @ em_dash @ ''</strong> peak <strong id=\"run-max-mem\">'' @ em_dash @ ''</strong>'')
        @ ''</span>''
      else
        (case jr_avg_cpu run of
           None \<Rightarrow> []
         | Some avg \<Rightarrow>
             (let avgCPU = Sprintf ''%dm'' [int_text avg];
                  maxCPU = (case jr_max_cpu run of None \<Rightarrow> avgCPU | Some m \<Rightarrow> Sprintf ''%dm'' [int_text m])
              in Sprintf
                   (''<span class=\"meta-kv\" id=\"run-res-wrap\">''
                    @ ''cpu avg <strong id=\"run-avg-cpu\">%s</strong> peak <strong id=\"run-max-cpu\">%s</strong>''
                    @ ('' &nbsp;'' @ [CHR 0xC2, CHR 0xB7] @ ''&nbsp; '')
                    @ ''mem avg <strong id=\"run-avg-mem\">%s</strong> peak <strong id=\"run-max-mem\">%s</strong>''
                    @ ''</span>'')
                   [escape_string avgCPU, escape_string maxCPU, escape_string (mib (jr_avg_mem run)),
                    escape_string (mib (jr_max_mem run))])))"

definition run_card :: "job_run \<Rightarrow> string list" where
  "run_card run =
     Sprintf ''<div class=\"card\" style=\"margin-bottom:1rem;\">
  <div style=\"display:flex;flex-wrap:wrap;gap:1rem 1.5rem;align-items:center;\">
    <span id=\"run-status\">%s</span>
    <span class=\"meta-kv\">trigger <strong style=\"color:var(--accent);\">%s</strong></span>
    <span class=\"meta-kv\">duration <strong id=\"run-duration\" style=\"color:var(--accent);\">%s</strong></span>
    %s
    %s''
       [statusBadge (jr_status run), escape_string (jr_trigger run),
        escape_string (case jr_duration run of None \<Rightarrow> ''running'' @ ellipsis | Some d \<Rightarrow> fmtDuration d),
        exit_display run, resource_display run]
     # (case jr_node run of None \<Rightarrow> []
        | Some n \<Rightarrow> [Sprintf ''<span class=\"meta-kv muted\">node %s</span>'' [escape_string n]])
     @ (case jr_image run of None \<Rightarrow> []
        | Some i \<Rightarrow> [Sprintf ''<span class=\"meta-kv muted\">image %s</span>'' [escape_string i]])
     @ [Sprintf ''<span id=\"run-logsize\" class=\"meta-kv muted\">%s</span>'' [escape_string (fmtLogSize (jr_log_size run))],
        ''</div></div>'']"

definition charts_template :: string where
  "charts_template = ''<div class=\"card\" style=\"margin-bottom:1rem;\">
  <div class=\"section-label\">Resource usage</div>
  <div style=\"display:grid;grid-template-columns:1fr 1fr;gap:1rem;\">
    <div class=\"chart-container\"><canvas id=\"cpuChart\"></canvas></div>
    <div class=\"chart-container\"><canvas id=\"memChart\"></canvas></div>
  </div>
</div>
<script src=\"https://cdn.jsdelivr.net/npm/chart.js@4.4.9\"></script>
<script>
(function(){
  var chartOpts = function(label, data, labels, color) {
    return { type:'line', data:{ labels:labels, datasets:[{ label:label, data:data,
      borderColor:color, backgroundColor:color+'22', fill:true, tension:0.3, pointRadius:2 }] },
      options:{ responsive:true, maintainAspectRatio:false,
        scales:{ y:{ beginAtZero:true, grid:{color:'#1e1e2e'}, ticks:{color:'#718096'} },
                 x:{ grid:{color:'#1e1e2e'}, ticks:{color:'#718096', maxTicksLimit:8} } },
        plugins:{ legend:{ labels:{color:'#e2e8f0'} } } } };
  };
  fetch('/api/runs/%s/resources').then(function(r){return r.json();}).then(function(d){
    if (!d.samples || !d.samples.length) return;
    var labels = d.samples.map(function(s){return new Date(s.sampled_at).toLocaleTimeString();});
    var cpu = d.samples.map(function(s){return s.cpu_millicores;});
    var mem = d.samples.map(function(s){return Math.round(s.memory_bytes/1048576);});
    new Chart(document.getElementById('cpuChart'), chartOpts('CPU (m)', cpu, labels, '#6c8ef7'));
    new Chart(document.getElementById('memChart'), chartOpts('Memory (MiB)', mem, labels, '#48bb78'));
  });
})();
</script>''"

definition live_template :: string where
  "live_template = (''<script>
(function(){
  var term = document.getElementById('log-term');
  var es = new EventSource('/api/runs/%s/stream');

  es.onmessage = function(e) {
    if (!e.data) return;
    term.insertAdjacentHTML('beforeend', e.data);
  };

  es.addEventListener('status', function(e) {
    var d = JSON.parse(e.data);
    var badge = {running:'badge-running',succeeded:'badge-success',failed:'badge-failed'};
    var cls = badge[d.status] || 'badge-muted';
    var st = document.getElementById('run-status');
    if (st) st.innerHTML = '<span class=\"badge '+cls+'\">'+d.status+'</span>';
    var dur = document.getElementById('run-duration');
    if (dur) dur.textContent = d.duration || 'running'' @ ellipsis @ [CHR 0x27] @ '';
    if (d.exit_code !== null && d.exit_code !== undefined) {
      var ew = document.getElementById('run-exit-wrap');
      if (ew) ew.style.display = '' @ [CHR 0x27] @ [CHR 0x27] @ '';
      var ex = document.getElementById('run-exit');
      if (ex) { ex.textContent = d.exit_code; ex.style.color = d.exit_code===0?'var(--green)':'var(--red)'; }
    }
    if (d.avg_cpu_m != null) {
      var rw = document.getElementById('run-res-wrap');
      if (rw) rw.style.display = '' @ [CHR 0x27] @ [CHR 0x27] @ '';
      var el = document.getElementById('run-avg-cpu'); if(el) el.textContent = d.avg_cpu_m+'m';
      el = document.getElementById('run-max-cpu'); if(el && d.max_cpu_m) el.textContent = d.max_cpu_m+'m';
      el = document.getElementById('run-avg-mem'); if(el && d.avg_mem_mb!=null) el.textContent = d.avg_mem_mb+' MiB';
      el = document.getElementById('run-max-mem'); if(el && d.max_mem_mb!=null) el.textContent = d.max_mem_mb+' MiB';
    }
    var ls = document.getElementById('run-logsize');
    if (ls && d.log_size_kb) ls.textContent = d.log_size_kb;
  });

  es.addEventListener('done', function() { es.close(); });
  es.onerror = function() { es.close(); };
})();
</script>'')"

definition log_line_div :: "string \<Rightarrow> string" where
  "log_line_div l =
     Sprintf ''<div class=\"ll\" data-raw=\"%s\">%s</div>'' [escape_string l, escape_string l]"

definition page_log_limit :: int where "page_log_limit = 5000"

definition log_terminal :: "db \<Rightarrow> job_run \<Rightarrow> string \<Rightarrow> string list" where
  "log_terminal db run i =
     (if jr_status run = ''running'' then
        [''<div id=\"log-term\" class=\"log-terminal\"></div>'', Sprintf live_template [escape_string i]]
      else
        (let ls = (case GetLogLinesTail db i page_log_limit of Inl _ \<Rightarrow> [] | Inr ls \<Rightarrow> ls) in
         (if int (length ls) = page_log_limit then
            [Sprintf (''<div style=\"font-family:var(--font-mono);font-size:0.75rem;color:var(--yellow);margin-bottom:6px;\">'' @ warning_sign @ '' showing last %d lines '' @ em_dash @ '' <a href=\"/api/runs/%s/logs.txt\" style=\"color:var(--accent);\">download full log</a></div>'')
               [int_text page_log_limit, escape_string i]]
          else [])
         @ ''<div id=\"log-term\" class=\"log-terminal\">'' # map (\<lambda>l. log_line_div (ll_line l)) ls @ [''</div>'']))"

definition RunDetail :: "('s, 'l) api_env \<Rightarrow> 'k app_state handler" where
  "RunDetail ev r x =
     (let cl = path_value r 0; ns = path_value r 1; nm = path_value r 2; i = path_value r 3;
          db = store_of x in
      case GetJobRun db i of
        Inl _ \<Rightarrow> http_error ''failed to load run'' 500 x
      | Inr None \<Rightarrow> http_error ''run not found'' 404 x
      | Inr (Some run) \<Rightarrow>
          write_page
            ([htmlHeadSidebar (buildNsSidebar cl (all_cronjobs db cl) ns) (nav db r cl),
              ''<div class=\"page-content\">'',
              breadcrumb [crumb_clusters, crumb_cluster cl, crumb_ns cl ns,
                ''<a href=\"/clusters/'' @ escape_string cl @ ''/cronjobs/'' @ escape_string ns @ ''/''
                  @ escape_string nm @ ''/runs\">'' @ escape_string nm @ ''</a>'',
                ''<span>'' @ escape_string (take 8 i) @ ellipsis @ ''</span>'']]
             @ run_card run
             @ (if jr_status run \<noteq> ''running'' \<and> jr_avg_cpu run \<noteq> None
                then [Sprintf charts_template [escape_string i]] else [])
             @ [''<div class=\"card\"><div class=\"section-label\">Logs</div>'', logSearchBar i]
             @ log_terminal db run i
             @ [logSearchJS, ''</div></div>'', htmlFootSidebar]) x)"

end
