(* ===== verification/Api_Props.thy ===== *)
theory Api_Props
  imports Controls Run_Pages Watch_Props Schedule_Spec
begin

text \<open>
  What the answers of the collector API are worth: the log answer's verdicts against the store,
  the agreement of the three places that judge a CronJob (the contract, the dashboard's rows and
  the collector's gauges), and the paging of the run history.
\<close>

section \<open>Logs\<close>

text \<open>The body of a log answer, in terms of the store: its lines, and what it says of them.\<close>

lemma clampLimit_uncapped: "0 \<le> clampLimit s 0 0"
  by (simp add: clampLimit_def split: option.split)

definition readable :: "db \<Rightarrow> bool" where
  "readable db \<longleftrightarrow> (\<forall>op \<in> {''GetJobRun'', ''GetLogLines'', ''GetLogLinesTail''}. db_down db op = None)"

definition tail_of :: "int \<Rightarrow> 'a list \<Rightarrow> 'a list" where
  "tail_of n ls = (if n = 0 then ls else drop (length ls - nat n) ls)"

lemma stored_row: "i \<in> set (jr_ids db) \<Longrightarrow> \<exists>run. find (\<lambda>r. jr_id r = i) (db_runs db) = Some run"
  by (cases "find (\<lambda>r. jr_id r = i) (db_runs db)") (auto simp: find_None_iff jr_ids_def)

lemma tail_ids: "db_wf db \<Longrightarrow> readable db \<Longrightarrow> 0 \<le> n \<Longrightarrow> GetLogLinesTail db i n = Inr (tail_of n (logs_of db i))"
  by (cases "n = 0") (simp_all add: GetLogLinesTail_def[where limit = 0] GetLogLines_eq GetLogLinesTail_eq
      readable_def sql_rows_def exec_sql_up tail_of_def)

lemma tail_of_simps [simp]:
  "0 \<le> n \<Longrightarrow> tail_of n ls = [] \<longleftrightarrow> ls = []"
  "0 < n \<Longrightarrow> int (length (tail_of n ls)) = n \<longleftrightarrow> n \<le> int (length ls)"
  by (cases "n = 0"; cases ls) (auto simp: tail_of_def)

lemma logs_served:
  assumes wf: "db_wf (store_of x)" and ok: "readable (store_of x)"
    and run: "path_value r 0 \<in> set (jr_ids (store_of x))"
  shows "\<exists>g. GetLogsV1 ev r x = answer_json 200 (logs_json ev (path_value r 0) g) x
    \<and> lg_lines g = tail_of (clampLimit (query_get r ''limit'') 0 0) (logs_of (store_of x) (path_value r 0))
    \<and> lg_size g = run_log_size (store_of x) (path_value r 0)
    \<and> (lg_expired g \<longleftrightarrow> logs_of (store_of x) (path_value r 0) = [] \<and> 0 < lg_size g)
    \<and> (lg_truncated g \<longleftrightarrow> (let n = clampLimit (query_get r ''limit'') 0 0 in
         0 < n \<and> n \<le> int (length (logs_of (store_of x) (path_value r 0)))))"
proof -
  define n where "n = clampLimit (query_get r ''limit'') 0 0"
  have n: "0 \<le> n" by (simp add: n_def clampLimit_uncapped)
  obtain run where row: "find (\<lambda>r'. jr_id r' = path_value r 0) (db_runs (store_of x)) = Some run"
    using stored_row[OF run] by blast
  then have get: "GetJobRun (store_of x) (path_value r 0) = Inr (Some (scanJobRun run))"
    using ok by (simp add: GetJobRun_def sql_rows_def exec_sql_up readable_def)
  show ?thesis
    by (rule exI[of _ "logs_v1_of (scanJobRun run) (tail_of n (logs_of (store_of x) (path_value r 0))) n"])
      (use n row in \<open>auto simp: GetLogsV1_def Let_def get n_def[symmetric] tail_ids[OF wf ok n] logs_v1_of_def
         run_log_size_def logs_json_def\<close>)
qed


text \<open>\<open>log_answer ev r x g\<close>: the handler answers the request with the body \<open>g\<close>.\<close>

definition log_answer :: "('s, 'l) api_env \<Rightarrow> request \<Rightarrow> 'k app_state exchange \<Rightarrow> logs_v1 \<Rightarrow> bool" where
  "log_answer ev r x g \<longleftrightarrow> Api.GetLogsV1 ev r x = answer_json 200 (logs_json ev (path_value r 0) g) x"

lemma logs_after_retention:
  assumes "DeleteOldLogLines tx db t = Inr db'" and "r0 \<in> set (db_runs db)" and "tx (jr_started r0) < tx t"
  shows "logs_of db' (jr_id r0) = []" "db_runs db' = db_runs db" "db_down db' = db_down db"
  using assms by (auto simp: DeleteOldLogLines_def Let_def logs_of_def filter_empty_conv)

text \<open>C19. The log answer tells what the store holds: the whole body or its last lines, as the limit
  asks; \<open>truncated\<close> exactly when a limit was given and at least as many lines are stored;
  \<open>expired\<close> exactly when no line is left of a run that counted bytes. So it is set once log
  retention has removed the lines of a run that printed something, but also when no line was
  ever held, because the store refused the batch whose bytes were counted.\<close>

theorem logs_answer_truthful:
  assumes wf: "db_wf (store_of x)" and ok: "readable (store_of x)"
    and run: "path_value r 0 \<in> set (jr_ids (store_of x))"
  shows "(\<exists>g. log_answer ev r x g
      \<and> lg_lines g = tail_of (clampLimit (query_get r ''limit'') 0 0) (logs_of (store_of x) (path_value r 0))
      \<and> (lg_expired g \<longleftrightarrow> logs_of (store_of x) (path_value r 0) = [] \<and> 0 < run_log_size (store_of x) (path_value r 0))
      \<and> (lg_truncated g \<longleftrightarrow> (let n = clampLimit (query_get r ''limit'') 0 0 in
           0 < n \<and> n \<le> int (length (logs_of (store_of x) (path_value r 0))))))
    \<and> (\<forall>tx t db' r0. DeleteOldLogLines tx (store_of x) t = Inr db' \<and> r0 \<in> set (db_runs (store_of x))
          \<and> jr_id r0 = path_value r 0 \<and> tx (jr_started r0) < tx t
        \<longrightarrow> (\<exists>g. log_answer ev r (set_store db' x) g \<and> lg_lines g = []
               \<and> (lg_expired g \<longleftrightarrow> 0 < run_log_size (store_of x) (path_value r 0))))
    \<and> (\<forall>s err now. st_db s = store_of x \<and> bc_ok (st_bc s) \<and> st_batch s \<noteq> []
          \<and> db_down (store_of x) ''BatchInsertLogLines begin'' = Some err
          \<and> db_down (store_of x) ''AddLogSize'' = None
          \<and> logs_of (store_of x) (path_value r 0) = []
          \<and> 0 < run_log_size (store_of x) (path_value r 0) + st_size s
        \<longrightarrow> (\<exists>s' g. flush now (path_value r 0) s = Inr s' \<and> log_answer ev r (set_store (st_db s') x) g
               \<and> lg_lines g = [] \<and> lg_expired g))"
proof -
  let ?i = "path_value r 0"
  have served: "\<exists>g. log_answer ev r (set_store db x) g \<and> lg_lines g = []
      \<and> (lg_expired g \<longleftrightarrow> 0 < run_log_size db ?i)"
    if "db_wf db" "readable db" "?i \<in> set (jr_ids db)" "logs_of db ?i = []" for db
    using logs_served[of "set_store db x" r ev] that by (fastforce simp: log_answer_def tail_of_def)
  have expired: "\<exists>g. log_answer ev r (set_store db' x) g \<and> lg_lines g = []
      \<and> (lg_expired g \<longleftrightarrow> 0 < run_log_size (store_of x) ?i)"
    if "DeleteOldLogLines tx (store_of x) t = Inr db'" "r0 \<in> set (db_runs (store_of x))" "jr_id r0 = ?i"
      "tx (jr_started r0) < tx t" for tx t db' r0
    using served[of db'] logs_after_retention[OF that(1,2,4)] DeleteOldLogLines_wf[OF wf that(1)] that(3) ok run
    by (simp add: readable_def jr_ids_def run_log_size_def)
  have refused: "\<exists>s' g. flush now ?i s = Inr s' \<and> log_answer ev r (set_store (st_db s') x) g
               \<and> lg_lines g = [] \<and> lg_expired g"
    if h: "st_db s = store_of x" "bc_ok (st_bc s)" "st_batch s \<noteq> []"
      "db_down (store_of x) ''BatchInsertLogLines begin'' = Some err"
      "db_down (store_of x) ''AddLogSize'' = None" "logs_of (store_of x) ?i = []"
      "0 < run_log_size (store_of x) ?i + st_size s" for s err now
  proof -
    obtain s' where s': "flush now ?i s = Inr s'" "AddLogSize (st_db s) ?i (st_size s) = Inr (st_db s')"
      "db_logs (st_db s') = db_logs (st_db s)" "jr_ids (st_db s') = jr_ids (st_db s)"
      "db_down (st_db s') = db_down (st_db s)"
      "run_log_size (st_db s') ?i = run_log_size (st_db s) ?i + st_size s"
      using refused_batch[of s err ?i now, unfolded h(1), OF h(4,5) run h(2,3)] h(1) by auto
    have "db_wf (st_db s')" by (rule AddLogSize_wf[OF _ s'(2)]) (use h wf in simp)
    then show ?thesis using served[of "st_db s'"] s' h ok run by (auto simp: readable_def logs_of_def)
  qed
  show ?thesis
    using logs_served[OF wf ok run, of ev] expired refused by (intro conjI allI impI) (auto simp: log_answer_def)
qed

section \<open>Verdicts\<close>

text \<open>The two adapters between a stored run and the schedule package are the same function.\<close>

lemma adapters_agree: "lastRunForSchedule = map_option to_last_run"
  by (rule ext) (simp add: lastRunForSchedule_def to_last_run_def split: option.split)

lemma row_inputs:
  assumes "all_up db" and "c \<in> set (live_cronjobs db cl)"
  shows "\<exists>m n. cronJobRowInputs ev db cl = Inr (live_cronjobs db cl, m, n)
    \<and> GetCronJobSummaries (ev_tx ev) (ev_dn ev) db cl sparklineRuns = Inr m
    \<and> map_option sm_last (m (cj_id c)) = last_run_of (ev_tx ev) db (cj_id c)
    \<and> (case n (cj_id c) of None \<Rightarrow> 0 | Some k \<Rightarrow> k) = running_count db (cj_id c)"
proof -
  have up: "db_down db = (\<lambda>_. None)" using assms(1) by (simp add: all_up_def)
  obtain n where n: "CountRunningRuns db = Inr n"
    using up by (simp add: CountRunningRuns_def Let_def sql_rows_def exec_sql_up)
  from GetCronJobSummaries_last[OF up assms(2), of "ev_tx ev" "ev_dn ev" sparklineRuns] obtain m where
    "GetCronJobSummaries (ev_tx ev) (ev_dn ev) db cl sparklineRuns = Inr m"
    "map_option sm_last (m (cj_id c)) = last_run_of (ev_tx ev) db (cj_id c)" by blast
  then show ?thesis using n CountRunningRuns_count[OF n, of "cj_id c"] up
    by (simp add: cronJobRowInputs_def ListCronJobs_def sql_rows_def exec_sql_up)
qed

text \<open>One CronJob's row and its gauges, from the same last run and the same count.\<close>

lemma row_and_gauges:
  assumes last: "map_option sm_last s = last_run_of tx db (cj_id c)" "map_option sm_last sm = last_run_of tx db (cj_id c)"
    and n: "(case n (cj_id c) of None \<Rightarrow> 0 | Some k \<Rightarrow> k) = k"
  shows "let row = buildCronJobRow ev cl c s n now;
             gauge = (\<lambda>nm. pr_gauge (collectCronJob (ev_cron ev) c sm k now q) (nm, [cj_cluster c, cj_ns c, cj_name c]))
        in missed_v1 ev now s c = rw_missed row
           \<and> gauge ''cronjob_missed'' = Some (boolGauge (rw_missed row))
           \<and> gauge ''runs_active'' = Some (of_int k) \<and> (rw_concurrent row \<longleftrightarrow> 1 < k)
           \<and> rw_last row = last_run_of tx db (cj_id c)
           \<and> (case NextRun (ev_cron ev) (cj_schedule c) (TZ c) now of
                Inr t \<Rightarrow> \<not> rw_schedule_error row \<and> rw_next row = t
                  \<and> (cj_schedule c \<noteq> [] \<longrightarrow> next_run_at ev now c = Some t)
                  \<and> gauge ''next_run_timestamp'' = Some (of_int (unix_sec t))
              | Inl _ \<Rightarrow> rw_schedule_error row \<and> next_run_at ev now c = None
                  \<and> gauge ''next_run_timestamp'' = pr_gauge q (''next_run_timestamp'', [cj_cluster c, cj_ns c, cj_name c]))"
  by (cases "last_run_of tx db (cj_id c)"; cases "NextRun (ev_cron ev) (cj_schedule c) (TZ c) now")
    (simp_all add: last n buildCronJobRow_def Let_def collectCronJob_def missed_v1_def adapters_agree next_run_at_def
      split: option.split)

text \<open>C23. The dashboard, the contract and the metrics judge a live CronJob alike: all three read
  the same last run and the same number of runs in flight, the missed verdict is the same, and
  where the schedule resolves they publish the same next instant. Where it does not, the row
  says so and the contract leaves the field out, but the gauge keeps the instant it had.\<close>

theorem verdicts_agree:
  assumes wf: "db_wf (store_of x)" and up: "all_up (store_of x)"
    and cl: "cl \<in> set (db_clusters (store_of x))" "cl_deleted cl = None"
    and c: "c \<in> set (db_cronjobs (store_of x))" "cj_cluster c = cl_id cl" "cj_deleted c = None"
    and req: "path_value r 0 = cl_id cl"
  shows "\<exists>cjs m n. cronJobRowInputs ev (store_of x) (cl_id cl) = Inr (cjs, m, n) \<and> c \<in> set cjs
    \<and> Api.ListCronJobsV1 ev r x = answer_json 200
        (J_Obj [(''cluster_id'', J_Str (cl_id cl)),
                (''cronjobs'', J_List (map (\<lambda>c. cronJobV1 ev (rq_now r) (m (cj_id c)) c) cjs))]) x
    \<and> (let row = buildCronJobRow ev (cl_id cl) c (m (cj_id c)) n (rq_now r);
            gauge = (\<lambda>nm. pr_gauge (collect (ev_cron ev) (ev_tx ev) (ev_dn ev) (store_of x) (rq_now r) p)
                      (nm, [cj_cluster c, cj_ns c, cj_name c]));
            k = running_count (store_of x) (cj_id c)
        in missed_v1 ev (rq_now r) (m (cj_id c)) c = rw_missed row
           \<and> gauge ''cronjob_missed'' = Some (boolGauge (rw_missed row))
           \<and> gauge ''runs_active'' = Some (of_int k) \<and> (rw_concurrent row \<longleftrightarrow> 1 < k)
           \<and> rw_last row = last_run_of (ev_tx ev) (store_of x) (cj_id c)
           \<and> (case NextRun (ev_cron ev) (cj_schedule c) (TZ c) (rq_now r) of
                Inr t \<Rightarrow> \<not> rw_schedule_error row \<and> rw_next row = t
                  \<and> (cj_schedule c \<noteq> [] \<longrightarrow> next_run_at ev (rq_now r) c = Some t)
                  \<and> gauge ''next_run_timestamp'' = Some (of_int (unix_sec t))
              | Inl _ \<Rightarrow> rw_schedule_error row \<and> next_run_at ev (rq_now r) c = None
                  \<and> gauge ''next_run_timestamp'' = pr_gauge p (''next_run_timestamp'', [cj_cluster c, cj_ns c, cj_name c])))"
proof -
  let ?db = "store_of x"
  have up0: "db_down ?db = (\<lambda>_. None)" using up by (simp add: all_up_def)
  have live: "c \<in> set (live_cronjobs ?db (cl_id cl))" using c by (simp add: live_cronjobs_set)
  from row_inputs[OF up live, of ev] obtain m n where
    rows: "cronJobRowInputs ev ?db (cl_id cl) = Inr (live_cronjobs ?db (cl_id cl), m, n)"
    and m: "GetCronJobSummaries (ev_tx ev) (ev_dn ev) ?db (cl_id cl) sparklineRuns = Inr m"
    and last: "map_option sm_last (m (cj_id c)) = last_run_of (ev_tx ev) ?db (cj_id c)"
    and n: "(case n (cj_id c) of None \<Rightarrow> 0 | Some k \<Rightarrow> k) = running_count ?db (cj_id c)" by blast
  from collected_row[OF wf up0 cl c, of "ev_tx ev" "ev_cron ev" "ev_dn ev" "rq_now r" p] obtain sm q where
    sm: "map_option sm_last sm = last_run_of (ev_tx ev) ?db (cj_id c)"
    and g: "pr_gauge (collect (ev_cron ev) (ev_tx ev) (ev_dn ev) ?db (rq_now r) p) (nm, [cj_cluster c, cj_ns c, cj_name c])
        = pr_gauge (collectCronJob (ev_cron ev) c sm (running_count ?db (cj_id c)) (rq_now r) q)
            (nm, [cj_cluster c, cj_ns c, cj_name c])"
    and q: "pr_gauge q (nm, [cj_cluster c, cj_ns c, cj_name c]) = pr_gauge p (nm, [cj_cluster c, cj_ns c, cj_name c])" for nm
    by blast
  have api: "Api.ListCronJobsV1 ev r x = answer_json 200
        (J_Obj [(''cluster_id'', J_Str (cl_id cl)),
                (''cronjobs'', J_List (map (\<lambda>c. cronJobV1 ev (rq_now r) (m (cj_id c)) c) (live_cronjobs ?db (cl_id cl))))]) x"
    using up0 by (simp add: Api.ListCronJobsV1_def Let_def req ListCronJobs_def sql_rows_def exec_sql_up m)
  note agree = row_and_gauges[where c = c and s = "m (cj_id c)" and n = n and k = "running_count ?db (cj_id c)"
      and tx = "ev_tx ev" and db = ?db, OF last sm n, of ev "cl_id cl" "rq_now r" q, folded g, unfolded q]
  show ?thesis
    by (intro exI conjI, rule rows, rule live, rule api) (use agree in \<open>simp only: Let_def\<close>)
qed

section \<open>Paging\<close>


text \<open>
  A client that follows the cursors: it sends back the cursor it got, escaped or as it is (a
  query then reads its plus sign as a space), until a page comes without one.
\<close>

definition unescaped :: "string \<Rightarrow> string" where
  "unescaped s = map (\<lambda>c. if c = CHR ''+'' then CHR '' '' else c) s"

fun follow ::
    "nat \<Rightarrow> ('s, 'l) api_env \<Rightarrow> (string \<Rightarrow> string) \<Rightarrow> db \<Rightarrow> string \<Rightarrow> string \<Rightarrow> string \<Rightarrow> job_run list" where
  "follow 0 ev sent db cj limit before = []"
| "follow (Suc k) ev sent db cj limit before =
     (case runs_page ev db cj limit before of
        (Inr runs, cursor) \<Rightarrow> runs @ (if cursor = [] then [] else follow k ev sent db cj limit (sent cursor))
      | (Inl _, _) \<Rightarrow> [])"

text \<open>What is relied on of the texts of instants: they read back, and hold at most one plus sign.\<close>

definition stamp_ok :: "('s, 'l) api_env \<Rightarrow> gotime \<Rightarrow> bool" where
  "stamp_ok ev t \<longleftrightarrow> ev_parse ev (ev_stamp ev t) = Some t \<and> \<not> is_zero t \<and> ev_stamp ev t \<noteq> []
     \<and> CHR '' '' \<notin> set (ev_stamp ev t) \<and> count_list (ev_stamp ev t) CHR ''+'' \<le> 1
     \<and> (CHR ''+'' \<in> set (ev_stamp ev t) \<longrightarrow> ev_parse ev (unescaped (ev_stamp ev t)) = None)"

lemma unescaped_id: "CHR ''+'' \<notin> set s \<Longrightarrow> unescaped s = s"
  by (auto simp: unescaped_def intro: map_idI)

lemma plus_for_space_unescaped:
  "CHR '' '' \<notin> set s \<Longrightarrow> count_list s CHR ''+'' \<le> 1 \<Longrightarrow> plus_for_space (unescaped s) = s"
proof (induction s)
  case (Cons c s)
  show ?case
  proof (cases "c = CHR ''+''")
    case True
    with Cons.prems have "CHR ''+'' \<notin> set s" by (simp add: count_list_0_iff)
    with True show ?thesis using unescaped_id[of s] by (simp add: unescaped_def)
  next
    case False
    with Cons show ?thesis by (auto simp: unescaped_def)
  qed
qed (simp add: unescaped_def)

lemma parseRunCursor_sent:
  assumes "stamp_ok ev t" and "sent \<in> {id, unescaped}"
  shows "parseRunCursor ev (sent (ev_stamp ev t)) = t"
proof (cases "CHR ''+'' \<in> set (ev_stamp ev t)")
  case True
  have "unescaped (ev_stamp ev t) \<noteq> []" using assms(1) by (simp add: unescaped_def stamp_ok_def)
  with True assms show ?thesis
    by (auto simp: parseRunCursor_def stamp_ok_def plus_for_space_unescaped)
next
  case False
  with assms show ?thesis by (auto simp: parseRunCursor_def stamp_ok_def unescaped_id)
qed

definition remaining :: "('s, 'l) api_env \<Rightarrow> db \<Rightarrow> string \<Rightarrow> string \<Rightarrow> job_run list" where
  "remaining ev db cj before =
     (let t = parseRunCursor ev before in
      if is_zero t then newest_first (ev_tx ev) (runs_of db cj)
      else newest_first (ev_tx ev) (filter (\<lambda>r. ev_tx ev (jr_started r) < ev_tx ev t) (runs_of db cj)))"

definition page_size :: "string \<Rightarrow> nat" where
  "page_size limit = nat (clampLimit limit v1DefaultRunLimit v1MaxRunLimit)"

lemma page_size_range: "0 < page_size limit" "page_size limit \<le> 1000"
  by (auto simp: page_size_def clampLimit_def v1DefaultRunLimit_def v1MaxRunLimit_def split: option.split)

lemma page_size_int: "clampLimit limit v1DefaultRunLimit v1MaxRunLimit = int (page_size limit)"
  using page_size_range(1)[of limit] by (simp add: page_size_def)

lemma runs_page_eq:
  "db_down db ''ListJobRunsPaged'' = None \<Longrightarrow>
   runs_page ev db cj limit before =
     (let page = take (page_size limit) (remaining ev db cj before) in
      (Inr (map scanJobRun page),
       if length page = page_size limit then ev_stamp ev (jr_started (last page)) else []))"
proof -
  assume up: "db_down db ''ListJobRunsPaged'' = None"
  let ?page = "take (page_size limit) (remaining ev db cj before)"
  have "ListJobRunsPaged (ev_tx ev) db cj (parseRunCursor ev before) (int (page_size limit)) = Inr (map scanJobRun ?page)"
    using up by (simp add: ListJobRunsPaged_def remaining_def Let_def sql_rows_def exec_sql_up sql_limit_nonneg)
  moreover have "?page \<noteq> [] \<Longrightarrow> last (map scanJobRun ?page) = scanJobRun (last ?page)" by (rule last_map)
  moreover have "length ?page = page_size limit \<Longrightarrow> ?page \<noteq> []" using page_size_range(1)[of limit] by auto
  ultimately show ?thesis
    unfolding runs_page_def page_size_int Let_def by (simp del: last_map add: runCursor_def)
qed

lemma remaining_next:
  assumes "distinct_starts (ev_tx ev) (runs_of db cj)"
    and "newest_first (ev_tx ev) (runs_of db cj) = xs @ ys" and "0 < n" and "n \<le> length ys"
    and "stamp_ok ev (jr_started (last (take n ys)))" and "sent \<in> {id, unescaped}"
  shows "remaining ev db cj (sent (ev_stamp ev (jr_started (last (take n ys))))) = drop n ys"
proof -
  have split: "ys = take (n - 1) ys @ last (take n ys) # drop n ys"
    using assms(3,4) by (cases n) (simp_all add: take_Suc_conv_app_nth Cons_nth_drop_Suc)
  have "newest_first (ev_tx ev) (runs_of db cj) = (xs @ take (n - 1) ys) @ last (take n ys) # drop n ys"
    using assms(2) split by simp
  from page_rest[OF assms(1) this] show ?thesis
    using assms(5) parseRunCursor_sent[OF assms(5,6)] by (simp add: remaining_def Let_def stamp_ok_def)
qed

lemma follow_rest:
  assumes up: "db_down db ''ListJobRunsPaged'' = None" and d: "distinct_starts (ev_tx ev) (runs_of db cj)"
    and ok: "\<forall>r \<in> set (runs_of db cj). stamp_ok ev (jr_started r)" and sent: "sent \<in> {id, unescaped}"
  shows "newest_first (ev_tx ev) (runs_of db cj) = xs @ ys \<Longrightarrow> remaining ev db cj before = ys
    \<Longrightarrow> length ys div page_size limit < k \<Longrightarrow> follow k ev sent db cj limit before = map scanJobRun ys"
proof (induction k arbitrary: xs ys before)
  case (Suc k)
  let ?n = "page_size limit"
  note n = page_size_range(1)[of limit]
  show ?case
  proof (cases "?n \<le> length ys")
    case True
    let ?p = "last (take ?n ys)"
    have "take ?n ys \<noteq> []" using True n by auto
    then have "?p \<in> set ys" by (rule in_set_takeD[OF last_in_set])
    also have "set ys \<subseteq> set (newest_first (ev_tx ev) (runs_of db cj))" using Suc.prems(1) by simp
    finally have p: "stamp_ok ev (jr_started ?p)" using ok by (simp add: newest_first_def)
    note rest = remaining_next[OF d Suc.prems(1) n True p sent]
    have "length (drop ?n ys) div ?n < k" using Suc.prems(3) True n by (simp add: le_div_geq)
    then have "follow k ev sent db cj limit (sent (ev_stamp ev (jr_started ?p))) = map scanJobRun (drop ?n ys)"
      using Suc.IH[of "xs @ take ?n ys" "drop ?n ys"] Suc.prems(1) rest by simp
    moreover have "ev_stamp ev (jr_started ?p) \<noteq> []" using p by (simp add: stamp_ok_def)
    ultimately show ?thesis
      using True by (simp add: runs_page_eq[OF up] Suc.prems(2) Let_def min_def flip: map_append)
  next
    case False
    then show ?thesis by (simp add: runs_page_eq[OF up] Suc.prems(2) Let_def)
  qed
qed simp

lemma page_behind_cursor:
  assumes "db_down db ''ListJobRunsPaged'' = None" and "stamp_ok ev (jr_started p)" and "sent \<in> {id, unescaped}"
  shows "\<exists>page. fst (runs_page ev db cj limit (sent (runCursor ev p))) = Inr page
    \<and> (\<forall>r \<in> set page. ev_tx ev (jr_started r) < ev_tx ev (jr_started p))"
  using assms(2) parseRunCursor_sent[OF assms(2,3)]
  by (auto simp: runs_page_eq[OF assms(1)] remaining_def Let_def stamp_ok_def newest_first_def runCursor_def
      dest!: in_set_takeD)

text \<open>C27. Paging lists every run exactly once, newest first, whatever the limit: a client that
  follows the cursors, escaped or not, gets the whole history within one request more than the
  full pages it holds, provided no two runs of the CronJob have the same start text. The proviso
  is needed: a page never holds a run that started when the last run of the page before did.\<close>

theorem paging_enumerates:
  assumes up: "db_down db ''ListJobRunsPaged'' = None"
    and stamps: "\<forall>r \<in> set (runs_of db cj). stamp_ok ev (jr_started r)" and sent: "sent \<in> {id, unescaped}"
  shows "0 < page_size limit \<and> page_size limit \<le> 1000
    \<and> (distinct_starts (ev_tx ev) (runs_of db cj) \<and> length (runs_of db cj) div page_size limit < k
        \<longrightarrow> follow k ev sent db cj limit [] = map scanJobRun (newest_first (ev_tx ev) (runs_of db cj)))
    \<and> (\<forall>p \<in> set (runs_of db cj). \<exists>page. fst (runs_page ev db cj limit (sent (runCursor ev p))) = Inr page
         \<and> (\<forall>r \<in> set page. ev_tx ev (jr_started r) < ev_tx ev (jr_started p)))"
proof -
  have "follow k ev sent db cj limit [] = map scanJobRun (newest_first (ev_tx ev) (runs_of db cj))"
    if "distinct_starts (ev_tx ev) (runs_of db cj)" "length (runs_of db cj) div page_size limit < k"
    by (rule follow_rest[OF up that(1) stamps sent, of "[]"])
      (use that(2) in \<open>simp_all add: remaining_def parseRunCursor_def is_zero_def newest_first_def\<close>)
  then show ?thesis
    using page_behind_cursor[OF up _ sent] stamps page_size_range[of limit] by blast
qed

section \<open>Witnesses\<close>

text \<open>Instants as unary numerals behind which a plus sign stands for the zone.\<close>

definition demo_stamp :: "gotime \<Rightarrow> string" where "demo_stamp t = unary_text t @ ''+''"

definition demo_parse :: "string \<Rightarrow> gotime option" where
  "demo_parse s = (if s = [] \<or> last s \<noteq> CHR ''+'' then None else Some (int (length s) - 1))"

definition demo_env :: "(unit, unit) api_env" where
  "demo_env = \<lparr>ev_cron = fixed_lib (every_tick minute), ev_tx = unary_text, ev_dn = demo_now, ev_stamp = demo_stamp,
     ev_stamp_utc = demo_stamp, ev_parse = demo_parse, ev_format = (\<lambda>_. demo_stamp),
     ev_info = \<lparr>ci_mode = ModeUI, ci_retention_days = 90, ci_log_retention_days = 30, ci_sample_interval = 15\<rparr>,
     ev_synced = [], ev_bc = new_broadcaster, ev_events = []\<rparr>"

definition demo_get :: "string \<Rightarrow> string list \<Rightarrow> request" where
  "demo_get q ps = \<lparr>rq_method = ''GET'', rq_path = ''/'', rq_query = q, rq_headers = [], rq_cookies = [], rq_remote = [],
     rq_now = 10, rq_email = [], rq_params = ps, rq_rand = [], rq_took = second\<rparr>"

definition demo_state :: "db \<Rightarrow> unit app_state exchange" where
  "demo_state db = \<lparr>x_headers = [], x_cookies = [], x_out = [], x_panic = False, x_pattern = [], x_login = Map.empty,
     x_trigger = Map.empty, x_counts = (\<lambda>_. 0), x_latency = (\<lambda>_. []), x_app = \<lparr>ap_db = db, ap_registry = NewRegistry, ap_kube = ()\<rparr>\<rparr>"

lemma demo_stamp_ok: "0 \<le> t \<Longrightarrow> stamp_ok demo_env t"
  by (simp add: stamp_ok_def demo_env_def demo_stamp_def demo_parse_def unary_text_def unescaped_def is_zero_def zero_time_def
      count_list_0_iff)

text \<open>The only line of the first run, served with a limit of one.\<close>

theorem logs_answer_truthful_witness:
  "\<exists>g. log_answer demo_env (demo_get ''limit=1'' [''r1'']) (demo_state demo_db) g
     \<and> map ll_line (lg_lines g) = [''a''] \<and> lg_truncated g \<and> \<not> lg_expired g"
proof -
  have db: "db_wf (store_of (demo_state demo_db))" "readable (store_of (demo_state demo_db))"
    "path_value (demo_get ''limit=1'' [''r1'']) 0 \<in> set (jr_ids (store_of (demo_state demo_db)))"
    using demo_wf demo_r1 demo_up by (simp_all add: demo_state_def demo_get_def path_value_def readable_def)
  have lim: "clampLimit (query_get (demo_get ''limit=1'' [''r1'']) ''limit'') 0 0 = 1" by code_simp
  have logs: "logs_of (store_of (demo_state demo_db)) (path_value (demo_get ''limit=1'' [''r1'']) 0)
      = [\<lparr>ll_id = 1, ll_run = ''r1'', ll_ts = 2, ll_line = ''a''\<rparr>]"
    by (simp add: demo_state_def demo_get_def path_value_def logs_of_def demo_defs)
  show ?thesis
    using logs_answer_truthful[OF db, of demo_env, THEN conjunct1] unfolding lim logs Let_def
    by (force simp: tail_of_def)
qed

theorem verdicts_agree_witness:
  "\<exists>cjs m n. cronJobRowInputs demo_env demo_db ''c'' = Inr (cjs, m, n)
     \<and> \<not> rw_concurrent (buildCronJobRow demo_env ''c'' demo_live (m ''live'') n 10)"
proof -
  let ?cl = "\<lparr>cl_id = ''c'', cl_name = ''c'', cl_metrics = False, cl_created = 1, cl_deleted = None\<rparr>"
  have db: "db_wf (store_of (demo_state demo_db))" "all_up (store_of (demo_state demo_db))"
    using demo_wf demo_all_up by (simp_all add: demo_state_def)
  have cl: "?cl \<in> set (db_clusters (store_of (demo_state demo_db)))" "cl_deleted ?cl = None"
    by (simp_all add: demo_state_def demo_defs)
  have c: "demo_live \<in> set (db_cronjobs (store_of (demo_state demo_db)))" "cj_cluster demo_live = cl_id ?cl"
    "cj_deleted demo_live = None" by (simp_all add: demo_state_def demo_live_def demo_defs)
  have req: "path_value (demo_get [] [''c'']) 0 = cl_id ?cl" by (simp add: path_value_def demo_get_def)
  have facts: "store_of (demo_state demo_db) = demo_db" "cl_id ?cl = ''c''" "cj_id demo_live = ''live''"
    "rq_now (demo_get [] [''c'']) = 10" "running_count demo_db ''live'' = 1"
    by (simp_all add: demo_state_def demo_get_def demo_live_def demo_cronjob_def running_count_def demo_defs)
  from verdicts_agree[OF db cl c req, of demo_env new_prom, unfolded facts Let_def] obtain cjs m n where
    "cronJobRowInputs demo_env demo_db ''c'' = Inr (cjs, m, n)"
    "rw_concurrent (buildCronJobRow demo_env ''c'' demo_live (m ''live'') n 10) \<longleftrightarrow> 1 < (1 :: int)" by blast
  then show ?thesis by auto
qed

theorem paging_enumerates_witness:
  "map jr_id (follow 3 demo_env unescaped demo_db ''live'' ''1'' []) = [''r2'', ''r1'']"
proof -
  have up: "db_down demo_db ''ListJobRunsPaged'' = None" by (simp add: demo_up)
  have runs: "runs_of demo_db ''live'' = [demo_run ''r1'' ''live'' 2 ''failed'', demo_run ''r2'' ''live'' 8 ''running'']"
    by (simp add: runs_of_def demo_db_def demo_run_def empty_db_def)
  have stamps: "\<forall>r \<in> set (runs_of demo_db ''live''). stamp_ok demo_env (jr_started r)"
    unfolding runs by (simp add: demo_run_def demo_stamp_ok)
  have size: "page_size ''1'' = 1" by code_simp
  have "distinct_starts (ev_tx demo_env) (runs_of demo_db ''live'')"
    unfolding runs by (simp add: distinct_starts_def demo_env_def demo_run_def unary_text_def)
  then have "follow 3 demo_env unescaped demo_db ''live'' ''1'' []
      = map scanJobRun (newest_first (ev_tx demo_env) (runs_of demo_db ''live''))"
    using paging_enumerates[OF up stamps, of unescaped "''1''" 3] by (simp add: size runs)
  moreover have "\<not> replicate 8 CHR ''x'' \<le> replicate 2 CHR ''x''" by (simp add: not_le replicate_less)
  ultimately show ?thesis
    unfolding runs by (simp add: newest_first_def demo_env_def demo_run_def unary_text_def)
qed

end
