(* ===== verification/Control_Props.thy ===== *)
theory Control_Props
  imports Controls Watch_Props
begin

text \<open>
  The life of a run that a person starts: what \<open>Trigger\<close> records, how the watcher, which never
  sees an owner on the Job, finds it again, and what a restart in between does to it.
\<close>

section \<open>Finding a run by its Job's name\<close>

lemma findRunID_found:
  assumes up: "all_up (w_db s)" and ix: "Index_Get (w_index s) job = []" and row: "run_row (w_db s) run = Some r"
    and r: "jr_status r = ''running''" "jr_pod r = job" and alone: "\<not> other_running (w_db s) job run"
  shows "findRunID s job = run"
proof -
  let ?rs = "map scanJobRun (filter (\<lambda>r. jr_status r = ''running'') (db_runs (w_db s)))"
  have pod: "jr_pod (scanJobRun x) = jr_pod x" for x by (simp add: scanJobRun_def split: option.split)
  have "r \<in> set (db_runs (w_db s))" using run_row_id[OF row] by simp
  then have "find (\<lambda>r. jr_pod r = job) ?rs \<noteq> None" using r pod by (auto simp: find_None_all)
  then obtain q where q: "find (\<lambda>r. jr_pod r = job) ?rs = Some q" by auto
  then have "q \<in> set ?rs" "jr_pod q = job" by (auto dest: find_Some_in)
  with alone pod have "jr_id q = run" by (auto simp: other_running_def)
  with q up ix show ?thesis by (simp add: findRunID_def GetRunningRuns_def sql_rows_def exec_sql_up all_upD)
qed

lemma unowned_ignored: "cronJobOwner j = None \<Longrightarrow> Job_OnAdd cl t ps (K_Job j) ini s = s"
  by (simp add: Job_OnAdd_def)

lemma recovered_untracked:
  assumes up: "all_up db" and wf: "db_wf db" and s: "w_db s = restart_recovery t db"
    and ix: "Index_Get (w_index s) job = []" and p: "jobOwner p = Some job"
  shows "Pod_OnUpdate cl m now (K_Pod p) s = s"
proof (rule Pod_OnUpdate_untracked[OF p findRunID_none[OF _ ix]])
  note eff = restart_recovery_effect[OF up wf, of t]
  show "all_up (w_db s)" using eff s by simp
  show "\<forall>r \<in> set (db_runs (w_db s)). \<not> (jr_status r = ''running'' \<and> jr_pod r = job)"
  proof
    fix r
    assume r: "r \<in> set (db_runs (w_db s))"
    have "run_row (w_db s) (jr_id r) = Some r" by (rule row_of_member[OF _ r]) (use eff s in simp)
    with eff s obtain r' where "r = (if jr_status r' = ''running'' then mark_failed t r' else r')" by force
    then show "\<not> (jr_status r = ''running'' \<and> jr_pod r = job)" by (auto split: if_splits)
  qed
qed

section \<open>Triggering\<close>

lemma Trigger_creates:
  assumes up: "all_up (store_of x)"
    and reg: "Registry_Get (ap_registry (x_app x)) (path_value r 0) = Some c"
    and get: "ka_get ka (cc_id c) (path_value r 1) (path_value r 2) (ap_kube (x_app x)) = Inr spec"
    and create: "ka_create ka (cc_id c) (trigger_job (path_value r 1) (path_value r 2) spec) (ap_kube (x_app x)) = (Inr j, k)"
    and known: "cronjob_key (path_value r 0) (path_value r 1) (path_value r 2) \<in> set (cj_ids (store_of x))"
    and fresh: "kj_uid j \<notin> set (jr_ids (store_of x))"
  shows "\<exists>db. UpsertJobRun (store_of x) (triggered_run (rq_now r) (path_value r 0) (path_value r 1) (path_value r 2) j) = Inr db
    \<and> all_up db
    \<and> Controls.Trigger ka r x = answer_json 201
        (J_Obj [(''run_id'', J_Str (kj_uid j)), (''pod_name'', J_Str (kj_name j))]) (set_store db (set_kube k x))
    \<and> (\<forall>i. run_row db i = (if i = kj_uid j
         then Some (new_run (triggered_run (rq_now r) (path_value r 0) (path_value r 1) (path_value r 2) j))
         else run_row (store_of x) i))"
proof -
  let ?run = "triggered_run (rq_now r) (path_value r 0) (path_value r 1) (path_value r 2) j"
  have ok: "trigger_ok (jr_trigger ?run)" "status_ok (jr_status ?run)" "jr_id ?run = kj_uid j"
    "jr_cronjob ?run = cronjob_key (path_value r 0) (path_value r 1) (path_value r 2)"
    by (simp_all add: triggered_run_def trigger_ok_def status_ok_def cronjob_id_text)
  have none: "run_row (store_of x) (kj_uid j) = None" using fresh run_row_in by blast
  from UpsertJobRun_up[OF up ok(1,2)] known ok(3,4) none obtain db where db:
    "UpsertJobRun (store_of x) ?run = Inr db" "all_up db"
    "\<forall>i. run_row db i = (if i = kj_uid j then Some (new_run ?run) else run_row (store_of x) i)" by auto
  then show ?thesis by (intro exI[of _ db]) (simp add: Trigger_def Let_def reg get[unfolded One_nat_def] create[unfolded One_nat_def])
qed

text \<open>
  C39. A triggered run's life. \<open>Trigger\<close> answers 201 with the created Job's uid and name and
  records one running manual run of the CronJob under that uid; no other run changes. The
  watcher ignores the Job, which has no owner, but the end of its pod finds the run by the
  Job's name and completes it, as long as no other run in flight carries that name. Two things
  break that: the end of the pod seen before the run is recorded changes nothing, so that the
  run recorded afterwards stays in flight; and after a restart in between the run is failed with
  exit code -1 for good, whatever the Job's and its pod's events say.
\<close>

theorem triggered_run_lifecycle:
  fixes x :: "'k app_state exchange"
  assumes up: "all_up (store_of x)" and wf: "db_wf (store_of x)"
    and reg: "Registry_Get (ap_registry (x_app x)) (path_value r 0) = Some c"
    and get: "ka_get ka (cc_id c) (path_value r 1) (path_value r 2) (ap_kube (x_app x)) = Inr spec"
    and create: "ka_create ka (cc_id c) (trigger_job (path_value r 1) (path_value r 2) spec) (ap_kube (x_app x)) = (Inr j, k)"
    and known: "cronjob_key (path_value r 0) (path_value r 1) (path_value r 2) \<in> set (cj_ids (store_of x))"
    and fresh: "kj_uid j \<notin> set (jr_ids (store_of x))" "kj_uid j \<noteq> []" and unowned: "cronJobOwner j = None"
    and alone: "\<not> other_running (store_of x) (kj_name j) (kj_uid j)"
  shows "\<exists>db r0. Controls.Trigger ka r x = answer_json 201
        (J_Obj [(''run_id'', J_Str (kj_uid j)), (''pod_name'', J_Str (kj_name j))]) (set_store db (set_kube k x))
    \<and> run_row db (kj_uid j) = Some r0 \<and> jr_status r0 = ''running'' \<and> jr_trigger r0 = ''manual''
    \<and> jr_cronjob r0 = cronjob_key (path_value r 0) (path_value r 1) (path_value r 2)
    \<and> (\<forall>i. i \<noteq> kj_uid j \<longrightarrow> run_row db i = run_row (store_of x) i)
    \<and> (\<forall>cl t ps ini s. Job_OnAdd cl t ps (K_Job j) ini s = s)
    \<and> (\<forall>s p. Index_Get (w_index s) (kj_name j) = [] \<and> jobOwner p = Some (kj_name j) \<longrightarrow>
         (w_db s = db \<and> terminal_phase (kp_phase p) \<longrightarrow>
            (\<forall>cl m now st f ex retry. pod_finish now p = (st, f, ex, retry) \<longrightarrow>
               run_row (w_db (Pod_OnUpdate cl m now (K_Pod p) s)) (kj_uid j) = Some (with_status st f ex retry r0)))
         \<and> (w_db s = store_of x \<longrightarrow> (\<forall>cl m now. Pod_OnUpdate cl m now (K_Pod p) s = s))
         \<and> (\<forall>t. w_db s = restart_recovery t db \<longrightarrow> run_row (w_db s) (kj_uid j) = Some (mark_failed t r0)
              \<and> (\<forall>cl m now. Pod_OnUpdate cl m now (K_Pod p) s = s)))"
proof -
  let ?run = "triggered_run (rq_now r) (path_value r 0) (path_value r 1) (path_value r 2) j"
  from Trigger_creates[OF up reg get create known fresh(1)] obtain db where db:
    "UpsertJobRun (store_of x) ?run = Inr db" "all_up db"
    "Controls.Trigger ka r x = answer_json 201
        (J_Obj [(''run_id'', J_Str (kj_uid j)), (''pod_name'', J_Str (kj_name j))]) (set_store db (set_kube k x))"
    and rows: "\<And>i. run_row db i = (if i = kj_uid j then Some (new_run ?run) else run_row (store_of x) i)" by blast
  have wf': "db_wf db" by (rule UpsertJobRun_wf[OF wf db(1)])
  have r0: "jr_status (new_run ?run) = ''running''" "jr_trigger (new_run ?run) = ''manual''" "jr_pod (new_run ?run) = kj_name j"
    "jr_cronjob (new_run ?run) = cronjob_key (path_value r 0) (path_value r 1) (path_value r 2)"
    by (simp_all add: new_run_def triggered_run_def cronjob_id_text)
  have row: "run_row db (kj_uid j) = Some (new_run ?run)" using rows by simp
  have alone': "\<not> other_running db (kj_name j) (kj_uid j)"
  proof
    assume "other_running db (kj_name j) (kj_uid j)"
    then obtain q where q: "q \<in> set (db_runs db)" "jr_pod q = kj_name j" "jr_status q = ''running''" "jr_id q \<noteq> kj_uid j"
      by (auto simp: other_running_def)
    with row_of_member[OF wf' q(1)] rows have "run_row (store_of x) (jr_id q) = Some q" by simp
    with q alone show False by (auto simp: other_running_def dest: run_row_id)
  qed
  have completes: "run_row (w_db (Pod_OnUpdate cl m now (K_Pod p) s)) (kj_uid j) = Some (with_status st f ex retry (new_run ?run))"
    if s: "Index_Get (w_index s) (kj_name j) = []" "jobOwner p = Some (kj_name j)" "w_db s = db"
      "terminal_phase (kp_phase p)" "pod_finish now p = (st, f, ex, retry)" for s p cl m now st f ex retry
  proof -
    have "findRunID s (kj_name j) = kj_uid j"
      by (rule findRunID_found[OF _ s(1)]) (use s(3) db(2) row r0 alone' in simp_all)
    from Pod_OnUpdate_terminal[OF s(2) this fresh(2) s(4)] show ?thesis
      using pod_terminal_effect(2)[of s now p st f ex retry "kj_uid j" "new_run ?run"] s db(2) row by simp
  qed
  have early: "Pod_OnUpdate cl m now (K_Pod p) s = s"
    if s: "Index_Get (w_index s) (kj_name j) = []" "jobOwner p = Some (kj_name j)" "w_db s = store_of x" for s p cl m now
  proof (rule Pod_OnUpdate_untracked[OF s(2) findRunID_none[OF _ s(1)]])
    show "\<forall>q \<in> set (db_runs (w_db s)). \<not> (jr_status q = ''running'' \<and> jr_pod q = kj_name j)"
    proof (intro ballI notI)
      fix q
      assume q: "q \<in> set (db_runs (w_db s))" "jr_status q = ''running'' \<and> jr_pod q = kj_name j"
      with alone s(3) have "jr_id q = kj_uid j" by (auto simp: other_running_def)
      moreover have "jr_id q \<in> set (jr_ids (store_of x))" using q(1) s(3) by (simp add: jr_ids_def)
      ultimately show False using fresh(1) by simp
    qed
  qed (use up s in simp)
  have restarted: "run_row (w_db s) (kj_uid j) = Some (mark_failed t (new_run ?run))
      \<and> (\<forall>cl m now. Pod_OnUpdate cl m now (K_Pod p) s = s)"
    if s: "Index_Get (w_index s) (kj_name j) = []" "jobOwner p = Some (kj_name j)" "w_db s = restart_recovery t db" for s p t
    using recovered_untracked[OF db(2) wf' s(3,1,2)] restart_recovery_effect[OF db(2) wf', of t] row r0(1) s(3) by simp
  show ?thesis
    by (rule exI[of _ db], rule exI[of _ "new_run ?run"])
      (use db(3) row rows r0 unowned_ignored[OF unowned] completes early restarted in auto)
qed

text \<open>Witness: the CronJob of the first namespace is triggered, and its pod succeeds.\<close>

definition trigger_api :: "(unit, unit) kube_api" where
  "trigger_api = \<lparr>ka_patch = (\<lambda>c ns nm p k. (Inr (), k)), ka_get = (\<lambda>c ns nm k. Inr ()),
     ka_create = (\<lambda>c j k. (Inr \<lparr>kj_ns = nj_ns j, kj_name = ''p'', kj_uid = ''u9'', kj_labels = map_of (nj_labels j),
       kj_owners = [], kj_start = None, kj_completion = None, kj_conditions = []\<rparr>, k))\<rparr>"

definition trigger_request :: request where
  "trigger_request = \<lparr>rq_method = ''POST'', rq_path = ''/'', rq_query = [], rq_headers = [], rq_cookies = [], rq_remote = [],
     rq_now = 7, rq_email = [], rq_params = [''c'', ''a'', ''live''], rq_rand = [], rq_took = second\<rparr>"

definition trigger_state :: "unit app_state exchange" where
  "trigger_state = \<lparr>x_headers = [], x_cookies = [], x_out = [], x_panic = False, x_pattern = [], x_login = Map.empty,
     x_trigger = Map.empty, x_counts = (\<lambda>_. 0), x_latency = (\<lambda>_. []),
     x_app = \<lparr>ap_db = demo_twins, ap_registry = Register NewRegistry \<lparr>cc_id = ''c'', cc_metrics_client = No_Client,
       cc_metrics_on = False\<rparr>, ap_kube = ()\<rparr>\<rparr>"

theorem triggered_run_lifecycle_witness:
  "\<exists>db r0. run_row db ''u9'' = Some r0 \<and> jr_trigger r0 = ''manual''
     \<and> store_of (Controls.Trigger trigger_api trigger_request trigger_state) = db
     \<and> run_row (w_db (Pod_OnUpdate ''c'' True 30 (K_Pod demo_pod) (demo_watch db\<lparr>w_index := NewRunIndex\<rparr>))) ''u9''
         = Some (with_status ''succeeded'' 20 0 0 r0)"
proof -
  let ?j = "\<lparr>kj_ns = ''a'', kj_name = ''p'', kj_uid = ''u9'', kj_labels = map_of [(''kubecron/trigger'', ''manual'')],
       kj_owners = [], kj_start = None, kj_completion = None, kj_conditions = []\<rparr>"
  let ?c = "\<lparr>cc_id = ''c'', cc_metrics_client = No_Client, cc_metrics_on = False\<rparr>"
  have db: "all_up (store_of trigger_state)" "db_wf (store_of trigger_state)"
    using demo_twins_facts by (simp_all add: trigger_state_def)
  have reg: "Registry_Get (ap_registry (x_app trigger_state)) (path_value trigger_request 0) = Some ?c"
    by (simp add: trigger_state_def trigger_request_def path_value_def Registry_Get_def Register_def)
  have get: "ka_get trigger_api (cc_id ?c) (path_value trigger_request 1) (path_value trigger_request 2) (ap_kube (x_app trigger_state)) = Inr ()"
    by (simp add: trigger_api_def)
  have create: "ka_create trigger_api (cc_id ?c) (trigger_job (path_value trigger_request 1) (path_value trigger_request 2) ())
      (ap_kube (x_app trigger_state)) = (Inr ?j, ())"
    by (simp add: trigger_api_def trigger_job_def trigger_request_def path_value_def)
  have known: "cronjob_key (path_value trigger_request 0) (path_value trigger_request 1) (path_value trigger_request 2)
      \<in> set (cj_ids (store_of trigger_state))"
    by (simp add: trigger_request_def path_value_def trigger_state_def demo_twins_facts cronjob_key_def)
  have runs: "db_runs (store_of trigger_state) = []" by (simp add: trigger_state_def demo_twins_def)
  have rest: "kj_uid ?j \<notin> set (jr_ids (store_of trigger_state))" "kj_uid ?j \<noteq> []" "cronJobOwner ?j = None"
    "\<not> other_running (store_of trigger_state) (kj_name ?j) (kj_uid ?j)"
    using runs by (simp_all add: jr_ids_def cronJobOwner_def owner_of_def other_running_def)
  obtain db r0 where h: "Controls.Trigger trigger_api trigger_request trigger_state = answer_json 201
        (J_Obj [(''run_id'', J_Str (kj_uid ?j)), (''pod_name'', J_Str (kj_name ?j))]) (set_store db (set_kube () trigger_state))"
    "run_row db (kj_uid ?j) = Some r0" "jr_trigger r0 = ''manual''"
    "\<forall>s p. Index_Get (w_index s) (kj_name ?j) = [] \<and> jobOwner p = Some (kj_name ?j) \<longrightarrow>
         (w_db s = db \<and> terminal_phase (kp_phase p) \<longrightarrow>
            (\<forall>cl m now st f ex retry. pod_finish now p = (st, f, ex, retry) \<longrightarrow>
               run_row (w_db (Pod_OnUpdate cl m now (K_Pod p) s)) (kj_uid ?j) = Some (with_status st f ex retry r0)))"
    using triggered_run_lifecycle[OF db reg get create known rest]
    by (elim exE conjE) (rule that, assumption, assumption, assumption, simp)
  let ?s = "demo_watch db\<lparr>w_index := NewRunIndex\<rparr>"
  have s: "Index_Get (w_index ?s) (kj_name ?j) = []" "jobOwner demo_pod = Some (kj_name ?j)" "w_db ?s = db"
    using demo_pod_facts(1) by (simp_all add: demo_watch_def Index_Get_def NewRunIndex_def)
  have "run_row (w_db (Pod_OnUpdate ''c'' True 30 (K_Pod demo_pod) ?s)) (kj_uid ?j) = Some (with_status ''succeeded'' 20 0 0 r0)"
    by (rule h(4)[rule_format, OF conjI[OF s(1,2)] conjI[OF s(3) demo_pod_facts(2)] demo_pod_facts(3)])
  then show ?thesis using h(1-3) by (intro exI[of _ db] exI[of _ r0]) (simp add: answer_json_def)
qed

end
