(* ===== verification/Html_Props.thy ===== *)
theory Html_Props
  imports Run_Pages Store_Props
begin

text \<open>
  What a browser makes of the rows and lines the templates produce: a scanner that separates
  markup from data, a check of the templates against it, and the proof that nothing stored in
  the database (job names, schedules, node names, log lines) can add markup to a page.
\<close>

section \<open>The scanner\<close>

text \<open>
  The part of HTML's tokenizer the templates use: text, the inside of a tag, and a value between
  double quotes inside a tag. (Scripts and comments occur in no template that takes data of a
  row or a line.) \<open>markup\<close> keeps what is neither text nor the inside of a value.
\<close>

datatype ctx = Text | Tag | Quoted

fun next_ctx :: "ctx \<Rightarrow> char \<Rightarrow> ctx" where
  "next_ctx Text c = (if c = CHR ''<'' then Tag else Text)"
| "next_ctx Tag c = (if c = CHR ''>'' then Text else if c = CHR 0x22 then Quoted else Tag)"
| "next_ctx Quoted c = (if c = CHR 0x22 then Tag else Quoted)"

fun is_markup :: "ctx \<Rightarrow> char \<Rightarrow> bool" where
  "is_markup Text c = (c = CHR ''<'')"
| "is_markup Tag c = True"
| "is_markup Quoted c = (c = CHR 0x22)"

fun markup :: "ctx \<Rightarrow> string \<Rightarrow> string" where
  "markup q [] = []"
| "markup q (c # s) = (if is_markup q c then [c] else []) @ markup (next_ctx q c) s"

fun end_ctx :: "ctx \<Rightarrow> string \<Rightarrow> ctx" where
  "end_ctx q [] = q"
| "end_ctx q (c # s) = end_ctx (next_ctx q c) s"

lemma scan_append [simp]:
  "markup q (s @ t) = markup q s @ markup (end_ctx q s) t" "end_ctx q (s @ t) = end_ctx (end_ctx q s) t"
  by (induction s arbitrary: q) simp_all

text \<open>Data that is no markup wherever it stands outside a tag.\<close>

definition inert :: "string \<Rightarrow> bool" where
  "inert s \<longleftrightarrow> (\<forall>c \<in> set s. c \<noteq> CHR ''<'' \<and> c \<noteq> CHR ''>'' \<and> c \<noteq> CHR 0x22)"

lemma inert_simps [simp]:
  "inert []" "inert (s @ t) \<longleftrightarrow> inert s \<and> inert t"
  "inert (c # s) \<longleftrightarrow> c \<noteq> CHR ''<'' \<and> c \<noteq> CHR ''>'' \<and> c \<noteq> CHR 0x22 \<and> inert s"
  by (auto simp: inert_def)

lemma inert_scan: "inert s \<Longrightarrow> q \<noteq> Tag \<Longrightarrow> markup q s = [] \<and> end_ctx q s = q"
  by (induction s) (cases q; auto)+

lemma inert_concat: "(\<And>x. x \<in> set xs \<Longrightarrow> inert (f x)) \<Longrightarrow> inert (concat (map f xs))"
  by (induction xs) auto

lemma inert_escape [simp]: "inert (escape_string s)"
  unfolding escape_string_def by (rule inert_concat) (simp add: escape_char_def)

lemma inert_nat_text [simp]: "inert (nat_text n)"
  using nat_text_digits by (fastforce simp: inert_def byte_def)

lemma inert_int_text [simp]: "inert (int_text n)"
  by (simp add: int_text_def)

lemma inert_fixed [simp]: "inert (fixed d q)"
proof -
  have "inert (replicate n CHR ''0'')" for n by (simp add: inert_def)
  then show ?thesis by (simp add: fixed_def Let_def)
qed

lemma inert_join: "inert sep \<Longrightarrow> (\<And>x. x \<in> set xs \<Longrightarrow> inert x) \<Longrightarrow> inert (join_with sep xs)"
  by (induction sep xs rule: join_with.induct) auto

lemma inert_format: "inert t \<Longrightarrow> \<forall>a \<in> set as. inert a \<Longrightarrow> inert (format_from v t as)"
  by (induction v t as rule: format_from.induct) (auto split: list.splits)

lemma inert_Sprintf: "inert t \<Longrightarrow> \<forall>a \<in> set as. inert a \<Longrightarrow> inert (Sprintf t as)"
  by (simp add: Sprintf_def inert_format)

lemma inert_texts [simp]: "inert (fmtDuration d)"
  by (simp add: fmtDuration_def inert_Sprintf)

section \<open>Templates\<close>

text \<open>
  A verb takes data (\<open>False\<close>), in text or in a value, or a piece of markup (\<open>True\<close>), in text only.
\<close>

fun tscan :: "ctx \<Rightarrow> bool \<Rightarrow> string \<Rightarrow> bool list \<Rightarrow> ctx option" where
  "tscan q v [] ks = (if ks = [] then Some q else None)"
| "tscan q False (c # t) ks = (if c = CHR ''%'' then tscan q True t ks else tscan (next_ctx q c) False t ks)"
| "tscan q True (c # t) ks =
     (if c = CHR ''%'' then tscan (next_ctx q c) False t ks
      else if is_verb c then
        (case ks of
           [] \<Rightarrow> None
         | k # ks' \<Rightarrow> if q = Text \<or> (q = Quoted \<and> \<not> k) then tscan q False t ks' else None)
      else tscan q True t ks)"

definition same_markup :: "string \<Rightarrow> string \<Rightarrow> bool" where
  "same_markup a b \<longleftrightarrow> end_ctx Text a = Text \<and> end_ctx Text b = Text \<and> markup Text a = markup Text b"

fun fits :: "bool \<Rightarrow> string \<Rightarrow> string \<Rightarrow> bool" where
  "fits False a b = (inert a \<and> inert b)"
| "fits True a b = same_markup a b"

fun agree :: "bool list \<Rightarrow> string list \<Rightarrow> string list \<Rightarrow> bool" where
  "agree [] [] [] = True"
| "agree (k # ks) (a # as) (b # bs) = (fits k a b \<and> agree ks as bs)"
| "agree _ _ _ = False"

lemma fits_scan:
  assumes "fits k a b" and "q = Text \<or> (q = Quoted \<and> \<not> k)"
  shows "markup q a = markup q b \<and> end_ctx q a = q \<and> end_ctx q b = q"
  using assms inert_scan[of a q] inert_scan[of b q] by (cases k) (auto simp: same_markup_def)

lemma agree_Cons: "agree (k # ks) as bs \<longleftrightarrow> (\<exists>a as' b bs'. as = a # as' \<and> bs = b # bs' \<and> fits k a b \<and> agree ks as' bs')"
  by (cases as; cases bs) auto

lemma agree_Nil [simp]: "agree [] as bs \<longleftrightarrow> as = [] \<and> bs = []"
  by (cases as; cases bs) auto

text \<open>A template that scans produces the same markup from arguments of the same kinds.\<close>

lemma tscan_sound:
  "tscan q v t ks = Some q' \<Longrightarrow> agree ks as bs \<Longrightarrow>
     markup q (format_from v t as) = markup q (format_from v t bs)
     \<and> end_ctx q (format_from v t as) = q' \<and> end_ctx q (format_from v t bs) = q'"
proof (induction q v t ks arbitrary: as bs rule: tscan.induct)
  case (3 q c t ks)
  show ?case
  proof (cases "c = CHR ''%''")
    case True
    with 3 show ?thesis by simp
  next
    case pct: False
    show ?thesis
    proof (cases "is_verb c")
      case True
      with 3(4) pct obtain k ks' where ks: "ks = k # ks'" "q = Text \<or> (q = Quoted \<and> \<not> k)" "tscan q False t ks' = Some q'"
        by (auto split: list.splits if_splits)
      with 3(5) obtain a as' b bs' where ab: "as = a # as'" "bs = b # bs'" "fits k a b" "agree ks' as' bs'"
        by (auto simp: agree_Cons)
      show ?thesis
        using 3(2)[OF pct True ks(1,2,3) ab(4)] fits_scan[OF ab(3) ks(2)] pct True ab(1,2) by simp
    next
      case False
      with 3 pct show ?thesis by simp
    qed
  qed
qed (auto split: if_splits)

lemma Sprintf_markup:
  "tscan Text False t ks = Some Text \<Longrightarrow> agree ks as bs \<Longrightarrow> same_markup (Sprintf t as) (Sprintf t bs)"
  using tscan_sound[of Text False t ks Text as bs] by (simp add: same_markup_def Sprintf_def)

text \<open>\<open>piece M a\<close>: the text \<open>a\<close> is complete and its markup is \<open>M\<close>.\<close>

definition piece :: "string \<Rightarrow> string \<Rightarrow> bool" where
  "piece m a \<longleftrightarrow> end_ctx Text a = Text \<and> markup Text a = m"

lemma piece_same: "piece m a \<Longrightarrow> piece m b \<Longrightarrow> same_markup a b"
  by (simp add: piece_def same_markup_def)

lemma piece_append: "piece m a \<Longrightarrow> piece n b \<Longrightarrow> piece (m @ n) (a @ b)"
  by (simp add: piece_def)

lemma piece_inert: "inert a \<Longrightarrow> piece [] a"
  using inert_scan[of a Text] by (simp add: piece_def)

lemma piece_Sprintf:
  assumes "tscan Text False t ks = Some Text" and "agree ks bs as" and "markup Text (Sprintf t bs) = m"
  shows "piece m (Sprintf t as)"
  using Sprintf_markup[OF assms(1,2)] assms(3) by (simp add: same_markup_def piece_def)

lemma same_markup_append [simp]: "same_markup a b \<Longrightarrow> same_markup c d \<Longrightarrow> same_markup (a @ c) (b @ d)"
  by (simp add: same_markup_def)

lemma same_markup_inert: "inert a \<Longrightarrow> inert b \<Longrightarrow> same_markup a b"
  by (rule piece_same[of "[]"]) (simp_all add: piece_inert)

lemma same_markup_refl: "end_ctx Text a = Text \<Longrightarrow> same_markup a a"
  by (simp add: same_markup_def)

section \<open>The pieces of the rows\<close>

definition styled :: string where "styled = ''<span style=\"\"></span>''"
definition classed :: string where "classed = ''<span class=\"\"></span>''"
definition classed_styled :: string where "classed_styled = ''<span class=\"\" style=\"\"></span>''"

lemma piece_status: "piece classed (statusBadge a)"
  unfolding statusBadge_def
  by (rule piece_Sprintf[where ks = "[False, False]" and bs = "[[], []]"]) (code_simp, simp, code_simp)

lemma piece_line: "piece ''<div class=\"\" data-raw=\"\"></div>'' (log_line_div a)"
  unfolding log_line_div_def
  by (rule piece_Sprintf[where ks = "[False, False]" and bs = "[[], []]"]) (code_simp, simp, code_simp)

lemma piece_no_value: "piece styled no_value"
  by code_simp

lemma piece_duration: "piece styled (duration_cell r)"
proof -
  have "piece styled (Sprintf ''<span style=\"font-family:var(--font-mono);\">%s</span>'' [fmtDuration d])" for d
    by (rule piece_Sprintf[where ks = "[False]" and bs = "[[]]"]) (code_simp, simp, code_simp)
  then show ?thesis by (simp add: duration_cell_def piece_no_value split: option.split)
qed

lemma piece_exit: "piece styled (exit_cell r)"
proof -
  have "piece styled (Sprintf ''<span style=\"font-family:var(--font-mono);color:%s;\">%d</span>''
      [if n \<noteq> 0 then ''var(--red)'' else ''var(--accent)'', int_text n])" for n
    by (rule piece_Sprintf[where ks = "[False, False]" and bs = "[[], []]"]) (code_simp, simp, code_simp)
  then show ?thesis by (simp add: exit_cell_def piece_no_value split: option.split)
qed

lemma piece_trigger: "piece classed_styled (trigger_cell r)"
proof -
  have "piece classed_styled ''<span class=\"badge\" style=\"border:1px solid var(--accent);color:var(--accent);\">manual</span>''"
    "piece classed_styled ''<span class=\"badge\" style=\"border:1px solid var(--border);color:var(--muted);\">scheduled</span>''"
    by code_simp+
  then show ?thesis by (simp add: trigger_cell_def)
qed

lemma run_row_scan:
  "tscan Text False run_row_template [False, False, False, False, False, False, True, True, False, True, True, False] = Some Text"
  by code_simp

lemma run_row_markup: "same_markup (renderRunRow fm r cl ns nm) (renderRunRow fm' r' cl' ns' nm')"
  unfolding renderRunRow_def
  by (rule Sprintf_markup[OF run_row_scan])
    (simp add: piece_same[OF piece_trigger piece_trigger] piece_same[OF piece_status piece_status]
      piece_same[OF piece_duration piece_duration] piece_same[OF piece_exit piece_exit])

text \<open>The markup of a CronJob's row depends on these marks of it.\<close>

definition row_marks :: "cronjob_row \<Rightarrow> bool list" where
  "row_marks d =
     [cj_suspended (rw_cronjob d), rw_missed d, TZ (rw_cronjob d) = [], rw_schedule_error d, rw_last d = None,
      rw_concurrent d, rw_durations d = [], cj_cpu_request (rw_cronjob d) = None, cj_mem_request (rw_cronjob d) = None]"

lemma piece_suspend: "piece ''<button class=\"\" style=\"\"
			  hx-post=\"\"
			  hx-confirm=\"\"
			  hx-swap=\"\"
			  hx-on::after-request=\"\"></button>'' (Sprintf (if b then resume_template else suspend_template) [escape_string w, escape_string x, escape_string y, escape_string z])"
  by (cases b; simp only: if_True if_False;
      rule piece_Sprintf[where ks = "[False, False, False, False]" and bs = "[[], [], [], []]"]) (code_simp, simp, code_simp)+

lemma trigger_markup: "same_markup (Sprintf trigger_template [escape_string a, escape_string b, escape_string c, escape_string d, escape_string e, escape_string f, escape_string g])
   (Sprintf trigger_template [escape_string a', escape_string b', escape_string c', escape_string d', escape_string e', escape_string f', escape_string g'])"
  by (rule Sprintf_markup[where ks = "[False, False, False, False, False, False, False]"]) (code_simp, simp)

lemma actions_markup: "same_markup (actionButtons cl ns nm s) (actionButtons cl' ns' nm' s')"
  unfolding actionButtons_def Let_def
  by (rule same_markup_append[OF piece_same[OF piece_suspend piece_suspend] trigger_markup])

lemma same_markup_if: "end_ctx Text a = Text \<Longrightarrow> b = b' \<Longrightarrow> same_markup (if b then a else []) (if b' then a else [])"
  by (simp add: same_markup_def)

lemma last_status_markup:
  assumes "rw_last d = None \<longleftrightarrow> rw_last d' = None" and "rw_concurrent d = rw_concurrent d'"
  shows "same_markup (last_status_cell d) (last_status_cell d')"
  unfolding last_status_cell_def
proof (rule same_markup_append)
  show "same_markup (case rw_last d of None \<Rightarrow> no_value | Some r \<Rightarrow> statusBadge (jr_status r))
      (case rw_last d' of None \<Rightarrow> no_value | Some r \<Rightarrow> statusBadge (jr_status r))"
    using assms(1) piece_same[OF piece_no_value piece_no_value] piece_same[OF piece_status piece_status]
    by (auto split: option.split)
qed (rule same_markup_if[OF _ assms(2)], code_simp)

lemma name_tags_markup:
  assumes "cj_suspended (rw_cronjob d) = cj_suspended (rw_cronjob d')" and "rw_missed d = rw_missed d'"
  shows "same_markup (name_tags d) (name_tags d')"
  unfolding name_tags_def
  by (rule same_markup_append; rule same_markup_if[OF _ assms(1)] same_markup_if[OF _ assms(2)], code_simp)

lemma schedule_markup:
  assumes "TZ c = [] \<longleftrightarrow> TZ c' = []"
  shows "same_markup (schedule_cell c) (schedule_cell c')"
  unfolding schedule_cell_def
proof (rule same_markup_append)
  show "same_markup (Sprintf ''<code style=\"font-size:0.8rem;color:var(--muted);\">%s</code>'' [escape_string (cj_schedule c)])
      (Sprintf ''<code style=\"font-size:0.8rem;color:var(--muted);\">%s</code>'' [escape_string (cj_schedule c')])"
    by (rule Sprintf_markup[where ks = "[False]"]) (code_simp, simp)
  have "same_markup (Sprintf ''<br><span style=\"font-family:var(--font-mono);font-size:0.7rem;color:var(--muted);opacity:0.75;\" title=\"CronJob spec.timeZone\">%s</span>'' [escape_string a])
      (Sprintf ''<br><span style=\"font-family:var(--font-mono);font-size:0.7rem;color:var(--muted);opacity:0.75;\" title=\"CronJob spec.timeZone\">%s</span>'' [escape_string b])" for a b
    by (rule Sprintf_markup[where ks = "[False]"]) (code_simp, simp)
  then show "same_markup (if TZ c \<noteq> [] then Sprintf ''<br><span style=\"font-family:var(--font-mono);font-size:0.7rem;color:var(--muted);opacity:0.75;\" title=\"CronJob spec.timeZone\">%s</span>'' [escape_string (TZ c)] else [])
      (if TZ c' \<noteq> [] then Sprintf ''<br><span style=\"font-family:var(--font-mono);font-size:0.7rem;color:var(--muted);opacity:0.75;\" title=\"CronJob spec.timeZone\">%s</span>'' [escape_string (TZ c')] else [])"
    using assms same_markup_refl[of "[]"] by simp
qed

lemma next_run_markup:
  assumes "rw_schedule_error d = rw_schedule_error d'"
    and "inert (fm ''02/01 15:04'' (rw_next d))" and "inert (fm' ''02/01 15:04'' (rw_next d'))"
  shows "same_markup (next_run_cell fm d) (next_run_cell fm' d')"
proof -
  have "end_ctx Text ''<span class=\"badge\" style=\"border-color:rgba(252,129,129,0.4);color:var(--red);\" title=\"Unparseable schedule or unknown time zone\">unresolved</span>'' = Text"
    by code_simp
  moreover have "same_markup (countdownSpan fm (rw_next d)) (countdownSpan fm' (rw_next d'))"
    unfolding countdownSpan_def
    by (rule Sprintf_markup[where ks = "[False, False]"]) (code_simp, use assms in simp)
  ultimately show ?thesis using assms(1) same_markup_refl by (simp add: next_run_cell_def)
qed

lemma spark_inert: "inert (join_with '' '' (map (spark_point n peak) xs))"
  by (rule inert_join) (auto simp: spark_point_def inert_Sprintf split: prod.split)

definition spark_markup :: string where
  "spark_markup = (''<svg width=\"\" height=\"\" viewBox=\"\" style=\"\">''
     @ ''<polyline points=\"\" fill=\"\" stroke=\"\" stroke-width=\"\" stroke-linejoin=\"\"/>'') @ ''</svg>''"

lemma piece_spark: "ds \<noteq> [] \<Longrightarrow> piece spark_markup (sparklineSVG ds)"
proof -
  assume ds: "ds \<noteq> []"
  have svg: "piece ''<svg width=\"\" height=\"\" viewBox=\"\" style=\"\">''
      (Sprintf ''<svg width=\"%d\" height=\"%d\" viewBox=\"0 0 %d %d\" style=\"vertical-align:middle;margin-left:6px;\">'' [''60'', ''16'', ''60'', ''16''])"
    by code_simp
  have line: "piece ''<polyline points=\"\" fill=\"\" stroke=\"\" stroke-width=\"\" stroke-linejoin=\"\"/>''
      (Sprintf ''<polyline points=\"%s\" fill=\"none\" stroke=\"var(--accent)\" stroke-width=\"1.5\" stroke-linejoin=\"round\"/>''
         [join_with '' '' (map (spark_point n peak) xs)])" for n peak xs
    by (rule piece_Sprintf[where ks = "[False]" and bs = "[[]]"]) (code_simp, simp add: spark_inert, code_simp)
  have close: "piece ''</svg>'' ''</svg>''" by code_simp
  show ?thesis
    unfolding sparklineSVG_def Let_def spark_markup_def if_not_P[OF ds]
    using piece_append[OF piece_append[OF svg line] close] by (simp only: append_assoc)
qed

lemma spark_markup_same: "ds = [] \<longleftrightarrow> ds' = [] \<Longrightarrow> same_markup (sparklineSVG ds) (sparklineSVG ds')"
  using piece_same[OF piece_spark piece_spark, of ds ds']
  by (cases "ds = []") (simp_all add: sparklineSVG_def[of "[]"] same_markup_inert)

lemma stats_markup:
  assumes "rw_durations d = [] \<longleftrightarrow> rw_durations d' = []"
  shows "same_markup (stats_cell d) (stats_cell d')"
proof -
  have "piece styled (Sprintf ''<span style=\"font-family:var(--font-mono);font-size:0.8rem;color:%s;\">%d/%d</span>''
      [if a then ''var(--red)'' else if b then ''var(--yellow)'' else ''var(--green)'', int_text m, int_text n])" for a b m n
    by (rule piece_Sprintf[where ks = "[False, False, False]" and bs = "[[], [], []]"]) (code_simp, simp, code_simp)
  then have "piece styled (case rw_stats d of None \<Rightarrow> no_value | Some s \<Rightarrow>
          (if st_total s > 0 then
             Sprintf ''<span style=\"font-family:var(--font-mono);font-size:0.8rem;color:%s;\">%d/%d</span>''
               [if st_succeeded s = 0 then ''var(--red)''
                else if st_failed s > 0 then ''var(--yellow)'' else ''var(--green)'',
                int_text (st_succeeded s), int_text (st_total s)]
           else no_value))" for d
    by (simp add: piece_no_value split: option.split)
  from same_markup_append[OF piece_same[OF this this] spark_markup_same[OF assms]]
  show ?thesis unfolding stats_cell_def .
qed

lemma resources_markup:
  assumes "cj_cpu_request c = None \<longleftrightarrow> cj_cpu_request c' = None" and "cj_mem_request c = None \<longleftrightarrow> cj_mem_request c' = None"
  shows "same_markup (resources_cell c) (resources_cell c')"
proof -
  have cpu: "same_markup (Sprintf ''<span class=\"badge\" style=\"margin-right:3px;\">cpu:%s</span>'' [escape_string a])
      (Sprintf ''<span class=\"badge\" style=\"margin-right:3px;\">cpu:%s</span>'' [escape_string b])" for a b
    by (rule Sprintf_markup[where ks = "[False]"]) (code_simp, simp)
  have mem: "same_markup (Sprintf ''<span class=\"badge\">mem:%s</span>'' [escape_string a])
      (Sprintf ''<span class=\"badge\">mem:%s</span>'' [escape_string b])" for a b
    by (rule Sprintf_markup[where ks = "[False]"]) (code_simp, simp)
  show ?thesis
    using assms cpu mem same_markup_append[OF cpu mem] piece_same[OF piece_no_value piece_no_value]
    by (cases "cj_cpu_request c"; cases "cj_cpu_request c'"; cases "cj_mem_request c"; cases "cj_mem_request c'")
      (simp_all add: resources_cell_def)
qed

lemma row_scan:
  "tscan Text False row_template [False, False, False, False, False, True, True, True, True, True, True, True] = Some Text"
  by code_simp

lemma cronjob_row_markup:
  assumes "row_marks d = row_marks d'"
    and "inert (fm ''02/01 15:04'' (rw_next d))" and "inert (fm' ''02/01 15:04'' (rw_next d'))"
  shows "same_markup (renderCronJobRow fm d) (renderCronJobRow fm' d')"
proof -
  have m: "cj_suspended (rw_cronjob d) = cj_suspended (rw_cronjob d')" "rw_missed d = rw_missed d'"
    "TZ (rw_cronjob d) = [] \<longleftrightarrow> TZ (rw_cronjob d') = []" "rw_schedule_error d = rw_schedule_error d'"
    "rw_last d = None \<longleftrightarrow> rw_last d' = None" "rw_concurrent d = rw_concurrent d'"
    "rw_durations d = [] \<longleftrightarrow> rw_durations d' = []" "cj_cpu_request (rw_cronjob d) = None \<longleftrightarrow> cj_cpu_request (rw_cronjob d') = None"
    "cj_mem_request (rw_cronjob d) = None \<longleftrightarrow> cj_mem_request (rw_cronjob d') = None"
    using assms(1) by (simp_all add: row_marks_def)
  show ?thesis
    unfolding renderCronJobRow_def Let_def
    by (rule Sprintf_markup[OF row_scan])
      (simp add: name_tags_markup[OF m(1,2)] schedule_markup[OF m(3)] next_run_markup[where fm = fm and fm' = fm', OF m(4) assms(2,3)]
        last_status_markup[OF m(5,6)] stats_markup[OF m(7)] resources_markup[OF m(8,9)] actions_markup)
qed

section \<open>What the reader sees\<close>

text \<open>The browser's decoding of the five references \<open>EscapeString\<close> writes.\<close>

fun unescape :: "string \<Rightarrow> string" where
  "unescape [] = []"
| "unescape (c # s) =
     (if has_prefix (c # s) ''&lt;'' then CHR ''<'' # unescape (drop 4 (c # s))
      else if has_prefix (c # s) ''&gt;'' then CHR ''>'' # unescape (drop 4 (c # s))
      else if has_prefix (c # s) ''&amp;'' then CHR ''&'' # unescape (drop 5 (c # s))
      else if has_prefix (c # s) ''&#39;'' then CHR 0x27 # unescape (drop 5 (c # s))
      else if has_prefix (c # s) ''&#34;'' then CHR 0x22 # unescape (drop 5 (c # s))
      else c # unescape s)"

lemma unescape_escape: "unescape (escape_string s) = s"
proof (induction s)
  case (Cons c s)
  have split: "escape_string (c # s) = escape_char c @ escape_string s" by (simp add: escape_string_def)
  have "unescape (escape_char c @ t) = c # unescape t" for t
    by (auto simp: escape_char_def has_prefix_def)
  then show ?case using Cons by (simp only: split)
qed (simp add: escape_string_def)

text \<open>
  C40. Nothing stored can add markup to a page. All run rows have the same markup, whatever the
  names, ids, nodes, statuses and numbers; a CronJob's row has a markup that depends on nine
  marks of it (suspended, missed, a zone, ...) and on nothing else; every log line, in the page
  or in the live stream, makes one \<open>div\<close>; each leaves the page between elements, where it found
  it; and the browser's decoding gives back the stored text. All that is asked of the layout of
  instants is that the countdown's, which is not escaped, holds no markup.
\<close>

theorem data_is_never_markup:
  assumes "\<And>t. inert (fm ''02/01 15:04'' t)"
  shows "markup Text (renderRunRow fm r cl ns nm) = markup Text (renderRunRow fm r' cl' ns' nm')
    \<and> end_ctx Text (renderRunRow fm r cl ns nm) = Text
    \<and> (row_marks d = row_marks d' \<longrightarrow> markup Text (renderCronJobRow fm d) = markup Text (renderCronJobRow fm d'))
    \<and> end_ctx Text (renderCronJobRow fm d) = Text
    \<and> markup Text (log_line_div l) = ''<div class=\"\" data-raw=\"\"></div>'' \<and> end_ctx Text (log_line_div l) = Text
    \<and> data_line l = Data_Line (log_line_div l)
    \<and> unescape (escape_string l) = l"
proof -
  have "data_line l = Data_Line (log_line_div l)"
    by (simp add: data_line_def log_line_div_def Sprintf_def is_verb_def byte_def)
  then show ?thesis
    using run_row_markup[of fm r cl ns nm fm r' cl' ns' nm'] cronjob_row_markup[of d d' fm fm]
      cronjob_row_markup[of d d fm fm] piece_line[of l] assms
    by (simp add: same_markup_def piece_def unescape_escape)
qed

text \<open>Witness: a job whose name is a script, and a layout of instants that writes one letter.\<close>

theorem data_is_never_markup_witness:
  "markup Text (renderRunRow (\<lambda>f t. ''x'') (demo_run ''r'' ''j'' 2 ''failed'') ''c'' ''ns'' ''<script>'')
     = markup Text (renderRunRow (\<lambda>f t. ''x'') (demo_run ''r'' ''j'' 2 ''failed'') ''c'' ''ns'' ''job'')
   \<and> unescape (escape_string ''<b>'') = ''<b>''"
  using data_is_never_markup[of "\<lambda>f t. ''x''" "demo_run ''r'' ''j'' 2 ''failed''" "''c''" "''ns''" "''<script>''"
    "demo_run ''r'' ''j'' 2 ''failed''" "''c''" "''ns''" "''job''" undefined undefined "''<b>''"]
  by simp

end
