(* ===== verification/App.thy ===== *)
theory App
  imports Run_Pages Controls Guard_Props
begin

text \<open>
  The handlers behind the routes, put together as \<open>buildHandler\<close> of src/internal/api/server.go
  does. Two of them are libraries': the file server over the embedded static files and the
  Prometheus handler; they only answer.
\<close>

definition HandleLoggedOut :: "'a handler" where
  "HandleLoggedOut r x =
     write_body ''<!DOCTYPE html>
<html lang=\"en\">
<head>
<meta charset=\"UTF-8\">
<meta name=\"viewport\" content=\"width=device-width, initial-scale=1.0\">
<title>KubeCron</title>
<link rel=\"preconnect\" href=\"https://fonts.googleapis.com\">
<link href=\"https://fonts.googleapis.com/css2?family=JetBrains+Mono:wght@400;600&family=Syne:wght@400;600;800&display=swap\" rel=\"stylesheet\">
<link rel=\"icon\" type=\"image/svg+xml\" href=\"/static/favicon.svg\">
<link rel=\"stylesheet\" href=\"/static/app.css\">
</head>
<body>
<nav>
  <a class=\"logo\" href=\"/auth/logged-out\"><span style=\"font-family:var(--font-mono);\">[KubeCron]</span></a>
</nav>
<div style=\"display:flex;align-items:center;justify-content:center;min-height:70vh;\">
  <div class=\"card\" style=\"text-align:center;padding:3rem 4rem;max-width:380px;width:100%;\">
    <div style=\"font-family:var(--font-mono);color:var(--accent);font-size:1.4rem;margin-bottom:.5rem;\">[KubeCron]</div>
    <div style=\"color:var(--muted);font-family:var(--font-mono);font-size:0.85rem;margin-bottom:2rem;\">You have been logged out.</div>
    <a href=\"/auth/login\" style=\"display:inline-block;font-family:var(--font-mono);font-size:0.9rem;color:var(--bg);background:var(--accent);border:none;padding:.6rem 2rem;border-radius:6px;text-decoration:none;cursor:pointer;\">Login</a>
  </div>
</div>
</body>
</html>''
       (set_header ''Content-Type'' ''text/html; charset=utf-8'' x)"

record library =
  lb_files :: "request \<Rightarrow> nat \<times> string"
  lb_metrics :: "request \<Rightarrow> nat \<times> string"
  lb_labels :: "(int \<times> string) list"

definition respond :: "nat \<times> string \<Rightarrow> 'a exchange \<Rightarrow> 'a exchange" where
  "respond a x = write_body (snd a) (write_header (fst a) x)"

text \<open>
  The endpoints of the login flow and of the other mode are answered before they come here,
  or are not registered.
\<close>

definition app ::
    "('s, 'l) api_env \<Rightarrow> ('k, 'j) kube_api \<Rightarrow> library \<Rightarrow> endpoint \<Rightarrow> 'k app_state handler" where
  "app ev ka lb e =
     (case e of
        endpoint.Collector \<Rightarrow> Api.Collector ev
      | endpoint.ListClustersV1 \<Rightarrow> Api.ListClustersV1 ev
      | endpoint.ListCronJobsV1 \<Rightarrow> Api.ListCronJobsV1 ev
      | endpoint.ListRunsV1 \<Rightarrow> Api.ListRunsV1 ev
      | endpoint.DailyRunStatsV1 \<Rightarrow> Api.DailyRunStatsV1 ev
      | endpoint.GetRunV1 \<Rightarrow> Api.GetRunV1 ev
      | endpoint.GetResourceSamplesV1 \<Rightarrow> Api.GetResourceSamplesV1 ev
      | endpoint.GetLogsV1 \<Rightarrow> Api.GetLogsV1 ev
      | endpoint.DownloadLogsV1 \<Rightarrow> Api.DownloadLogsV1
      | endpoint.StreamLogsV1 \<Rightarrow> StreamLogs_handler ev
      | endpoint.V1_Not_Found \<Rightarrow> v1NotFound
      | endpoint.Metrics \<Rightarrow> (\<lambda>r. respond (lb_metrics lb r))
      | endpoint.Healthz \<Rightarrow> Api.Healthz
      | endpoint.Readyz \<Rightarrow> Api.Readyz ev
      | endpoint.Mode_Not_Found \<Rightarrow> modeNotFound
      | endpoint.Static \<Rightarrow> (\<lambda>r. respond (lb_files lb r))
      | endpoint.Logged_Out \<Rightarrow> HandleLoggedOut
      | endpoint.List_Clusters \<Rightarrow> ListClusters_handler
      | endpoint.List_CronJobs \<Rightarrow> ListCronJobs_handler ev
      | endpoint.List_Runs \<Rightarrow> ListRuns_handler ev
      | endpoint.Stream_Run \<Rightarrow> StreamLogs_handler ev
      | endpoint.Resource_Samples \<Rightarrow> GetResourceSamples_handler ev
      | endpoint.Download_Logs \<Rightarrow> DownloadLogs
      | endpoint.Suspend \<Rightarrow> Controls.Suspend ka
      | endpoint.Resume \<Rightarrow> Controls.Resume ka
      | endpoint.Trigger \<Rightarrow> Controls.Trigger ka
      | endpoint.RunsListMore \<Rightarrow> Run_Pages.RunsListMore ev
      | endpoint.RunDetail \<Rightarrow> Run_Pages.RunDetail ev
      | endpoint.RunsList \<Rightarrow> Run_Pages.RunsList (lb_labels lb) ev
      | endpoint.NamespaceRows \<Rightarrow> Pages.NamespaceRows ev
      | endpoint.NamespaceDetail \<Rightarrow> Pages.NamespaceDetail ev
      | endpoint.ClusterDetail \<Rightarrow> Pages.ClusterDetail ev
      | endpoint.Dashboard \<Rightarrow> Pages.Dashboard ev
      | _ \<Rightarrow> (\<lambda>r. http_error ''404 page not found'' 404))"

section \<open>What the handlers leave alone\<close>

lemma write_page_frame [simp]:
  "x_app (write_page ps x) = x_app x" "x_pattern (write_page ps x) = x_pattern x"
  "x_counts (write_page ps x) = x_counts x" "x_latency (write_page ps x) = x_latency x"
proof -
  have "x_app (fold write_body ps y) = x_app y \<and> x_pattern (fold write_body ps y) = x_pattern y
      \<and> x_counts (fold write_body ps y) = x_counts y \<and> x_latency (fold write_body ps y) = x_latency y" for y :: "'a exchange"
    by (induction ps arbitrary: y) simp_all
  then show "x_app (write_page ps x) = x_app x" "x_pattern (write_page ps x) = x_pattern x"
    "x_counts (write_page ps x) = x_counts x" "x_latency (write_page ps x) = x_latency x"
    by (simp_all add: write_page_def)
qed

lemmas page_defs = Dashboard_def ClusterDetail_def NamespaceDetail_def NamespaceRows_def RunsList_def
  RunsListMore_def RunDetail_def

lemma page_reads [simp]:
  "x_app (Pages.Dashboard ev r x) = x_app x" "x_app (Pages.ClusterDetail ev r x) = x_app x"
  "x_app (Pages.NamespaceDetail ev r x) = x_app x" "x_app (Pages.NamespaceRows ev r x) = x_app x"
  "x_app (Run_Pages.RunsList ls ev r x) = x_app x" "x_app (Run_Pages.RunsListMore ev r x) = x_app x"
  "x_app (Run_Pages.RunDetail ev r x) = x_app x"
  by (simp_all add: page_defs Let_def split: sum.split option.split prod.split list.split)

lemma library_reads [simp]:
  "x_app (respond a y) = x_app y" "x_app (HandleLoggedOut r y) = x_app y"
  by (simp_all add: respond_def HandleLoggedOut_def)

lemma app_reads_only: "reads_only (app ev ka lb)"
proof -
  have "\<not> mutating e \<Longrightarrow> x_app (app ev ka lb e r x) = x_app x" for e r x
    by (cases e) (simp_all add: app_def mutating_def)
  then show ?thesis by (simp add: reads_only_def)
qed

text \<open>None of them touches the request counter, the matched pattern or the hardening headers.\<close>

definition discreet :: "'a handler \<Rightarrow> bool" where
  "discreet h \<longleftrightarrow> polite h \<and> quiet h"

lemma fold_body_discreet [simp]:
  "x_pattern (fold (\<lambda>e. write_body (f e)) es x) = x_pattern x"
  "x_counts (fold (\<lambda>e. write_body (f e)) es x) = x_counts x"
  "x_latency (fold (\<lambda>e. write_body (f e)) es x) = x_latency x"
  "hardened (fold (\<lambda>e. write_body (f e)) es x) = hardened x"
  by (induction es arbitrary: x) simp_all

lemma answer_json_discreet [simp]:
  "x_pattern (answer_json n j x) = x_pattern x" "x_counts (answer_json n j x) = x_counts x"
  "x_latency (answer_json n j x) = x_latency x"
  "hardened x \<Longrightarrow> hardened (answer_json n j x)"
  by (simp_all add: answer_json_def)

lemma write_page_hardened [simp]: "hardened x \<Longrightarrow> hardened (write_page ps x)"
  using fold_body_discreet(4)[where f = "\<lambda>s. s"] by (simp add: write_page_def)

lemma state_discreet [simp]:
  "x_pattern (set_kube k x) = x_pattern x" "x_pattern (set_store d x) = x_pattern x"
  "hardened (set_kube k x) = hardened x" "hardened (set_store d x) = hardened x"
  by (simp_all add: set_kube_def set_store_def hardened_def header_of_def)

lemma json_discreet:
  "discreet (Api.Collector ev)" "discreet (Api.ListClustersV1 ev)" "discreet (Api.ListCronJobsV1 ev)"
  "discreet (ListCronJobs_handler ev)" "discreet (Api.ListRunsV1 ev)" "discreet (Api.DailyRunStatsV1 ev)"
  "discreet (ListRuns_handler ev)" "discreet (Api.GetRunV1 ev)" "discreet (Api.GetResourceSamplesV1 ev)"
  "discreet (GetResourceSamples_handler ev)" "discreet (Api.GetLogsV1 ev)" "discreet DownloadLogs"
  "discreet Api.DownloadLogsV1" "discreet (StreamLogs_handler ev)" "discreet ListClusters_handler"
  "discreet Api.Healthz" "discreet (Api.Readyz ev)" "discreet v1NotFound"
  by (simp_all add: discreet_def polite_def quiet_def read_handler_defs Let_def
      split: sum.split option.split prod.split)

lemma page_discreet:
  "discreet (Pages.Dashboard ev)" "discreet (Pages.ClusterDetail ev)" "discreet (Pages.NamespaceDetail ev)"
  "discreet (Pages.NamespaceRows ev)" "discreet (Run_Pages.RunsList ls ev)"
  "discreet (Run_Pages.RunsListMore ev)" "discreet (Run_Pages.RunDetail ev)"
  by (simp_all add: discreet_def polite_def quiet_def page_defs Let_def
      split: sum.split option.split prod.split list.split)

lemma control_discreet:
  "discreet (Controls.Suspend ka)" "discreet (Controls.Resume ka)" "discreet (Controls.Trigger ka)"
  by (simp_all add: discreet_def polite_def quiet_def Suspend_def Resume_def patchSuspend_def Trigger_def Let_def
      split: sum.split option.split prod.split)

lemma library_discreet:
  "discreet (\<lambda>r. respond (f r))" "discreet HandleLoggedOut" "discreet modeNotFound"
  "discreet (\<lambda>r. http_error m n)"
  by (simp_all add: discreet_def polite_def quiet_def respond_def HandleLoggedOut_def modeNotFound_def)

lemma app_discreet: "discreet (app ev ka lb e)"
  by (cases e) (simp_all add: app_def json_discreet page_discreet control_discreet library_discreet)

end
