(* ===== verification/App_Props.thy ===== *)
theory App_Props
  imports App Api_Props
begin

text \<open>
  What a request can do to the running program: the front door, the guards and the real
  handlers together.
\<close>

section \<open>What a request can change\<close>

text \<open>
  \<open>recorded_only a b\<close>: the state \<open>b\<close> differs from \<open>a\<close> by what the Kubernetes API did and, in the
  store, by at most the one run that \<open>Trigger\<close> records.
\<close>

definition recorded_only :: "'k app_state \<Rightarrow> 'k app_state \<Rightarrow> bool" where
  "recorded_only a b \<longleftrightarrow> ap_registry b = ap_registry a
     \<and> (ap_db b = ap_db a
        \<or> (\<exists>now cl ns nm created. UpsertJobRun (ap_db a) (triggered_run now cl ns nm created) = Inr (ap_db b)))"

lemma recorded_only_refl [simp]: "recorded_only a a"
  by (simp add: recorded_only_def)

lemma recorded_only_wf: "recorded_only a b \<Longrightarrow> db_wf (ap_db a) \<Longrightarrow> db_wf (ap_db b)"
  by (auto simp: recorded_only_def intro: UpsertJobRun_wf)

lemma control_records:
  "recorded_only (x_app x) (x_app (Controls.Suspend ka r x))"
  "recorded_only (x_app x) (x_app (Controls.Resume ka r x))"
  "recorded_only (x_app x) (x_app (Controls.Trigger ka r x))"
proof -
  show "recorded_only (x_app x) (x_app (Controls.Suspend ka r x))"
    "recorded_only (x_app x) (x_app (Controls.Resume ka r x))"
    by (auto simp: recorded_only_def Suspend_def Resume_def patchSuspend_def split: option.split prod.split sum.split)
  have trig: "keep_on_error db (UpsertJobRun db (triggered_run t c s n j)) = db
      \<or> (\<exists>now cl ns nm created. UpsertJobRun db (triggered_run now cl ns nm created)
            = Inr (keep_on_error db (UpsertJobRun db (triggered_run t c s n j))))" for db t c s n j
    by (cases "UpsertJobRun db (triggered_run t c s n j)") (auto intro: exI)
  show "recorded_only (x_app x) (x_app (Controls.Trigger ka r x))"
    by (simp add: recorded_only_def Trigger_def Let_def answer_json_def trig split: option.split prod.split sum.split)
qed

lemma app_step:
  assumes "x_app x' = a"
  shows "recorded_only a (x_app (app ev ka lb e r x'))"
proof (cases "mutating e")
  case True
  then show ?thesis using control_records[of x' ka r] assms by (auto simp: mutating_def app_def)
next
  case False
  then show ?thesis using app_reads_only[of ev ka lb] assms by (simp add: reads_only_def)
qed

lemma serve_records: "recorded_only (x_app x) (x_app (serve cr od sv (app ev ka lb) r x))"
  by (rule serve_step) (simp_all add: app_step)

text \<open>
  C32. With OIDC on, suspending, resuming and triggering a CronJob take a POST that carries a
  valid session cookie of an address on the operator list and a CSRF header equal to the
  non-empty CSRF cookie: no other request changes the state behind the routes, however its path
  is escaped and whether or not an API token is configured. And a request that does change it
  changes the clusters through the Kubernetes API, and the store by no more than one triggered
  run: the cluster registry, the store's other tables and its invariant are kept.
\<close>

theorem controls_need_operator:
  fixes x :: "'k app_state exchange"
  assumes "sv_mode sv = ModeUI" and "sv_auth sv = Some a"
    and "x_app (serve cr od sv (app ev ka lb) r x) \<noteq> x_app x"
  shows "rq_method r = ''POST''
    \<and> (\<exists>s. request_session cr a r = Some s \<and> CanOperate a (ss_email s))
    \<and> (\<exists>v. cookie_get r csrfCookieName = Some v \<and> v \<noteq> [] \<and> header_get r csrfHeaderName = v)
    \<and> recorded_only (x_app x) (x_app (serve cr od sv (app ev ka lb) r x))
    \<and> (db_wf (store_of x) \<longrightarrow> db_wf (store_of (serve cr od sv (app ev ka lb) r x)))"
  using change_needs_operator[OF app_reads_only assms] serve_records[of x cr od sv ev ka lb r]
    recorded_only_wf[OF serve_records[of x cr od sv ev ka lb r]]
  by blast

text \<open>
  C33. A request its mode's front door does not admit (no or a wrong bearer token where the
  token guards, no valid session where OIDC guards) is answered 401 or 302 in the same way
  whatever the handlers behind the routes do, and changes neither the state behind them nor
  the request counters nor the limiters. In server mode no request at all changes the state
  behind the routes: there is no route to a control.
\<close>

theorem front_door_holds:
  fixes x :: "'k app_state exchange"
  assumes "pct_decode False (rq_path r) \<noteq> None"
  shows "(\<not> admitted cr sv r \<longrightarrow>
       (\<forall>od' app'. serve cr od sv (app ev ka lb) r x = serve cr od' sv app' r x)
       \<and> status (serve cr od sv (app ev ka lb) r x) \<in> {401, 302}
       \<and> x_app (serve cr od sv (app ev ka lb) r x) = x_app x
       \<and> x_counts (serve cr od sv (app ev ka lb) r x) = x_counts x
       \<and> x_latency (serve cr od sv (app ev ka lb) r x) = x_latency x
       \<and> x_login (serve cr od sv (app ev ka lb) r x) = x_login x
       \<and> x_trigger (serve cr od sv (app ev ka lb) r x) = x_trigger x)
   \<and> (sv_mode sv = ModeServer \<longrightarrow> x_app (serve cr od sv (app ev ka lb) r x) = x_app x)"
  using front_door[OF assms, of cr sv od "app ev ka lb" x] app_reads_only[of ev ka lb] by blast

section \<open>Witnesses\<close>

text \<open>A cluster whose API counts the calls and creates a Job of a fixed name.\<close>

definition demo_api :: "(nat, unit) kube_api" where
  "demo_api = \<lparr>ka_patch = (\<lambda>c ns nm p k. (Inr (), k + 1)), ka_get = (\<lambda>c ns nm k. Inr ()),
     ka_create = (\<lambda>c j k. (Inr \<lparr>kj_ns = nj_ns j, kj_name = nj_generate j @ ''x'', kj_uid = ''u9'',
       kj_labels = map_of (nj_labels j), kj_owners = [], kj_start = None, kj_completion = None, kj_conditions = []\<rparr>, k + 1))\<rparr>"

definition demo_library :: library where
  "demo_library = \<lparr>lb_files = (\<lambda>r. (404, [])), lb_metrics = (\<lambda>r. (200, [])), lb_labels = weekday_labels\<rparr>"

definition demo_behind :: "nat app_state exchange" where
  "demo_behind = \<lparr>x_headers = [], x_cookies = [], x_out = [], x_panic = False, x_pattern = [],
     x_login = Map.empty, x_trigger = Map.empty, x_counts = (\<lambda>_. 0), x_latency = (\<lambda>_. []),
     x_app = \<lparr>ap_db = demo_db, ap_registry = Register NewRegistry \<lparr>cc_id = ''c'', cc_metrics_client = No_Client, cc_metrics_on = False\<rparr>,
              ap_kube = 0\<rparr>\<rparr>"

lemma demo_suspend_effect:
  "ap_kube (x_app (serve demo_crypto demo_provider demo_sv (app demo_env demo_api demo_library) demo_suspend demo_behind)) = 1"
proof -
  let ?app = "app demo_env demo_api demo_library"
  let ?s = "\<lparr>ss_subject = ''9'', ss_email = ''bob@x.io'', ss_expiry = 86400\<rparr>"
  have ses: "request_session demo_crypto demo_auth demo_suspend = Some ?s"
    by (simp add: request_session_def demo_suspend_reads bob_parses)
  have ex: "\<not> session_exempt (url_path demo_suspend)" "\<not> isCollectorAPI (url_path demo_suspend)"
    by (simp_all add: demo_suspend_reads session_exempt_def isCollectorAPI_def has_prefix_def)
  have adm: "admitted demo_crypto demo_sv demo_suspend"
    using ses ex by (simp add: admitted_def demo_sv_def ServesUI_def session_ok_def)
  have sv: "sv_auth demo_sv = Some demo_auth" "ServesUI (sv_mode demo_sv)"
    by (simp_all add: demo_sv_def ServesUI_def)
  have can: "CanOperate demo_auth ''bob@x.io''" by code_simp
  have csrf: "csrf_ok demo_suspend" by (simp add: csrf_ok_def demo_suspend_reads)
  have en: "enriched demo_crypto demo_sv (demo_suspend\<lparr>rq_email := [], rq_params := []\<rparr>)
      = demo_suspend\<lparr>rq_email := ''bob@x.io'', rq_params := []\<rparr>"
    using ses ex by (simp add: enriched_def demo_sv_def ServesUI_def as_user_def)
  have mux: "ap_kube (x_app (server_mux demo_crypto demo_provider demo_sv ?app
      (demo_suspend\<lparr>rq_email := ''bob@x.io'', rq_params := []\<rparr>) y)) = 1"
    if "x_app y = x_app demo_behind" for y
    using can that
    by (simp add: server_mux_def ServeMux_def demo_suspend_dispatch endpoint_handler_def operator_def
        sv RequireOperator_def app_def Suspend_def patchSuspend_def path_value_def demo_behind_def Registry_Get_def
        Register_def demo_api_def)
  show ?thesis
    using adm csrf
    by (simp add: sv mux csrf.admitted demo_suspend_reads serve_def Let_def demo_suspend_path build_admitted en Chain_def
        inner_chain_def Logger_def SecurityHeaders_def EnsureCSRFCookie_def)
qed

theorem controls_need_operator_witness:
  "rq_method demo_suspend = ''POST''
   \<and> (\<exists>s. request_session demo_crypto demo_auth demo_suspend = Some s \<and> CanOperate demo_auth (ss_email s))
   \<and> db_wf (store_of (serve demo_crypto demo_provider demo_sv (app demo_env demo_api demo_library) demo_suspend demo_behind))"
proof -
  have "ap_kube (x_app demo_behind) = 0" "db_wf (store_of demo_behind)"
    using demo_wf by (simp_all add: demo_behind_def)
  then have "x_app (serve demo_crypto demo_provider demo_sv (app demo_env demo_api demo_library) demo_suspend demo_behind)
      \<noteq> x_app demo_behind" "db_wf (store_of demo_behind)"
    using demo_suspend_effect by auto
  moreover have "sv_mode demo_sv = ModeUI" "sv_auth demo_sv = Some demo_auth"
    by (simp_all add: demo_sv_def)
  ultimately show ?thesis using controls_need_operator by blast
qed

theorem front_door_holds_witness:
  "\<not> admitted demo_crypto \<lparr>sv_mode = ModeServer, sv_auth = None, sv_token = ''tok''\<rparr> demo_suspend
   \<and> status (serve demo_crypto demo_provider \<lparr>sv_mode = ModeServer, sv_auth = None, sv_token = ''tok''\<rparr>
       (app demo_env demo_api demo_library) demo_suspend demo_behind) \<in> {401, 302}"
proof -
  have no_token: "bearerToken demo_suspend = None"
    by (simp add: bearerToken_def header_get_def demo_suspend_def csrfHeaderName_def Let_def)
  have "\<not> admitted demo_crypto \<lparr>sv_mode = ModeServer, sv_auth = None, sv_token = ''tok''\<rparr> demo_suspend"
    using no_token by (simp add: admitted_def ServesUI_def bearer_ok_def demo_suspend_reads)
  moreover have "pct_decode False (rq_path demo_suspend) \<noteq> None" by (simp add: demo_suspend_path)
  ultimately show ?thesis using front_door_holds by blast
qed

end
