(* ===== verification/Startup.thy ===== *)
theory Startup
  imports App Cluster_Manager Migrations Controller
begin

text \<open>
  The start of the program: \<open>Open\<close> of \<open>internal/storage/db.go\<close> and \<open>main\<close> of
  \<open>cmd/kubecron/main.go\<close> up to the moment the HTTP server takes requests. Only what this one
  thread does is modelled; the goroutines it leaves behind (retention, informers, probes, the
  state collector) are step functions of other theories. Log output is left out.
\<close>

section \<open>Opening the database\<close>

text \<open>
  SQLite and the embedded directory: connecting gives the state that the migrations work on,
  a PRAGMA may fail, and \<open>sq_tables\<close> reads the tables of a migrated schema.
\<close>

record 's sqlite =
  sq_connect :: "string \<Rightarrow> string + 's mig_db"
  sq_pragma :: "string \<Rightarrow> string option"
  sq_exec :: "string \<Rightarrow> 's \<Rightarrow> 's result"
  sq_files :: "Migrations.dir_entry list"
  sq_tables :: "'s \<Rightarrow> db"

definition pragmas :: "(string \<times> string) list" where
  "pragmas =
     [(''PRAGMA journal_mode=WAL'', ''set WAL mode''),
      (''PRAGMA synchronous=NORMAL'', ''set synchronous''),
      (''PRAGMA busy_timeout=5000'', ''set busy_timeout''),
      (''PRAGMA cache_size=-65536'', ''set cache_size''),
      (''PRAGMA foreign_keys=ON'', ''enable foreign keys'')]"

fun run_pragmas :: "(string \<Rightarrow> string option) \<Rightarrow> (string \<times> string) list \<Rightarrow> string option" where
  "run_pragmas fails [] = None"
| "run_pragmas fails ((q, what) # qs) =
     (case fails q of
        Some e \<Rightarrow> Some (''storage: '' @ what @ '': '' @ e)
      | None \<Rightarrow> run_pragmas fails qs)"

definition Open :: "'s sqlite \<Rightarrow> string \<Rightarrow> string + db" where
  "Open q path =
     (case sq_connect q path of
        Inl e \<Rightarrow> Inl (''storage: open db: '' @ e)
      | Inr m \<Rightarrow>
          (case run_pragmas (sq_pragma q) pragmas of
             Some e \<Rightarrow> Inl e
           | None \<Rightarrow>
               (case runMigrations (sq_exec q) m (sq_files q) of
                  (_, Some e) \<Rightarrow> Inl (''storage: migrations: '' @ e)
                | (m', None) \<Rightarrow> Inr (sq_tables q (md_schema m')))))"

section \<open>Configuration\<close>

text \<open>
  \<open>Config\<close>; \<open>env.Parse\<close> is a library's, so the parsed configuration (or its error) is an
  argument. \<open>st_oidc_on\<close> is \<open>OIDC.Enabled\<close>.
\<close>

record settings =
  st_mode :: string
  st_dir :: string
  st_path :: string
  st_port :: int
  st_retention :: int
  st_log_retention :: int
  st_interval :: int
  st_cluster :: string
  st_token :: string
  st_oidc_on :: bool
  st_oidc :: Auth.config

text \<open>The \<open>envDefault\<close> tags: what an empty environment gives.\<close>

definition default_settings :: settings where
  "default_settings =
     \<lparr>st_mode = ''ui'', st_dir = ''/etc/kubecron/kubeconfigs'', st_path = ''/data/kubecron.db'', st_port = 8080,
      st_retention = 90, st_log_retention = 14, st_interval = 15, st_cluster = ''local'', st_token = [],
      st_oidc_on = False, st_oidc = \<lparr>cfg_redirect_url = [], cfg_session_key = [], cfg_allowed = [], cfg_operators = []\<rparr>\<rparr>"

section \<open>Starting the clusters\<close>

text \<open>
  Step 8. The first probe runs in this thread; \<open>answers\<close> says whether the Metrics API of a
  cluster answers it, \<open>refuses\<close> what the informers of a cluster say to their handlers. The
  result is \<open>None\<close> when a probe panics. The metrics flag belongs to the client object that the
  registry holds.
\<close>

fun start_clusters ::
    "(string \<Rightarrow> bool) \<Rightarrow> (string \<Rightarrow> resource \<Rightarrow> string option) \<Rightarrow> cluster_client list
     \<Rightarrow> registry \<times> db \<times> controller list \<Rightarrow> (registry \<times> db \<times> controller list) option" where
  "start_clusters answers refuses [] st = Some st"
| "start_clusters answers refuses (c # cs) (reg, db, ctrls) =
     (case StartProbe [answers (cc_id c)] c db of
        None \<Rightarrow> None
      | Some (c', db') \<Rightarrow>
          (case Controller_Start (refuses (cc_id c)) (NewController (cc_id c)) of
             (Some _, _) \<Rightarrow> start_clusters answers refuses cs (Register reg c', db', ctrls)
           | (None, ctrl) \<Rightarrow> start_clusters answers refuses cs (Register reg c', db', ctrls @ [ctrl])))"

section \<open>The program\<close>

text \<open>
  What the thread meets. \<open>ou_order\<close> is the order in which Go iterates over the map of the
  registry, which it does not specify.
\<close>

record ('s, 'c) outside =
  ou_env :: "string + settings"
  ou_sqlite :: "'s sqlite"
  ou_kube :: "string \<Rightarrow> 'c kube_lib"
  ou_order :: "registry \<Rightarrow> cluster_client list"
  ou_answers :: "string \<Rightarrow> bool"
  ou_refuses :: "string \<Rightarrow> resource \<Rightarrow> string option"
  ou_discovery :: bool
  ou_random :: "string option"

record running =
  ru_db :: db
  ru_registry :: registry
  ru_controllers :: "controller list"
  ru_bc :: broadcaster
  ru_prom :: prom
  ru_server :: server
  ru_info :: collector_info

datatype halt =
    Exit string \<comment> \<open>\<open>os.Exit(1)\<close> after this message\<close>
  | Probe_Panic

text \<open>Step 9: the session guard exists in UI mode with OIDC on, and in no other case.\<close>

definition front_door_of ::
    "crypto \<Rightarrow> ('s, 'c) outside \<Rightarrow> mode \<Rightarrow> settings \<Rightarrow> auth_error + authenticator option" where
  "front_door_of cr ou m cfg =
     (if ServesUI m \<and> st_oidc_on cfg then
        (case NewAuthenticator cr (ou_discovery ou) (ou_random ou) (st_oidc cfg) of
           Inl e \<Rightarrow> Inl e
         | Inr a \<Rightarrow> Inr (Some a))
      else Inr None)"

definition startup :: "crypto \<Rightarrow> ('s, 'c) outside \<Rightarrow> gotime \<Rightarrow> halt + running" where
  "startup cr ou now =
     (case ou_env ou of Inl _ \<Rightarrow> Inl (Exit ''config parse failed'') | Inr cfg \<Rightarrow>
      case ParseMode (st_mode cfg) of Inl _ \<Rightarrow> Inl (Exit ''config parse failed'') | Inr m \<Rightarrow>
      case Open (ou_sqlite ou) (st_path cfg) of Inl _ \<Rightarrow> Inl (Exit ''database open failed'') | Inr db \<Rightarrow>
      let mgr = snd (Load (ou_kube ou (st_dir cfg)) now (NewManager db (st_cluster cfg)));
          db1 = restart_recovery now (mg_db mgr) in
      case start_clusters (ou_answers ou) (ou_refuses ou) (ou_order ou (mg_registry mgr)) (mg_registry mgr, db1, []) of
        None \<Rightarrow> Inl Probe_Panic
      | Some (reg, db2, ctrls) \<Rightarrow>
          (case front_door_of cr ou m cfg of
             Inl _ \<Rightarrow> Inl (Exit ''OIDC initialisation failed'')
           | Inr a \<Rightarrow>
               Inr \<lparr>ru_db = db2, ru_registry = reg, ru_controllers = ctrls, ru_bc = new_broadcaster,
                    ru_prom = SetBuildInfo Version new_prom,
                    ru_server = \<lparr>sv_mode = m, sv_auth = a, sv_token = st_token cfg\<rparr>,
                    ru_info = \<lparr>ci_mode = m, ci_retention_days = st_retention cfg,
                               ci_log_retention_days = st_log_retention cfg,
                               ci_sample_interval = st_interval cfg\<rparr>\<rparr>))"

text \<open>The closure \<open>cacheSynced\<close> that the readiness probe asks.\<close>

definition all_synced :: "(string \<Rightarrow> resource \<Rightarrow> bool) \<Rightarrow> running \<Rightarrow> bool" where
  "all_synced hs p \<longleftrightarrow> (\<forall>c \<in> set (ru_controllers p). controller_synced (hs (ct_cluster c)) c)"

end
