(* ===== verification/Startup_Props.thy ===== *)
theory Startup_Props
  imports Startup Watch_Props App_Props
begin

text \<open>
  What the start of the program leaves: which failures stop it and which do not, the state of
  the store before the informers run, the controllers and the front door.
\<close>

section \<open>Statements on clusters leave the history alone\<close>

definition cluster_only :: "db \<Rightarrow> db \<Rightarrow> bool" where
  "cluster_only db db' \<longleftrightarrow> db_runs db' = db_runs db \<and> db_cronjobs db' = db_cronjobs db \<and> db_down db' = db_down db
     \<and> (db_wf db \<longrightarrow> db_wf db')"

lemma cluster_only_refl [simp]: "cluster_only db db"
  by (simp add: cluster_only_def)

lemma cluster_only_trans [trans]: "cluster_only a b \<Longrightarrow> cluster_only b c \<Longrightarrow> cluster_only a c"
  by (simp add: cluster_only_def)

lemma cluster_only_result:
  assumes "\<And>db'. r = Inr db' \<Longrightarrow> cluster_only db db'"
  shows "cluster_only db (keep_on_error db r)"
  using assms by (cases r) simp_all

lemma UpsertCluster_only: "cluster_only db (keep_on_error db (UpsertCluster db c))"
proof (rule cluster_only_result)
  fix db' assume *: "UpsertCluster db c = Inr db'"
  then have "db_runs db' = db_runs db \<and> db_cronjobs db' = db_cronjobs db \<and> db_down db' = db_down db"
    by (auto simp: UpsertCluster_def)
  with UpsertCluster_wf[OF _ *] show "cluster_only db db'" by (simp add: cluster_only_def)
qed

lemma MarkClusters_only: "cluster_only db (keep_on_error db (MarkClustersDeletedExcept now db keep))"
proof (rule cluster_only_result)
  fix db' assume *: "MarkClustersDeletedExcept now db keep = Inr db'"
  then have "db_runs db' = db_runs db \<and> db_cronjobs db' = db_cronjobs db \<and> db_down db' = db_down db"
    by (auto simp: MarkClustersDeletedExcept_def split: if_splits)
  with MarkClustersDeletedExcept_wf[OF _ *] show "cluster_only db db'" by (simp add: cluster_only_def)
qed

lemma SetMetrics_only: "cluster_only db (keep_on_error db (SetClusterMetricsEnabled db i e))"
proof (rule cluster_only_result)
  fix db' assume *: "SetClusterMetricsEnabled db i e = Inr db'"
  then have "db_runs db' = db_runs db \<and> db_cronjobs db' = db_cronjobs db \<and> db_down db' = db_down db"
    by (auto simp: SetClusterMetricsEnabled_def)
  with SetClusterMetricsEnabled_wf[OF _ *] show "cluster_only db db'" by (simp add: cluster_only_def)
qed

section \<open>Loading\<close>

definition keyed :: "registry \<Rightarrow> bool" where
  "keyed r \<longleftrightarrow> (\<forall>i c. r i = Some c \<longrightarrow> cc_id c = i \<and> \<not> cc_metrics_on c \<and> cc_metrics_client c \<noteq> No_Client)"

lemma keyed_client: "keyed r \<Longrightarrow> keyed (Register r (new_client kl i cfg))"
  by (simp add: keyed_def Register_def new_client_def)

lemma registerCluster_only:
  assumes "registerCluster kl now i cfg m = Inr m'"
  shows "cluster_only (mg_db m) (mg_db m')" "keyed (mg_registry m) \<Longrightarrow> keyed (mg_registry m')"
  using assms UpsertCluster_only keyed_client by (auto simp: registerCluster_def Let_def split: if_splits)

lemma load_file_only:
  "cluster_only (mg_db m) (mg_db (load_file kl now f m))"
  "keyed (mg_registry m) \<Longrightarrow> keyed (mg_registry (load_file kl now f m))"
  by (auto simp: load_file_cases UpsertCluster_only client_of_def intro: keyed_client)

lemma load_files_only:
  "cluster_only (mg_db m) (mg_db (fold (load_file kl now) fs m))
   \<and> (keyed (mg_registry m) \<longrightarrow> keyed (mg_registry (fold (load_file kl now) fs m)))"
proof (induction fs arbitrary: m)
  case (Cons f fs)
  from Cons[of "load_file kl now f m"] show ?case
    using load_file_only[of m kl now f] cluster_only_trans by fastforce
qed simp

lemma Load_only:
  "cluster_only (mg_db m) (mg_db (snd (Load kl now m)))"
  "keyed (mg_registry m) \<Longrightarrow> keyed (mg_registry (snd (Load kl now m)))"
proof -
  have lc: "cluster_only (mg_db m) (mg_db (snd (loadInCluster kl now m)))
      \<and> (keyed (mg_registry m) \<longrightarrow> keyed (mg_registry (snd (loadInCluster kl now m))))"
    by (auto simp: loadInCluster_def markRemovedClusters_def registerCluster_only
        intro: cluster_only_trans[OF registerCluster_only(1) MarkClusters_only] split: option.split sum.split)
  have lf: "cluster_only (mg_db m) (mg_db (markRemovedClusters now ks (fold (load_file kl now) fs m)))
      \<and> (keyed (mg_registry m) \<longrightarrow> keyed (mg_registry (markRemovedClusters now ks (fold (load_file kl now) fs m))))" for ks fs
    using load_files_only[of m kl now fs] cluster_only_trans[OF _ MarkClusters_only]
    by (auto simp: markRemovedClusters_def)
  show "cluster_only (mg_db m) (mg_db (snd (Load kl now m)))"
    "keyed (mg_registry m) \<Longrightarrow> keyed (mg_registry (snd (Load kl now m)))"
    using lc lf by (auto simp: Load_def Let_def split: option.split)
qed

section \<open>Starting the clusters\<close>

definition probed :: "(string \<Rightarrow> bool) \<Rightarrow> cluster_client \<Rightarrow> cluster_client" where
  "probed answers c = c\<lparr>cc_metrics_on := cc_metrics_on c \<or> cc_metrics_client c = Metrics_Client \<and> answers (cc_id c)\<rparr>"

lemma probed_id [simp]: "cc_id (probed answers c) = cc_id c"
  by (simp add: probed_def)

lemma StartProbe_first:
  "StartProbe [answers (cc_id c)] c db = None \<longleftrightarrow> cc_metrics_client c = Nil_Pointer"
  "StartProbe [answers (cc_id c)] c db = Some (c', db') \<Longrightarrow> c' = probed answers c \<and> cluster_only db db'"
proof -
  show "StartProbe [answers (cc_id c)] c db = None \<longleftrightarrow> cc_metrics_client c = Nil_Pointer"
    by (cases "cc_metrics_client c") (simp_all add: StartProbe_def probe_def)
  show "StartProbe [answers (cc_id c)] c db = Some (c', db') \<Longrightarrow> c' = probed answers c \<and> cluster_only db db'"
    by (cases "cc_metrics_client c")
      (auto simp: StartProbe_def probe_def probed_def SetMetricsEnabled_def SetMetrics_only split: if_splits)
qed

definition accepts :: "(string \<Rightarrow> resource \<Rightarrow> string option) \<Rightarrow> string \<Rightarrow> bool" where
  "accepts refuses i \<longleftrightarrow> (\<forall>r. refuses i r = None)"

definition started_controller :: "string \<Rightarrow> controller" where
  "started_controller i = \<lparr>ct_cluster = i, ct_synced = [R_CronJobs, R_Jobs, R_Pods]\<rparr>"

lemma accepts_iff: "accepts refuses i \<longleftrightarrow>
    refuses i R_CronJobs = None \<and> refuses i R_Jobs = None \<and> refuses i R_Pods = None"
  unfolding accepts_def by (metis resource.exhaust)

lemma Controller_Start_cases:
  "accepts refuses i \<Longrightarrow> Controller_Start (refuses i) (NewController i) = (None, started_controller i)"
  "\<not> accepts refuses i \<Longrightarrow> \<exists>e. Controller_Start (refuses i) (NewController i) = (Some e, NewController i)"
  by (auto simp: accepts_iff Controller_Start_def NewController_def started_controller_def split: option.split)

lemma start_clusters_none:
  "start_clusters ans ref cs (reg, db, ctrls) = None \<longleftrightarrow> (\<exists>c \<in> set cs. cc_metrics_client c = Nil_Pointer)"
proof (induction cs arbitrary: reg db ctrls)
  case (Cons c cs)
  show ?case
  proof (cases "StartProbe [ans (cc_id c)] c db")
    case None
    then show ?thesis using StartProbe_first(1)[of ans c db] by simp
  next
    case (Some p)
    then obtain c' db' where p: "StartProbe [ans (cc_id c)] c db = Some (c', db')" by (cases p) auto
    then have "cc_metrics_client c \<noteq> Nil_Pointer" using StartProbe_first(1)[of ans c db] by auto
    with p Cons show ?thesis
      using Controller_Start_cases[of ref "cc_id c"] by (cases "accepts ref (cc_id c)") auto
  qed
qed simp

lemma start_clusters_some:
  "start_clusters ans ref cs (reg, db, ctrls) = Some (reg', db', ctrls') \<Longrightarrow>
     cluster_only db db' \<and> reg' = foldl Register reg (map (probed ans) cs)
     \<and> ctrls' = ctrls @ map (\<lambda>c. started_controller (cc_id c)) (filter (\<lambda>c. accepts ref (cc_id c)) cs)"
proof (induction cs arbitrary: reg db ctrls)
  case (Cons c cs)
  from Cons.prems obtain c' db1 where p: "StartProbe [ans (cc_id c)] c db = Some (c', db1)"
    by (auto split: option.splits)
  note c' = StartProbe_first(2)[where answers = ans and c = c, OF p]
  show ?case
  proof (cases "accepts ref (cc_id c)")
    case True
    from Cons.IH[of "Register reg c'" db1 "ctrls @ [started_controller (cc_id c)]"] show ?thesis
      using Cons.prems p c' Controller_Start_cases(1)[OF True] True by (auto intro: cluster_only_trans)
  next
    case False
    then obtain e where "Controller_Start (ref (cc_id c)) (NewController (cc_id c)) = (Some e, NewController (cc_id c))"
      using Controller_Start_cases(2) by blast
    with Cons.IH[of "Register reg c'" db1 ctrls] show ?thesis
      using Cons.prems p c' False by (auto intro: cluster_only_trans)
  qed
qed simp

section \<open>The front door\<close>

text \<open>A request without credentials: no bearer token and no session cookie.\<close>

definition anonymous :: "request \<Rightarrow> bool" where
  "anonymous r \<longleftrightarrow> bearerToken r = None \<and> cookie_get r sessionCookie = None"

definition guarded :: "settings \<Rightarrow> mode \<Rightarrow> bool" where
  "guarded cfg m \<longleftrightarrow> (if ServesUI m then st_oidc_on cfg else st_token cfg \<noteq> [])"

lemma front_door_of_iff:
  "front_door_of cr ou m cfg = Inr a \<Longrightarrow> a \<noteq> None \<longleftrightarrow> ServesUI m \<and> st_oidc_on cfg"
  by (auto simp: front_door_of_def split: if_splits sum.splits)

lemma door_of_settings:
  assumes "sv_mode sv = m" "sv_token sv = st_token cfg" "sv_auth sv \<noteq> None \<longleftrightarrow> ServesUI m \<and> st_oidc_on cfg"
  shows "guarded cfg m \<Longrightarrow> anonymous r \<Longrightarrow> \<not> session_exempt (url_path r) \<Longrightarrow> \<not> admitted cr sv r"
    and "\<not> guarded cfg m \<Longrightarrow> admitted cr sv r"
  using assms by (auto simp: guarded_def admitted_def anonymous_def bearer_ok_def session_ok_def request_session_def
      session_exempt_def split: if_splits option.splits)

section \<open>The outcome of the start\<close>

lemma restart_cronjobs: "db_cronjobs (restart_recovery now db) = db_cronjobs db"
proof -
  have "MarkRunFailed now db i = Inr db' \<Longrightarrow> db_cronjobs db' = db_cronjobs db" for db db' i
    by (auto simp: MarkRunFailed_def Let_def)
  then have "db_cronjobs (keep_on_error db (MarkRunFailed now db i)) = db_cronjobs db" for db i
    by (cases "MarkRunFailed now db i") simp_all
  then have "db_cronjobs (mark_stale now rs db) = db_cronjobs db" for rs
    by (induction rs arbitrary: db) simp_all
  then show ?thesis by (simp add: restart_recovery_def split: sum.split)
qed

lemma ran_keyed: "keyed r \<Longrightarrow> cc_id ` ran r = dom r"
  by (force simp: keyed_def ran_def image_def)

lemma foldl_Register:
  "distinct (map cc_id cs) \<Longrightarrow>
     foldl Register reg cs i = (case find (\<lambda>c. cc_id c = i) cs of None \<Rightarrow> reg i | Some c \<Rightarrow> Some c)"
proof (induction cs arbitrary: reg)
  case (Cons c cs)
  have "find (\<lambda>c'. cc_id c' = cc_id c) cs = None" unfolding find_None_iff
  proof
    assume "\<exists>x. x \<in> set cs \<and> cc_id x = cc_id c"
    then have "cc_id c \<in> cc_id ` set cs" by (metis image_eqI)
    with Cons.prems show False by simp
  qed
  with Cons show ?case by (auto simp: Register_def split: option.split)
qed simp

text \<open>The registry after the clusters have been started, in whatever order.\<close>

lemma probed_registry:
  assumes "keyed reg" and "distinct cs" and "set cs = ran reg"
  shows "foldl Register reg (map (probed ans) cs) = map_option (probed ans) \<circ> reg"
proof (rule ext)
  fix i
  have inj: "c = c'" if "c \<in> set cs" "c' \<in> set cs" "cc_id c = cc_id c'" for c c'
    using that assms(1,3) by (auto simp: keyed_def ran_def)
  then have d: "distinct (map cc_id (map (probed ans) cs))"
    using assms(2) by (auto simp: distinct_map inj_on_def)
  show "foldl Register reg (map (probed ans) cs) i = (map_option (probed ans) \<circ> reg) i"
  proof (cases "reg i")
    case None
    then have "\<forall>c \<in> set cs. cc_id c \<noteq> i" using assms(1,3) by (auto simp: keyed_def ran_def)
    then have "find (\<lambda>c. cc_id c = i) (map (probed ans) cs) = None" by (auto simp: find_None_iff)
    then show ?thesis unfolding foldl_Register[OF d] using None by simp
  next
    case (Some c)
    then have c: "c \<in> set cs" "cc_id c = i" using assms(1,3) by (auto simp: keyed_def ran_def)
    then have "probed ans c \<in> set (map (probed ans) cs)" by simp
    from find_distinct_key[OF d this] have "find (\<lambda>c. cc_id c = i) (map (probed ans) cs) = Some (probed ans c)"
      using c by simp
    then show ?thesis unfolding foldl_Register[OF d] using Some by simp
  qed
qed

lemma started_synced: "controller_synced hs (started_controller i) \<longleftrightarrow> (\<forall>r. hs r)"
proof -
  have "(\<forall>r. hs r) \<longleftrightarrow> hs R_CronJobs \<and> hs R_Jobs \<and> hs R_Pods" by (metis resource.exhaust)
  then show ?thesis by (auto simp: controller_synced_def CacheSynced_def started_controller_def)
qed

lemma started_cluster: "ct_cluster (started_controller i) = i"
  by (simp add: started_controller_def)

text \<open>What the program is when it starts to listen, from what it has loaded.\<close>

definition good_start :: "crypto \<Rightarrow> ('s, 'c) outside \<Rightarrow> gotime \<Rightarrow> settings \<Rightarrow> mode \<Rightarrow> db \<Rightarrow> registry \<Rightarrow> running \<Rightarrow> bool" where
  "good_start cr ou now cfg m db reg p \<longleftrightarrow>
     db_wf (ru_db p) \<and> db_cronjobs (ru_db p) = db_cronjobs db
     \<and> (\<forall>j. run_row (ru_db p) j = map_option (\<lambda>r. if jr_status r = ''running'' then mark_failed now r else r) (run_row db j))
     \<and> ru_registry p = map_option (probed (ou_answers ou)) \<circ> reg
     \<and> set (ru_controllers p) = started_controller ` {i \<in> dom reg. accepts (ou_refuses ou) i}
     \<and> sv_mode (ru_server p) = m \<and> sv_token (ru_server p) = st_token cfg
     \<and> (sv_auth (ru_server p) \<noteq> None \<longleftrightarrow> ServesUI m \<and> st_oidc_on cfg)
     \<and> ru_info p = \<lparr>ci_mode = m, ci_retention_days = st_retention cfg, ci_log_retention_days = st_log_retention cfg,
                    ci_sample_interval = st_interval cfg\<rparr>"

definition loaded :: "('s, 'c) outside \<Rightarrow> gotime \<Rightarrow> settings \<Rightarrow> db \<Rightarrow> registry" where
  "loaded ou now cfg db = mg_registry (snd (Load (ou_kube ou (st_dir cfg)) now (NewManager db (st_cluster cfg))))"

lemma good_start_idle:
  assumes g: "good_start cr ou now cfg m db reg p" and r: "r \<in> set (db_runs (ru_db p))"
  shows "jr_status r \<noteq> ''running''"
proof -
  from g have wf: "db_wf (ru_db p)" and eq: "run_row (ru_db p) (jr_id r)
      = map_option (\<lambda>r. if jr_status r = ''running'' then mark_failed now r else r) (run_row db (jr_id r))"
    by (simp_all only: good_start_def)
  from eq obtain q where "r = (if jr_status q = ''running'' then mark_failed now q else q)"
    unfolding row_of_member[OF wf r] by (cases "run_row db (jr_id r)") simp_all
  then show ?thesis by (cases "jr_status q = ''running''") (simp_all add: mark_failed_def)
qed

lemma startup_cases:
  assumes env: "ou_env ou = Inr cfg" "ParseMode (st_mode cfg) = Inr m" "Open (ou_sqlite ou) (st_path cfg) = Inr db"
    and db: "db_wf db" "all_up db"
    and reg: "reg = loaded ou now cfg db"
    and order: "distinct (ou_order ou reg) \<and> set (ou_order ou reg) = ran reg"
  shows "case startup cr ou now of
      Inl h \<Rightarrow> h = Probe_Panic \<and> (\<exists>c \<in> ran reg. cc_metrics_client c = Nil_Pointer)
        \<or> h = Exit ''OIDC initialisation failed'' \<and> ServesUI m \<and> st_oidc_on cfg
          \<and> (\<exists>e. NewAuthenticator cr (ou_discovery ou) (ou_random ou) (st_oidc cfg) = Inl e)
    | Inr p \<Rightarrow> good_start cr ou now cfg m db reg p \<and> (\<forall>c \<in> ran reg. cc_metrics_client c \<noteq> Nil_Pointer)"
proof -
  define mgr where "mgr = snd (Load (ou_kube ou (st_dir cfg)) now (NewManager db (st_cluster cfg)))"
  define db1 where "db1 = restart_recovery now (mg_db mgr)"
  have new: "mg_db (NewManager db (st_cluster cfg)) = db" "keyed (mg_registry (NewManager db (st_cluster cfg)))"
    by (simp_all add: NewManager_def NewRegistry_def keyed_def)
  have m: "cluster_only db (mg_db mgr)" "keyed reg" "reg = mg_registry mgr"
    using Load_only[where m = "NewManager db (st_cluster cfg)"] new reg by (auto simp: mgr_def loaded_def)
  have m': "all_up (mg_db mgr)" "db_wf (mg_db mgr)" "db_cronjobs (mg_db mgr) = db_cronjobs db"
    "run_row (mg_db mgr) j = run_row db j" for j
    using m(1) db by (auto simp: cluster_only_def all_up_def run_row_def)
  note rec = restart_recovery_effect[OF m'(1,2), of now, folded db1_def]
  have st: "startup cr ou now =
      (case start_clusters (ou_answers ou) (ou_refuses ou) (ou_order ou reg) (reg, db1, []) of
         None \<Rightarrow> Inl Probe_Panic
       | Some (reg', db2, ctrls) \<Rightarrow>
           (case front_door_of cr ou m cfg of
              Inl _ \<Rightarrow> Inl (Exit ''OIDC initialisation failed'')
            | Inr a \<Rightarrow> Inr \<lparr>ru_db = db2, ru_registry = reg', ru_controllers = ctrls, ru_bc = new_broadcaster,
                ru_prom = SetBuildInfo Version new_prom,
                ru_server = \<lparr>sv_mode = m, sv_auth = a, sv_token = st_token cfg\<rparr>,
                ru_info = \<lparr>ci_mode = m, ci_retention_days = st_retention cfg,
                  ci_log_retention_days = st_log_retention cfg, ci_sample_interval = st_interval cfg\<rparr>\<rparr>))"
    using env by (simp add: startup_def Let_def db1_def mgr_def m(3))
  show ?thesis
  proof (cases "start_clusters (ou_answers ou) (ou_refuses ou) (ou_order ou reg) (reg, db1, [])")
    case None
    then have "\<exists>c \<in> ran reg. cc_metrics_client c = Nil_Pointer"
      using order by (simp only: start_clusters_none)
    then show ?thesis by (simp add: st None)
  next
    case (Some q)
    then obtain reg' db2 ctrls where q: "q = (reg', db2, ctrls)" by (cases q) auto
    note sc = start_clusters_some[OF Some[unfolded q]]
    have np: "\<forall>c \<in> ran reg. cc_metrics_client c \<noteq> Nil_Pointer"
    proof -
      have "\<not> (\<exists>c \<in> set (ou_order ou reg). cc_metrics_client c = Nil_Pointer)"
        unfolding start_clusters_none[symmetric, where ans = "ou_answers ou" and ref = "ou_refuses ou" and reg = reg
            and db = db1 and ctrls = "[]"] by (simp add: Some)
      then show ?thesis using order by blast
    qed
    have rows: "run_row db2 j = run_row db1 j" for j using sc by (simp add: cluster_only_def run_row_def)
    have "db_cronjobs db2 = db_cronjobs db" using sc m'(3) by (simp add: cluster_only_def db1_def restart_cronjobs)
    moreover have "reg' = map_option (probed (ou_answers ou)) \<circ> reg"
      using sc probed_registry[OF m(2)] order by auto
    moreover have "set ctrls = started_controller ` {i \<in> cc_id ` set (ou_order ou reg). accepts (ou_refuses ou) i}"
      using sc by auto
    then have "set ctrls = started_controller ` {i \<in> dom reg. accepts (ou_refuses ou) i}"
      using order ran_keyed[OF m(2)] by simp
    moreover have "db_wf db2" using sc rec by (simp add: cluster_only_def)
    moreover have "run_row db2 j = map_option (\<lambda>r. if jr_status r = ''running'' then mark_failed now r else r) (run_row db j)" for j
      using rec m'(4) rows by simp
    moreover have "a \<noteq> None \<longleftrightarrow> ServesUI m \<and> st_oidc_on cfg" if "front_door_of cr ou m cfg = Inr a" for a
      by (rule front_door_of_iff[OF that])
    moreover have "ServesUI m \<and> st_oidc_on cfg \<and> NewAuthenticator cr (ou_discovery ou) (ou_random ou) (st_oidc cfg) = Inl e"
      if "front_door_of cr ou m cfg = Inl e" for e
      using that by (auto simp: front_door_of_def split: if_splits sum.splits)
    ultimately show ?thesis
      using np by (cases "front_door_of cr ou m cfg") (simp_all add: st Some q good_start_def)
  qed
qed

section \<open>The start of the program\<close>

text \<open>
  C16. The start, with a configuration that parses and a database that opens. It stops only when
  a cluster's metrics client could not be built (the first probe dereferences a nil pointer) or
  when OIDC is on in UI mode and cannot be initialised; unreachable clusters, unreadable
  kubeconfigs and informers that refuse a handler do not stop it. When it goes on: every run
  that was in flight is failed before an informer runs, and no other run or CronJob is touched;
  each loaded cluster has the flag its first probe gave; a controller runs for each cluster
  whose informers accepted the handlers, and the program is ready when those have listed; and
  the front door is the configured one: with OIDC on (UI mode) or a token set (server mode) a
  request without credentials is refused outside the open paths, and otherwise no request is.
\<close>

theorem program_starts:
  assumes env: "ou_env ou = Inr cfg" "ParseMode (st_mode cfg) = Inr m" "Open (ou_sqlite ou) (st_path cfg) = Inr db"
    and db: "db_wf db" "all_up db"
    and order: "distinct (ou_order ou (loaded ou now cfg db))" "set (ou_order ou (loaded ou now cfg db)) = ran (loaded ou now cfg db)"
  shows "case startup cr ou now of
      Inl h \<Rightarrow> h = Probe_Panic \<and> (\<exists>c \<in> ran (loaded ou now cfg db). cc_metrics_client c = Nil_Pointer)
        \<or> h = Exit ''OIDC initialisation failed'' \<and> ServesUI m \<and> st_oidc_on cfg
          \<and> (\<exists>e. NewAuthenticator cr (ou_discovery ou) (ou_random ou) (st_oidc cfg) = Inl e)
    | Inr p \<Rightarrow> good_start cr ou now cfg m db (loaded ou now cfg db) p
        \<and> (\<forall>r \<in> set (db_runs (ru_db p)). jr_status r \<noteq> ''running'')
        \<and> (\<forall>hs. all_synced hs p \<longleftrightarrow> (\<forall>i \<in> dom (loaded ou now cfg db). accepts (ou_refuses ou) i \<longrightarrow> (\<forall>k. hs i k)))
        \<and> (\<forall>(x :: 'k app_state exchange) r od (ev :: ('e, 'l) api_env) (ka :: ('k, 'j) kube_api) lb.
             (guarded cfg m \<and> anonymous r \<and> \<not> session_exempt (url_path r) \<and> pct_decode False (rq_path r) \<noteq> None \<longrightarrow>
                status (serve cr od (ru_server p) (app ev ka lb) r x) \<in> {401, 302}
                \<and> x_app (serve cr od (ru_server p) (app ev ka lb) r x) = x_app x)
             \<and> (\<not> guarded cfg m \<longrightarrow> admitted cr (ru_server p) r))"
proof -
  note sc = startup_cases[OF env db refl conjI[OF order], where cr = cr]
  show ?thesis
  proof (cases "startup cr ou now")
    case (Inl h)
    then show ?thesis using sc by simp
  next
    case (Inr p)
    with sc have g: "good_start cr ou now cfg m db (loaded ou now cfg db) p" by simp
    note idle = good_start_idle[OF g]
    have sync: "all_synced hs p \<longleftrightarrow> (\<forall>i \<in> dom (loaded ou now cfg db). accepts (ou_refuses ou) i \<longrightarrow> (\<forall>k. hs i k))" for hs
    proof -
      have "set (ru_controllers p) = started_controller ` {i \<in> dom (loaded ou now cfg db). accepts (ou_refuses ou) i}"
        using g by (simp only: good_start_def)
      then have "all_synced hs p \<longleftrightarrow> (\<forall>i \<in> {i \<in> dom (loaded ou now cfg db). accepts (ou_refuses ou) i}. \<forall>k. hs i k)"
        unfolding all_synced_def by (simp only: ball_simps started_synced started_cluster)
      then show ?thesis by blast
    qed
    have sv: "sv_mode (ru_server p) = m" "sv_token (ru_server p) = st_token cfg"
      "sv_auth (ru_server p) \<noteq> None \<longleftrightarrow> ServesUI m \<and> st_oidc_on cfg"
      using g by (simp_all add: good_start_def)
    note door = door_of_settings[OF sv]
    have shut: "status (serve cr od (ru_server p) (app ev ka lb) r x) \<in> {401, 302}"
      "x_app (serve cr od (ru_server p) (app ev ka lb) r x) = x_app x"
      if "guarded cfg m" "anonymous r" "\<not> session_exempt (url_path r)" "pct_decode False (rq_path r) \<noteq> None"
      for r od lb and ev :: "('e, 'l) api_env" and ka :: "('k, 'j) kube_api" and x :: "'k app_state exchange"
      using front_door[OF that(4), of cr "ru_server p" od "app ev ka lb" x] door(1)[OF that(1-3), of cr] by simp_all
    from g idle sync shut door(2) show ?thesis by (simp add: Inr)
  qed
qed

text \<open>
  A collector with one loadable kubeconfig, a token and a database whose run \<open>r2\<close> was in flight:
  it starts, the run is failed, and a request without the token is refused.
\<close>

definition demo_fleet :: "nat kube_lib" where
  "demo_fleet = demo_dir\<lparr>kl_metrics := \<lambda>_. True\<rparr>"

definition demo_settings :: settings where
  "demo_settings = default_settings\<lparr>st_mode := ''server'', st_token := ''tok''\<rparr>"

definition demo_outside :: "(unit, nat) outside" where
  "demo_outside =
     \<lparr>ou_env = Inr demo_settings,
      ou_sqlite = \<lparr>sq_connect = (\<lambda>_. Inr \<lparr>md_schema = (), md_applied = [], md_fault = (\<lambda>_ _. None)\<rparr>),
        sq_pragma = (\<lambda>_. None), sq_exec = (\<lambda>_ s. Inr s), sq_files = [], sq_tables = (\<lambda>_. demo_db)\<rparr>,
      ou_kube = (\<lambda>_. demo_fleet), ou_order = (\<lambda>_. [client_of demo_fleet ''east.yaml'']),
      ou_answers = (\<lambda>_. True), ou_refuses = (\<lambda>_ _. None), ou_discovery = False, ou_random = None\<rparr>"

lemma demo_fleet_facts:
  "declared demo_fleet = [''bad.yml'', ''east.yaml'']" "loadable demo_fleet f \<longleftrightarrow> f \<noteq> ''bad.yml''"
  using demo_declared demo_loadable by (simp_all add: demo_fleet_def declared_def loadable_def)

lemma Load_declared:
  "declared kl \<noteq> [] \<Longrightarrow> Load kl now m
     = (None, markRemovedClusters now (map file_stem (declared kl)) (fold (load_file kl now) (declared kl) m))"
  by (auto simp: Load_def declared_def Let_def split: option.splits)

lemma demo_loaded: "loaded demo_outside 50 demo_settings demo_db = [''east'' \<mapsto> client_of demo_fleet ''east.yaml'']"
proof -
  have up: "clusters_up (mg_db (NewManager demo_db (st_cluster demo_settings)))"
    using demo_all_up by (simp add: clusters_up_def NewManager_def all_up_def)
  have "loaded demo_outside 50 demo_settings demo_db
      = foldl Register NewRegistry (map (client_of demo_fleet) (filter (loadable demo_fleet) [''bad.yml'', ''east.yaml'']))"
    using load_files[OF up, of demo_fleet 50 "declared demo_fleet"] demo_fleet_facts(1)
    by (simp add: loaded_def demo_outside_def Load_declared markRemovedClusters_def NewManager_def)
  then show ?thesis by (simp add: demo_fleet_facts(2) NewRegistry_def Register_def demo_stems)
qed

theorem program_starts_witness:
  "\<exists>p. startup demo_crypto demo_outside 50 = Inr p
     \<and> (\<forall>r \<in> set (db_runs (ru_db p)). jr_status r \<noteq> ''running'')
     \<and> status (serve demo_crypto demo_provider (ru_server p) (app demo_env demo_api demo_library)
          (demo_get [] []) demo_behind) \<in> {401, 302}"
proof -
  let ?reg = "loaded demo_outside 50 demo_settings demo_db" and ?r = "demo_get [] []"
  have cfg: "ou_env demo_outside = Inr demo_settings" "ParseMode (st_mode demo_settings) = Inr ModeServer"
    by (simp_all add: demo_outside_def demo_settings_def ParseMode_def)
  have op: "Open (ou_sqlite demo_outside) (st_path demo_settings) = Inr demo_db"
    by (simp add: Open_def demo_outside_def runMigrations_def up_files_def pragmas_def)
  have ord: "distinct (ou_order demo_outside ?reg)" "set (ou_order demo_outside ?reg) = ran ?reg"
    by (simp_all add: demo_loaded) (simp_all add: demo_outside_def)
  have no_panic: "\<not> (\<exists>c \<in> ran ?reg. cc_metrics_client c = Nil_Pointer)"
    by (simp add: demo_loaded client_of_def new_client_def demo_fleet_def demo_dir_def)
  have req: "guarded demo_settings ModeServer" "anonymous ?r" "\<not> session_exempt (url_path ?r)"
    "pct_decode False (rq_path ?r) \<noteq> None"
    by (simp add: guarded_def ServesUI_def demo_settings_def) code_simp+
  note start = program_starts[OF cfg op demo_wf demo_all_up ord, where cr = demo_crypto]
  obtain p where p: "startup demo_crypto demo_outside 50 = Inr p"
    using start no_panic by (cases "startup demo_crypto demo_outside 50") (auto simp: ServesUI_def)
  note start' = start[unfolded p sum.case]
  note door = start'[THEN conjunct2, THEN conjunct2, THEN conjunct2, THEN spec[of _ demo_behind], THEN spec[of _ ?r],
    THEN spec[of _ demo_provider], THEN spec[of _ demo_env], THEN spec[of _ demo_api], THEN spec[of _ demo_library]]
  from door[THEN conjunct1] req start'[THEN conjunct2, THEN conjunct1] p show ?thesis by blast
qed

end
