(* ===== verification/Calendar.thy ===== *)
theory Calendar
  imports Heatmap
begin

text \<open>
  The dates of \<open>Heatmap\<close>: \<open>civil_date\<close> is strictly increasing and the text \<open>2006-01-02\<close> of a
  day sorts as the day does, for the years 0 to 9999. So a day's text names one day, and SQLite's
  comparison of texts compares days.
\<close>

section \<open>Years of an era\<close>

text \<open>The number of days before year \<open>y\<close> of an era, and the day count without leap days.\<close>

definition year_start :: "int \<Rightarrow> int" where "year_start y = 365 * y + y div 4 - y div 100"
definition year_last :: "int \<Rightarrow> int" where "year_last y = (if y = 399 then 146096 else year_start (y + 1) - 1)"

definition flat_day :: "int \<Rightarrow> int" where
  "flat_day d = d - d div 1460 + d div 36524 - d div 146096"

lemma div_succ_le: "0 < k \<Longrightarrow> (d + 1) div k \<le> d div k + (1 :: int)"
  using zdiv_mono1[of "d + 1" "d + k" k] by simp

lemma flat_day_step:
  assumes "0 \<le> d" "d < 146096"
  shows "flat_day d \<le> flat_day (d + 1)"
proof (cases "d = 146095")
  case False
  with assms have "d + 1 < 146096" by linarith
  then have z: "d div 146096 = 0" "(d + 1) div 146096 = 0" using assms(1) by (intro div_pos_pos_trivial; linarith)+
  have key: "a \<le> b + 1 \<Longrightarrow> c \<le> e \<Longrightarrow> d - b + c - 0 \<le> (d + 1) - a + e - (0 :: int)" for a b c e by linarith
  show ?thesis unfolding flat_day_def z by (rule key[OF div_succ_le zdiv_mono1]) simp_all
qed (simp add: flat_day_def)

lemma flat_day_mono:
  assumes "0 \<le> a" "a \<le> b" "b \<le> 146096"
  shows "flat_day a \<le> flat_day b"
  using assms(2,3)
proof (induction b rule: int_ge_induct)
  case (step i)
  with flat_day_step[of i] assms(1) show ?case by simp
qed simp

lemma year_table:
  "list_all (\<lambda>y. 365 * y \<le> flat_day (year_start y) \<and> flat_day (year_last y) < 365 * (y + 1)
     \<and> 0 \<le> year_start y \<and> year_last y \<le> 146096 \<and> year_last y - year_start y \<le> 365) [0..399]"
  by code_simp

lemma year_table_at:
  assumes "0 \<le> y" "y \<le> 399"
  shows "365 * y \<le> flat_day (year_start y)" "flat_day (year_last y) < 365 * (y + 1)" "0 \<le> year_start y"
    "year_last y \<le> 146096" "year_last y - year_start y \<le> 365"
  using year_table assms unfolding list_all_iff by auto

text \<open>The year that \<open>civil_date\<close> computes is the one whose days contain \<open>d\<close>.\<close>

lemma year_of_day:
  assumes "0 \<le> d" "d \<le> 146096"
  defines "y \<equiv> flat_day d div 365"
  shows "0 \<le> y" "y \<le> 399" "year_start y \<le> d" "d - year_start y \<le> 365"
proof -
  have "flat_day 0 \<le> flat_day d" "flat_day d \<le> flat_day 146096" using assms(1,2) by (intro flat_day_mono; simp)+
  then have r: "0 \<le> flat_day d" "flat_day d \<le> 145999" by (simp_all add: flat_day_def)
  have y: "365 * y \<le> flat_day d" "flat_day d < 365 * (y + 1)" unfolding y_def by (simp_all add: algebra_simps)
  show y0: "0 \<le> y" using r(1) by (simp add: y_def pos_imp_zdiv_nonneg_iff)
  show y1: "y \<le> 399" using zdiv_mono1[OF r(2), of 365] by (simp add: y_def)
  note tab = year_table_at[OF y0 y1]
  show s: "year_start y \<le> d"
  proof (rule ccontr)
    assume "\<not> year_start y \<le> d"
    then have lt: "d \<le> year_start y - 1" by simp
    with assms(1) have "y \<noteq> 0" by (auto simp: year_start_def)
    with y0 y1 have p: "0 \<le> y - 1" "y - 1 \<le> 399" "y - 1 \<noteq> 399" by auto
    have e: "year_last (y - 1) = year_start y - 1" using p(3) by (simp add: year_last_def)
    have "flat_day d \<le> flat_day (year_last (y - 1))"
      using lt assms(1) year_table_at(4)[OF p(1,2)] by (intro flat_day_mono) (simp_all add: e)
    with year_table_at(2)[OF p(1,2)] y(1) show False by simp
  qed
  have "d \<le> year_last y"
  proof (rule ccontr)
    assume "\<not> d \<le> year_last y"
    then have gt: "year_last y + 1 \<le> d" by simp
    with assms(2) have n: "y \<noteq> 399" by (auto simp: year_last_def)
    with y0 y1 have p: "0 \<le> y + 1" "y + 1 \<le> 399" by auto
    have "flat_day (year_start (y + 1)) \<le> flat_day d"
      using gt n assms(2) year_table_at(3)[OF p] by (intro flat_day_mono) (simp_all add: year_last_def)
    with year_table_at(1)[OF p] y(2) show False by simp
  qed
  with tab(5) s show "d - year_start y \<le> 365" by simp
qed

section \<open>Dates\<close>

text \<open>Months counted from March of year 0, and the day within the month from 0.\<close>

definition month_start :: "int \<Rightarrow> int" where "month_start mp = (153 * mp + 2) div 5"
definition month_of :: "int \<Rightarrow> int" where "month_of doy = (5 * doy + 2) div 153"

lemma month_table:
  "list_all (\<lambda>d. 0 \<le> month_of d \<and> month_of d \<le> 11 \<and> month_start (month_of d) \<le> d
     \<and> d - month_start (month_of d) \<le> 30) [0..365]"
  by code_simp

definition march_year :: "int \<Rightarrow> int" where
  "march_year z = flat_day ((z + 719468) mod 146097) div 365 + (z + 719468) div 146097 * 400"

definition march_day :: "int \<Rightarrow> int" where
  "march_day z =
     (let doe = (z + 719468) mod 146097 in doe - year_start (flat_day doe div 365))"

lemma march_day_range: "0 \<le> march_day z" "march_day z \<le> 365"
  using year_of_day[of "(z + 719468) mod 146097"] by (simp_all add: march_day_def Let_def)

lemma march_months:
  fixes z :: int
  defines "mp \<equiv> month_of (march_day z)"
  shows "0 \<le> mp" "mp \<le> 11" "0 \<le> march_day z - month_start mp" "march_day z - month_start mp \<le> 30"
  using month_table march_day_range[of z] unfolding list_all_iff mp_def by auto

lemma civil_date_march:
  "civil_date z =
     (let mp = month_of (march_day z); m = (if mp < 10 then mp + 3 else mp - 9)
      in (march_year z + (if m \<le> 2 then 1 else 0), m, march_day z - month_start mp + 1))"
  by (simp only: civil_date_def Let_def march_year_def march_day_def month_of_def month_start_def flat_day_def
      year_start_def diff_diff_eq)

lemma civil_ranges:
  assumes "civil_date z = (y, m, k)"
  shows "1 \<le> m" "m \<le> 12" "1 \<le> k" "k \<le> 31" "12 * y + m = 12 * march_year z + month_of (march_day z) + 3"
  using assms march_months[of z] by (auto simp: civil_date_march Let_def split: if_splits)

lemma march_order:
  assumes "z < z'"
  shows "march_year z < march_year z' \<or> march_year z = march_year z' \<and> march_day z < march_day z'"
proof -
  let ?a = "z + 719468" and ?b = "z' + 719468"
  note bounds = pos_mod_sign[of 146097] pos_mod_bound[of 146097]
  have r: "0 \<le> ?a mod 146097" "?a mod 146097 \<le> 146096" "0 \<le> ?b mod 146097" "?b mod 146097 \<le> 146096"
    using bounds[of ?a] bounds[of ?b] by simp_all
  note ya = year_of_day[OF r(1,2)] and yb = year_of_day[OF r(3,4)]
  have "?a div 146097 \<le> ?b div 146097" using assms by (intro zdiv_mono1) simp_all
  then consider "?a div 146097 + 1 \<le> ?b div 146097" | "?a div 146097 = ?b div 146097" by linarith
  then show ?thesis
  proof cases
    case 1
    have "p \<le> 399 \<Longrightarrow> 0 \<le> q \<Longrightarrow> e + 1 \<le> f \<Longrightarrow> p + e * 400 < q + f * (400 :: int)" for p q e f by linarith
    from this[OF ya(2) yb(1) 1] have "march_year z < march_year z'" by (simp only: march_year_def)
    then show ?thesis by simp
  next
    case 2
    have lt: "?a mod 146097 < ?b mod 146097"
    proof -
      have "e * 146097 + p = ?a \<Longrightarrow> e * 146097 + q = ?b \<Longrightarrow> p < q" for p q e :: int using assms by linarith
      from this[OF div_mult_mod_eq[of ?a 146097]] div_mult_mod_eq[of ?b 146097] show ?thesis by (simp only: 2)
    qed
    then have "flat_day (?a mod 146097) \<le> flat_day (?b mod 146097)" using r by (intro flat_day_mono) simp_all
    then have "flat_day (?a mod 146097) div 365 \<le> flat_day (?b mod 146097) div 365" by (rule zdiv_mono1) simp
    then consider "flat_day (?a mod 146097) div 365 < flat_day (?b mod 146097) div 365"
      | "flat_day (?a mod 146097) div 365 = flat_day (?b mod 146097) div 365" by linarith
    then show ?thesis
    proof cases
      case 1
      then have "march_year z < march_year z'" by (simp only: march_year_def 2 add_less_cancel_right)
      then show ?thesis ..
    next
      case e: 2
      have "march_year z = march_year z'" by (simp only: march_year_def 2 e)
      moreover have "march_day z < march_day z'" using lt by (simp only: march_day_def Let_def e diff_strict_right_mono)
      ultimately show ?thesis by blast
    qed
  qed
qed

lemma civil_date_less:
  assumes "z < z'" "civil_date z = (y, m, k)" "civil_date z' = (y', m', k')"
  shows "y < y' \<or> y = y' \<and> (m < m' \<or> m = m' \<and> k < k')"
proof -
  note a = civil_ranges[OF assms(2)] and b = civil_ranges[OF assms(3)]
  note ma = march_months[of z] and mb = march_months[of z']
  have k: "k = march_day z - month_start (month_of (march_day z)) + 1"
    "k' = march_day z' - month_start (month_of (march_day z')) + 1"
    using assms(2,3) by (simp_all add: civil_date_march Let_def)
  have "12 * y + m < 12 * y' + m' \<or> 12 * y + m = 12 * y' + m' \<and> k < k'"
    using march_order[OF assms(1)]
  proof
    assume "march_year z < march_year z'"
    with ma(1,2) mb(1,2) a(5) b(5) show ?thesis by linarith
  next
    assume e: "march_year z = march_year z' \<and> march_day z < march_day z'"
    then have "month_of (march_day z) \<le> month_of (march_day z')"
      unfolding month_of_def by (intro zdiv_mono1) simp_all
    then consider "month_of (march_day z) < month_of (march_day z')"
      | "month_of (march_day z) = month_of (march_day z')" by linarith
    then show ?thesis using e a(5) b(5) k by cases auto
  qed
  with a(1,2) b(1,2) show ?thesis by auto
qed

section \<open>Texts of days\<close>

text \<open>Padded numbers as digits: the last one, and the number without it.\<close>

lemma nat_text_length: "n < 10 ^ Suc k \<Longrightarrow> length (nat_text n) \<le> Suc k"
proof (induction k arbitrary: n)
  case (Suc k)
  then show ?case by (subst nat_text.simps) (auto simp: less_mult_imp_div_less mult.commute)
qed (simp add: nat_text.simps)

lemma padded_snoc:
  assumes "0 \<le> i" "i < 10 ^ Suc k" "0 < k"
  shows "padded (Suc k) i = padded k (i div 10) @ [char_of (nat (i mod 10) + 48)]"
proof (cases "i < 10")
  case True
  then have "i div 10 = 0" "i mod 10 = i" using assms(1) by simp_all
  moreover have "replicate k (CHR ''0'') = replicate (k - 1) (CHR ''0'') @ [CHR ''0'']"
    using assms(3) by (metis Suc_diff_1 replicate_Suc replicate_append_same)
  moreover have "char_of (48 :: nat) = CHR ''0''" by code_simp
  ultimately show ?thesis using True assms(1)
    by (simp add: padded_def int_text_def nat_text.simps Let_def)
next
  case False
  then have n: "nat_text (nat i) = nat_text (nat i div 10) @ [char_of (nat i mod 10 + 48)]"
    by (subst nat_text.simps) simp
  have "nat (i div 10) = nat i div 10" "nat (i mod 10) = nat i mod 10"
    using assms(1) by (simp_all add: nat_div_distrib nat_mod_distrib)
  moreover have "0 \<le> i div 10" using assms(1) by (simp add: pos_imp_zdiv_nonneg_iff)
  ultimately have "int_text i = int_text (i div 10) @ [char_of (nat (i mod 10) + 48)]"
    using assms(1) n by (simp only: int_text_def not_less[symmetric] if_False)
  then show ?thesis by (simp add: padded_def Let_def)
qed

lemma padded_length:
  assumes "0 \<le> i" "i < 10 ^ Suc k"
  shows "length (padded (Suc k) i) = Suc k"
proof -
  have "nat i < 10 ^ Suc k" using assms by (simp add: nat_less_iff)
  from nat_text_length[OF this] show ?thesis using assms(1) by (simp add: padded_def int_text_def Let_def)
qed

lemma digit_less: "(a :: nat) < 10 \<Longrightarrow> b < 10 \<Longrightarrow> char_of (a + 48) < (char_of (b + 48) :: char) \<longleftrightarrow> a < b"
  by (simp add: less_char_def)

text \<open>Comparing strings part by part.\<close>

lemma string_less_append:
  "length u = length v \<Longrightarrow> u < v \<Longrightarrow> u @ s < v @ (t :: string)"
  unfolding list_less_def by (rule lexord_sufI) simp_all

lemma string_less_same: "s < t \<Longrightarrow> u @ s < u @ (t :: string)"
  unfolding list_less_def by (rule lexord_append_leftI)

lemma padded_less:
  "0 \<le> i \<Longrightarrow> i < j \<Longrightarrow> j < 10 ^ Suc k \<Longrightarrow> padded (Suc k) i < padded (Suc k) j"
proof (induction k arbitrary: i j)
  case 0
  then have "nat i < 10" "nat j < 10" "nat i < nat j" by simp_all
  then show ?case using 0 digit_less[of "nat i" "nat j"]
    by (simp add: padded_def int_text_def nat_text.simps Let_def)
next
  case (Suc k)
  have bound: "i < 10 ^ Suc (Suc k)" using Suc.prems by simp
  note snoc = padded_snoc[OF Suc.prems(1) bound] padded_snoc[of j "Suc k"]
  have d: "0 \<le> i div 10" "i div 10 \<le> j div 10" "j div 10 < 10 ^ Suc k" "i div 10 < 10 ^ Suc k"
    using Suc.prems bound by (auto simp: zdiv_mono1 div_less_iff_less_mult)
  show ?case
  proof (cases "i div 10 = j div 10")
    case True
    have "e * 10 + p = i \<Longrightarrow> e * 10 + q = j \<Longrightarrow> p < q" for p q e :: int using Suc.prems(2) by linarith
    from this[OF div_mult_mod_eq[of i 10]] div_mult_mod_eq[of j 10] True have "i mod 10 < j mod 10" by (simp only:)
    then have "nat (i mod 10) < nat (j mod 10)" by (simp add: nat_less_eq_zless)
    then have "[char_of (nat (i mod 10) + 48)] < [char_of (nat (j mod 10) + 48) :: char]"
      by (simp add: digit_less nat_less_iff)
    from string_less_same[OF this] show ?thesis using True snoc Suc.prems by simp
  next
    case False
    with d have "i div 10 < j div 10" by simp
    from Suc.IH[OF d(1) this d(3)] have "padded (Suc k) (i div 10) < padded (Suc k) (j div 10)" .
    then show ?thesis using snoc Suc.prems d padded_length[OF d(1,4)] padded_length[of "j div 10" k]
      by (simp add: string_less_append)
  qed
qed

text \<open>The days of the years 0 to 9999.\<close>

definition four_digit_year :: "int \<Rightarrow> bool" where
  "four_digit_year z \<longleftrightarrow> - 719528 \<le> z \<and> z \<le> 2932896"

lemma civil_mono: "z \<le> z' \<Longrightarrow> fst (civil_date z) \<le> fst (civil_date z')"
  using civil_date_less[of z z'] by (cases "civil_date z"; cases "civil_date z'"; cases "z = z'") fastforce+

lemma four_digits:
  assumes "four_digit_year z" "civil_date z = (y, m, k)"
  shows "0 \<le> y" "y < 10 ^ 4"
proof -
  have e: "fst (civil_date (- 719528)) = 0" "fst (civil_date 2932896) = 9999" by code_simp+
  have "fst (civil_date (- 719528)) \<le> fst (civil_date z)" "fst (civil_date z) \<le> fst (civil_date 2932896)"
    using assms(1) by (auto simp: four_digit_year_def intro: civil_mono)
  with assms(2) show "0 \<le> y" "y < 10 ^ 4" by (simp_all add: e)
qed

lemmas two_digits = civil_ranges(1-4)

lemma padded_lengths:
  "0 \<le> i \<Longrightarrow> i < 10 ^ 4 \<Longrightarrow> length (padded 4 i) = 4" "0 \<le> i \<Longrightarrow> i < 10 ^ 2 \<Longrightarrow> length (padded 2 i) = 2"
  using padded_length[of i 3] padded_length[of i 1] by (simp_all add: numeral_eq_Suc)

lemma padded_lesses:
  "0 \<le> i \<Longrightarrow> i < j \<Longrightarrow> j < 10 ^ 4 \<Longrightarrow> padded 4 i < padded 4 j"
  "0 \<le> i \<Longrightarrow> i < j \<Longrightarrow> j < 10 ^ 2 \<Longrightarrow> padded 2 i < padded 2 j"
  using padded_less[of i j 3] padded_less[of i j 1] by (simp_all add: numeral_eq_Suc)

lemma day_text_length: "four_digit_year z \<Longrightarrow> length (day_text z) = 10"
  using four_digits[of z] two_digits[of z]
  by (cases "civil_date z") (simp add: day_text_def padded_lengths)

lemma day_text_less:
  assumes "four_digit_year z" "four_digit_year z'" "z < z'"
  shows "day_text z < day_text z'"
proof -
  obtain y m k y' m' k' where c: "civil_date z = (y, m, k)" "civil_date z' = (y', m', k')"
    by (cases "civil_date z"; cases "civil_date z'") auto
  note a = four_digits[OF assms(1) c(1)] two_digits[OF c(1)] and b = four_digits[OF assms(2) c(2)] two_digits[OF c(2)]
  have len: "length (padded 4 y) = length (padded 4 y')" "length (padded 2 m) = length (padded 2 m')"
    "length (padded 2 k) = length (padded 2 k')"
    using a b by (simp_all add: padded_lengths)
  from civil_date_less[OF assms(3) c] consider "y < y'" | "y = y'" "m < m'" | "y = y'" "m = m'" "k < k'" by blast
  then show ?thesis
  proof cases
    case 1
    then show ?thesis using a b len by (simp add: day_text_def c string_less_append padded_lesses)
  next
    case 2
    then have "padded 2 m < padded 2 m'" using a b by (simp add: padded_lesses)
    from string_less_append[OF len(2) this] show ?thesis using 2(1)
      by (simp add: day_text_def c string_less_same)
  next
    case 3
    then have "padded 2 k < padded 2 k'" using a b by (simp add: padded_lesses)
    then show ?thesis using 3(1,2) by (simp add: day_text_def c string_less_same)
  qed
qed

lemma day_text_inject:
  "four_digit_year z \<Longrightarrow> four_digit_year z' \<Longrightarrow> day_text z = day_text z' \<longleftrightarrow> z = z'"
  using day_text_less[of z z'] day_text_less[of z' z] by (metis less_irrefl linorder_neqE)

text \<open>Stamps compare at least as their dates do.\<close>

lemma stamp_less:
  assumes "length (take 10 a) = length (take 10 b)" "take 10 a < take 10 b"
  shows "a < (b :: string)"
  using string_less_append[OF assms, of "drop 10 a" "drop 10 b"] by simp

end
