(* ===== verification/Heatmap_Props.thy ===== *)
theory Heatmap_Props
  imports Api_Props Calendar
begin

text \<open>
  The heatmap against the store: what a cell shows is what the run list shows for its day.
  The instants are stored as texts of UTC times, and \<open>datetime('now', '-90 days')\<close> is such a
  text; both are hypotheses on the arguments \<open>ev_tx\<close> and \<open>ev_dn\<close>.
\<close>

definition utc_day :: "gotime \<Rightarrow> int" where "utc_day t = unix_sec t div 86400"

definition utc_stamps :: "(gotime \<Rightarrow> string) \<Rightarrow> bool" where
  "utc_stamps tx \<longleftrightarrow> (\<forall>t. four_digit_year (utc_day t) \<longrightarrow> take 10 (tx t) = day_text (utc_day t))"

text \<open>The run list filtered to a day, as the cell's link asks for it.\<close>

definition day_runs :: "(gotime \<Rightarrow> string) \<Rightarrow> db \<Rightarrow> string \<Rightarrow> int \<Rightarrow> job_run list" where
  "day_runs tx db cj day =
     (case ListJobRunsByDay tx db cj (day_text day) of Inl _ \<Rightarrow> [] | Inr rs \<Rightarrow> rs)"

text \<open>What a reader of that list would draw.\<close>

definition day_verdict :: "string \<Rightarrow> job_run list \<Rightarrow> string \<times> string \<times> bool" where
  "day_verdict txt rs =
     (let n = int (length rs); ok = count_status ''succeeded'' rs; run = count_status ''running'' rs in
      if rs = [] then (''var(--border)'', txt @ '': no runs'', False)
      else if run > 0 then
        (''#4299e1'', Sprintf ''%s: %d running, %d/%d ok'' [txt, int_text run, int_text ok, int_text (n - run)], True)
      else
        (if ok = n then ''var(--green)'' else if ok = 0 then ''var(--red)'' else ''var(--yellow)'',
         Sprintf ''%s: %d/%d ok'' [txt, int_text ok, int_text n], True))"

definition shown :: "('s, 'l) api_env \<Rightarrow> db \<Rightarrow> string \<Rightarrow> gotime \<Rightarrow> int \<Rightarrow> string \<times> string \<times> bool" where
  "shown ev db cj now day =
     heat_look (map_of (rev (map (\<lambda>s. (dy_day s, s)) (daily_stats ev db cj)))) (heat_frame_of now 90) day"

section \<open>Counting\<close>

lemma count_scan [simp]: "count_status st (map scanJobRun rs) = count_status st rs"
  by (simp add: count_status_def filter_map comp_def)

lemma count_sort [simp]: "count_status st (newest_first tx rs) = count_status st rs"
proof -
  have "length (filter P (sort_desc f xs)) = length (filter P xs)" for P and f :: "job_run \<Rightarrow> string" and xs
    using filter_sort_desc[of P f xs] by simp
  then show ?thesis by (simp add: count_status_def newest_first_def)
qed

lemma map_of_rev_key:
  "distinct ds \<Longrightarrow> (\<And>d. dy_day (f d) = d) \<Longrightarrow>
   map_of (rev (map (\<lambda>s. (dy_day s, s)) (map f ds))) d = (if d \<in> set ds then Some (f d) else None)"
  by (induction ds) (auto simp: map_add_def split: option.split)

lemma sum_lengths:
  "finite S \<Longrightarrow> (\<Sum>d\<in>S. length (filter (\<lambda>r. g r = d) rs)) = length (filter (\<lambda>r. g r \<in> S) rs)"
proof (induction rs)
  case (Cons a rs)
  have "(\<Sum>d\<in>S. length (filter (\<lambda>r. g r = d) (a # rs)))
      = (\<Sum>d\<in>S. (if g a = d then 1 else 0) + length (filter (\<lambda>r. g r = d) rs))"
    by (rule sum.cong) simp_all
  also have "\<dots> = (if g a \<in> S then 1 else 0) + length (filter (\<lambda>r. g r \<in> S) rs)"
    using Cons by (simp add: sum.distrib)
  finally show ?case by simp
qed simp

lemma day_runs_eq:
  assumes "db_down db ''ListJobRunsByDay'' = None"
  shows "day_runs tx db cj day = map scanJobRun (newest_first tx (filter (\<lambda>r. day_of tx r = day_text day) (runs_of db cj)))"
  using assms by (simp add: day_runs_def ListJobRunsByDay_def sql_rows_def exec_sql_up)

lemma heat_days:
  "hf_end (heat_frame_of now days) = utc_day now" "hf_start (heat_frame_of now days) = utc_day now - (days - 1)"
  by (simp_all add: heat_frame_of_def Let_def utc_day_def)

section \<open>One cell\<close>

text \<open>Every run of a day in the picture lies behind the query's cutoff.\<close>

lemma day_after_cutoff:
  assumes "take 10 cutoff = day_text c" "take 10 s = day_text day" "c < day"
    and "four_digit_year c" "four_digit_year day"
  shows "cutoff < (s :: string)"
  by (rule stamp_less) (use assms in \<open>simp_all add: day_text_length day_text_less\<close>)

lemma shown_day:
  assumes up: "db_down db ''ListJobRunsByDay'' = None" "db_down db ''GetDailyRunStats'' = None"
    and cut: "take 10 (ev_dn ev 90) = day_text (utc_day now - 90)"
    and years: "four_digit_year (utc_day now - 90)" "four_digit_year (utc_day now)"
    and day: "utc_day now - 89 \<le> day" "day \<le> utc_day now"
  shows "shown ev db cj now day = day_verdict (day_text day) (day_runs (ev_tx ev) db cj day)"
proof -
  let ?tx = "ev_tx ev" and ?txt = "day_text day"
  let ?all = "runs_of db cj"
  let ?rs = "runs_since ?tx (ev_dn ev 90) ?all" and ?mine = "filter (\<lambda>r. day_of ?tx r = ?txt) ?all"
  define F where "F d = (let g = filter (\<lambda>r. day_of ?tx r = d) ?rs in
      \<lparr>dy_day = d, dy_total = int (length g), dy_succeeded = count_status ''succeeded'' g,
       dy_running = count_status ''running'' g\<rparr>)" for d
  define ds where "ds = sort (remdups (map (day_of ?tx) ?rs))"
  have y: "four_digit_year day" using years day by (simp add: four_digit_year_def)
  have same: "filter (\<lambda>r. day_of ?tx r = ?txt) ?rs = ?mine"
    using day_after_cutoff[OF cut _ _ years(1) y] day(1)
    by (auto simp: runs_since_def day_of_def intro!: filter_cong)
  have stats: "daily_stats ev db cj = map F ds"
    using up(2) by (simp add: daily_stats_def GetDailyRunStats_def sql_rows_def exec_sql_up F_def ds_def Let_def)
  have look: "map_of (rev (map (\<lambda>s. (dy_day s, s)) (daily_stats ev db cj))) ?txt
      = (if ?txt \<in> set ds then Some (F ?txt) else None)"
    unfolding stats by (rule map_of_rev_key) (simp_all add: ds_def F_def Let_def)
  have ds: "?txt \<in> set ds \<longleftrightarrow> ?mine \<noteq> []"
    unfolding same[symmetric] by (force simp: ds_def filter_empty_conv)
  have F: "F ?txt = \<lparr>dy_day = ?txt, dy_total = int (length ?mine), dy_succeeded = count_status ''succeeded'' ?mine,
      dy_running = count_status ''running'' ?mine\<rparr>"
    by (simp add: F_def same Let_def)
  have runs: "day_runs ?tx db cj day = map scanJobRun (newest_first ?tx ?mine)" by (rule day_runs_eq[OF up(1)])
  have len: "length (day_runs ?tx db cj day) = length ?mine" "day_runs ?tx db cj day = [] \<longleftrightarrow> ?mine = []"
    by (simp_all add: runs newest_first_def)
  have cnt: "count_status st (day_runs ?tx db cj day) = count_status st ?mine" for st by (simp add: runs)
  have "\<not> day < hf_start (heat_frame_of now 90)" using day by (simp add: heat_days)
  then show ?thesis
    by (simp add: shown_def heat_look_def Let_def look ds F day_verdict_def len cnt)
qed

section \<open>The picture\<close>

lemma blank_day:
  "day < hf_start (heat_frame_of now 90) \<Longrightarrow> shown ev db cj now day = (''#1a1d27'', day_text day, False)"
  by (simp add: shown_def heat_look_def Let_def)

lemma drawn_days:
  fixes now :: gotime
  defines "f \<equiv> heat_frame_of now 90"
  shows "map (\<lambda>d. hf_grid f + d) [0..hf_end f - hf_grid f] = [hf_grid f..hf_start f - 1] @ [hf_start f..hf_end f]"
proof -
  have "hf_grid f \<le> hf_start f" "hf_start f \<le> hf_end f + 1"
    using heat_grid(3)[of now 90] by (simp_all add: f_def heat_days)
  then have "[hf_grid f..hf_end f] = [hf_grid f..hf_start f - 1] @ [hf_start f..hf_end f]"
    using upto_split1[of "hf_grid f" "hf_start f" "hf_end f"] by (cases "hf_start f = hf_end f + 1") simp_all
  then show ?thesis using heat_grid(1)[of now 90] by (simp add: f_def)
qed

text \<open>Where the cell of the \<open>d\<close>-th drawn day is.\<close>

definition cell_at :: "heat_frame \<Rightarrow> int \<Rightarrow> int \<times> int" where
  "cell_at f d = (label_width + d div 7 * cell_step, month_height + day_row (weekday (hf_grid f + d)) * cell_step)"

lemma cells_apart: "cell_at (heat_frame_of now 90) a = cell_at (heat_frame_of now 90) b \<longleftrightarrow> a = b"
proof -
  have "a div 7 = b div 7 \<Longrightarrow> a mod 7 = b mod 7 \<Longrightarrow> a = b" by (metis div_mult_mod_eq)
  then show ?thesis by (auto simp: cell_at_def heat_grid(6) cell_step_def)
qed

definition cell_markup :: "int \<times> int \<Rightarrow> string \<Rightarrow> string \<times> string \<times> bool \<Rightarrow> string" where
  "cell_markup pos txt = (\<lambda>(color, tooltip, clickable).
     Sprintf ''<rect x=\"%d\" y=\"%d\" width=\"%d\" height=\"%d\" rx=\"2\" fill=\"%s\" opacity=\"0.85\"%s%s><title>%s</title></rect>''
        [int_text (fst pos), int_text (snd pos), ''12'', ''12'', color,
         if clickable then '' style=\"cursor:pointer;\"'' else [],
         if clickable then Sprintf '' onclick=\"location.href=location.pathname+'?day=%s'\"'' [txt] else [],
         escape_string tooltip])"

lemma heat_cell_shown:
  "heat_cell (map_of (rev (map (\<lambda>s. (dy_day s, s)) (daily_stats ev db cj)))) (heat_frame_of now 90) d
   = (let day = hf_grid (heat_frame_of now 90) + d in
      cell_markup (cell_at (heat_frame_of now 90) d) (day_text day) (shown ev db cj now day))"
  by (simp add: heat_cell_def shown_def cell_at_def cell_markup_def Let_def split: prod.split)

lemma heatmap_cells:
  "\<exists>pre post. heatmapHTML labels now (daily_stats ev db cj) 90 =
     pre @ concat (map (\<lambda>d. let day = hf_grid (heat_frame_of now 90) + d in
        cell_markup (cell_at (heat_frame_of now 90) d) (day_text day) (shown ev db cj now day))
       [0..hf_end (heat_frame_of now 90) - hf_grid (heat_frame_of now 90)]) @ post"
proof -
  have here: "\<exists>pre post. c @ u = pre @ c @ (post :: string)" for c u by (rule exI[of _ "[]"]) simp
  have skip: "\<exists>pre post. r = pre @ c @ post \<Longrightarrow> \<exists>pre post. u @ r = pre @ c @ (post :: string)" for c r u
    by (metis append_assoc)
  show ?thesis
    unfolding heatmapHTML_def Let_def heat_cell_shown[unfolded Let_def] by (rule skip, rule skip, rule skip, rule skip, rule here)
qed

lemma day_counts:
  assumes up: "db_down db ''ListJobRunsByDay'' = None" and tx: "utc_stamps tx"
    and runs: "\<forall>r \<in> set (runs_of db cj). four_digit_year (utc_day (jr_started r))"
    and years: "four_digit_year a" "four_digit_year b"
  shows "(\<Sum>day\<in>{a..b}. length (day_runs tx db cj day))
    = length (filter (\<lambda>r. utc_day (jr_started r) \<in> {a..b}) (runs_of db cj))"
proof -
  have "length (day_runs tx db cj day) = length (filter (\<lambda>r. utc_day (jr_started r) = day) (runs_of db cj))"
    if "day \<in> {a..b}" for day
  proof -
    have y: "four_digit_year day" using that years by (simp add: four_digit_year_def)
    have "filter (\<lambda>r. day_of tx r = day_text day) (runs_of db cj)
        = filter (\<lambda>r. utc_day (jr_started r) = day) (runs_of db cj)"
      using tx runs day_text_inject[OF _ y] by (intro filter_cong) (auto simp: utc_stamps_def day_of_def)
    then show ?thesis by (simp add: day_runs_eq[OF up] newest_first_def)
  qed
  then show ?thesis using sum_lengths[of "{a..b}" "\<lambda>r. utc_day (jr_started r)" "runs_of db cj"] by simp
qed

text \<open>
  C2. The 90-day heatmap of a CronJob and its run list agree. With stamps stored as UTC times:
  the picture's cells are, in order and at places that are all different, the last 90 days
  behind at most six blank ones; the colour, the counts and the link of a day's cell are those of
  the runs that the list filtered to that day shows (no run: grey and no link; one in flight: blue;
  else green, red or yellow for all, none or some succeeded); and the cells together account for
  every run that started on one of the 90 days, once.
\<close>

theorem heatmap_truthful:
  assumes "utc_stamps (ev_tx ev)" and "take 10 (ev_dn ev 90) = day_text (utc_day now - 90)"
    and "four_digit_year (utc_day now - 90)" and "four_digit_year (utc_day now)"
    and "db_down db ''ListJobRunsByDay'' = None" and "db_down db ''GetDailyRunStats'' = None"
    and "\<forall>r \<in> set (runs_of db cj). four_digit_year (utc_day (jr_started r))"
  shows "let f = heat_frame_of now 90 in
    (\<exists>pre post. heatmapHTML labels now (daily_stats ev db cj) 90 =
       pre @ concat (map (\<lambda>d. let day = hf_grid f + d in
          cell_markup (cell_at f d) (day_text day) (shown ev db cj now day)) [0..hf_end f - hf_grid f]) @ post)
    \<and> map (\<lambda>d. hf_grid f + d) [0..hf_end f - hf_grid f] = [hf_grid f..utc_day now - 90] @ [utc_day now - 89..utc_day now]
    \<and> utc_day now - 89 - hf_grid f < 7
    \<and> (\<forall>a b. cell_at f a = cell_at f b \<longleftrightarrow> a = b)
    \<and> (\<forall>day \<in> {utc_day now - 89..utc_day now}.
         shown ev db cj now day = day_verdict (day_text day) (day_runs (ev_tx ev) db cj day))
    \<and> (\<Sum>day\<in>{utc_day now - 89..utc_day now}. length (day_runs (ev_tx ev) db cj day))
       = length (filter (\<lambda>r. utc_day (jr_started r) \<in> {utc_day now - 89..utc_day now}) (runs_of db cj))"
proof -
  have y: "four_digit_year (utc_day now - 89)" using assms(3,4) by (simp add: four_digit_year_def)
  have day: "shown ev db cj now day = day_verdict (day_text day) (day_runs (ev_tx ev) db cj day)"
    if "day \<in> {utc_day now - 89..utc_day now}" for day
    using that by (intro shown_day[OF assms(5,6,2-4)]) simp_all
  note sum = day_counts[OF assms(5,1,7) y assms(4)]
  show ?thesis
    unfolding Let_def
    using heatmap_cells[unfolded Let_def] drawn_days[of now] heat_grid(4)[of now 90] cells_apart[of now] day sum
    by (simp add: heat_days)
qed

text \<open>Half a microsecond into 1970 the two runs of the example, one failed and one in flight, make today's cell blue.\<close>

definition heat_env :: "(unit, unit) api_env" where
  "heat_env = demo_env\<lparr>ev_tx := \<lambda>t. day_text (utc_day t) @ '' 00:00:00 +0000 UTC'', ev_dn := \<lambda>n. day_text (- n) @ '' 00:00:00''\<rparr>"

theorem heatmap_truthful_witness:
  "fst (shown heat_env demo_db ''live'' 500 0) = ''#4299e1''
   \<and> (\<Sum>day\<in>{- 89..0}. length (day_runs (ev_tx heat_env) demo_db ''live'' day)) = 2"
proof -
  have now: "utc_day 500 = 0" by (simp add: utc_day_def unix_sec_def)
  have y: "four_digit_year (- 90)" "four_digit_year 0" by (simp_all add: four_digit_year_def)
  have tx: "utc_stamps (ev_tx heat_env)"
    by (simp add: utc_stamps_def heat_env_def day_text_length)
  have dn: "take 10 (ev_dn heat_env 90) = day_text (utc_day 500 - 90)"
    using day_text_length[OF y(1)] by (simp add: heat_env_def now)
  have up: "db_down demo_db ''ListJobRunsByDay'' = None" "db_down demo_db ''GetDailyRunStats'' = None"
    by (simp_all add: demo_up)
  have runs: "runs_of demo_db ''live'' = db_runs demo_db" "map jr_started (db_runs demo_db) = [2, 8]"
    "map jr_status (db_runs demo_db) = [''failed'', ''running'']"
    by (simp_all add: runs_of_def demo_defs)
  then have days: "\<forall>r \<in> set (runs_of demo_db ''live''). utc_day (jr_started r) = 0"
    by (auto simp: demo_defs utc_day_def unix_sec_def)
  with y(2) have ry: "\<forall>r \<in> set (runs_of demo_db ''live''). four_digit_year (utc_day (jr_started r))" by simp
  note h = heatmap_truthful[where now = 500 and cj = "''live''" and labels = weekday_labels, OF tx dn _ _ up ry, unfolded now, simplified, OF y, unfolded Let_def]
  have "day_runs (ev_tx heat_env) demo_db ''live'' 0
      = map scanJobRun (newest_first (ev_tx heat_env) (runs_of demo_db ''live''))"
    using days day_text_length[OF y(2)] by (simp add: day_runs_eq[OF up(1)] day_of_def heat_env_def)
  note eq = this
  have "count_status ''running'' (runs_of demo_db ''live'') = 1" "runs_of demo_db ''live'' \<noteq> []"
    by (simp_all add: runs_of_def demo_defs count_status_def)
  then have "count_status ''running'' (day_runs (ev_tx heat_env) demo_db ''live'' 0) = 1"
    "day_runs (ev_tx heat_env) demo_db ''live'' 0 \<noteq> []"
    unfolding eq count_scan count_sort by (simp_all add: newest_first_def)
  then have "fst (day_verdict (day_text 0) (day_runs (ev_tx heat_env) demo_db ''live'' 0)) = ''#4299e1''"
    by (simp add: day_verdict_def Let_def)
  moreover have "length (filter (\<lambda>r. utc_day (jr_started r) \<in> {- 89..0}) (runs_of demo_db ''live'')) = 2"
    using days runs by (simp add: demo_defs utc_day_def unix_sec_def)
  ultimately show ?thesis using h by simp
qed

end
