(* ===== verification/Shutdown.thy ===== *)
theory Shutdown
  imports Kube_Prelude
begin

text \<open>
  The end of the program: \<open>Start\<close> and \<open>Shutdown\<close> of src/internal/api/server.go and the last
  part of \<open>main\<close> in src/cmd/kubecron/main.go, as a transition system of the main thread, the
  goroutine that listens, and the requests in flight. \<open>http.Server\<close> is used as documented: after
  \<open>Shutdown\<close> it takes no new connection, \<open>ListenAndServe\<close> returns \<open>ErrServerClosed\<close> (also when
  it is called later), and \<open>Shutdown\<close> waits for the requests in flight until its context ends.
  Log messages stand for themselves, without attributes; the first one is shortened.
\<close>

section \<open>State\<close>

text \<open>
  The field \<open>httpServer\<close> is nil (\<open>Unset\<close>) until \<open>Start\<close> assigns it; the listening goroutine then
  listens, and has returned when \<open>Exited\<close>. \<open>pc_shut\<close> says that \<open>Shutdown\<close> was called on it.
\<close>

datatype http_state = Unset | Assigned | Listening | Exited

datatype main_phase = Waiting | Draining | Closing | Closed_Store | Stopped

record process =
  pc_main :: main_phase
  pc_http :: http_state
  pc_shut :: bool
  pc_inflight :: nat
  pc_store_open :: bool
  pc_signalled :: bool
  pc_log :: "string list"

definition slog :: "string \<Rightarrow> process \<Rightarrow> process" where
  "slog msg p = p\<lparr>pc_log := pc_log p @ [msg]\<rparr>"

text \<open>What \<open>main\<close> has when it has started the listening goroutine.\<close>

definition launched :: process where
  "launched = \<lparr>pc_main = Waiting, pc_http = Unset, pc_shut = False, pc_inflight = 0, pc_store_open = True,
     pc_signalled = False, pc_log = []\<rparr>"

section \<open>The listening goroutine\<close>

definition exited_log :: string where "exited_log = ''http server exited''"

definition Start_assign :: "process \<Rightarrow> process" where
  "Start_assign p = p\<lparr>pc_http := Assigned\<rparr>"

text \<open>\<open>ListenAndServe\<close>: the address may be taken.\<close>

definition ListenAndServe :: "string option \<Rightarrow> process \<Rightarrow> process" where
  "ListenAndServe refused p =
     (if pc_shut p \<or> refused \<noteq> None then slog exited_log (p\<lparr>pc_http := Exited\<rparr>)
      else p\<lparr>pc_http := Listening\<rparr>)"

definition serve_return :: "process \<Rightarrow> process" where
  "serve_return p = slog exited_log (p\<lparr>pc_http := Exited\<rparr>)"

definition accept :: "process \<Rightarrow> process" where "accept p = p\<lparr>pc_inflight := pc_inflight p + 1\<rparr>"
definition answered :: "process \<Rightarrow> process" where "answered p = p\<lparr>pc_inflight := pc_inflight p - 1\<rparr>"

section \<open>The main thread\<close>

definition drain_error :: string where "drain_error = ''graceful shutdown error''"

text \<open>\<open>Shutdown\<close> returns at once when there is no server yet; otherwise it begins to drain.\<close>

definition Server_Shutdown :: "process \<Rightarrow> process" where
  "Server_Shutdown p =
     (if pc_http p = Unset then p\<lparr>pc_main := Closing\<rparr> else p\<lparr>pc_main := Draining, pc_shut := True\<rparr>)"

definition main_signal :: "process \<Rightarrow> process" where
  "main_signal p = Server_Shutdown (slog ''shutdown signal received'' p)"

text \<open>The wait ends when nothing is in flight, or with the context after 30 seconds.\<close>

definition drained :: "process \<Rightarrow> process" where "drained p = p\<lparr>pc_main := Closing\<rparr>"
definition drain_timeout :: "process \<Rightarrow> process" where "drain_timeout p = slog drain_error (p\<lparr>pc_main := Closing\<rparr>)"

definition main_close :: "string option \<Rightarrow> process \<Rightarrow> process" where
  "main_close err p =
     (let p' = p\<lparr>pc_main := Closed_Store, pc_store_open := False\<rparr> in
      if err = None then p' else slog ''database close error'' p')"

definition main_stop :: "process \<Rightarrow> process" where
  "main_stop p = slog ''kubecron stopped'' (p\<lparr>pc_main := Stopped\<rparr>)"

text \<open>Nothing runs after \<open>main\<close> has returned: the other steps need it to be alive.\<close>

inductive main_step :: "process \<Rightarrow> process \<Rightarrow> bool" where
  signal: "pc_main p = Waiting \<Longrightarrow> pc_signalled p \<Longrightarrow> main_step p (main_signal p)"
| drained: "pc_main p = Draining \<Longrightarrow> pc_inflight p = 0 \<Longrightarrow> main_step p (drained p)"
| expired: "pc_main p = Draining \<Longrightarrow> main_step p (drain_timeout p)"
| closed: "pc_main p = Closing \<Longrightarrow> main_step p (main_close err p)"
| stopped: "pc_main p = Closed_Store \<Longrightarrow> main_step p (main_stop p)"

inductive other_step :: "process \<Rightarrow> process \<Rightarrow> bool" where
  sigterm: "pc_main p \<noteq> Stopped \<Longrightarrow> other_step p (p\<lparr>pc_signalled := True\<rparr>)"
| assign: "pc_main p \<noteq> Stopped \<Longrightarrow> pc_http p = Unset \<Longrightarrow> other_step p (Start_assign p)"
| listen: "pc_main p \<noteq> Stopped \<Longrightarrow> pc_http p = Assigned \<Longrightarrow> other_step p (ListenAndServe refused p)"
| accept: "pc_main p \<noteq> Stopped \<Longrightarrow> pc_http p = Listening \<Longrightarrow> \<not> pc_shut p \<Longrightarrow> other_step p (accept p)"
| answered: "pc_main p \<noteq> Stopped \<Longrightarrow> 0 < pc_inflight p \<Longrightarrow> other_step p (answered p)"
| return: "pc_main p \<noteq> Stopped \<Longrightarrow> pc_http p = Listening \<Longrightarrow> pc_shut p \<Longrightarrow> other_step p (serve_return p)"

text \<open>\<open>process_run p n q\<close>: a run from \<open>p\<close> to \<open>q\<close> with \<open>n\<close> steps of the main thread.\<close>

inductive process_run :: "process \<Rightarrow> nat \<Rightarrow> process \<Rightarrow> bool" for p where
  here: "process_run p 0 p"
| main: "process_run p n q \<Longrightarrow> main_step q q' \<Longrightarrow> process_run p (Suc n) q'"
| other: "process_run p n q \<Longrightarrow> other_step q q' \<Longrightarrow> process_run p n q'"

lemmas process_defs = main_signal_def Server_Shutdown_def drained_def drain_timeout_def main_close_def main_stop_def
  Start_assign_def ListenAndServe_def serve_return_def accept_def answered_def slog_def

section \<open>The order of the shutdown\<close>

primrec main_rank :: "main_phase \<Rightarrow> nat" where
  "main_rank Waiting = 4"
| "main_rank Draining = 3"
| "main_rank Closing = 2"
| "main_rank Closed_Store = 1"
| "main_rank Stopped = 0"

lemma main_step_rank: "main_step p q \<Longrightarrow> main_rank (pc_main q) < main_rank (pc_main p)"
  by (induction rule: main_step.induct) (auto simp: process_defs Let_def)

lemma other_step_main: "other_step p q \<Longrightarrow> pc_main q = pc_main p \<and> (pc_signalled p \<longrightarrow> pc_signalled q)"
  by (induction rule: other_step.induct) (auto simp: process_defs)

lemma run_rank: "process_run p n q \<Longrightarrow> n + main_rank (pc_main q) \<le> main_rank (pc_main p)"
  by (induction rule: process_run.induct) (auto dest!: main_step_rank other_step_main)

lemma main_progress: "pc_signalled p \<Longrightarrow> pc_main p \<noteq> Stopped \<Longrightarrow> \<exists>q. main_step p q"
  using main_step.intros by (cases "pc_main p") blast+

text \<open>
  The invariant: the store is open until \<open>main\<close> closes it; a drain that was begun and has ended
  without the error left no request in flight; a listener that has returned has logged it; the
  phases after the signal have seen it.
\<close>

definition process_inv :: "process \<Rightarrow> bool" where
  "process_inv p \<longleftrightarrow>
     (pc_store_open p \<longleftrightarrow> pc_main p \<notin> {Closed_Store, Stopped})
     \<and> (pc_main p \<in> {Closing, Closed_Store, Stopped} \<and> pc_shut p \<and> drain_error \<notin> set (pc_log p) \<longrightarrow> pc_inflight p = 0)
     \<and> (pc_shut p \<longrightarrow> pc_http p \<noteq> Unset)
     \<and> (pc_http p = Exited \<longrightarrow> exited_log \<in> set (pc_log p))
     \<and> (pc_main p \<noteq> Waiting \<longrightarrow> pc_signalled p)
     \<and> (pc_main p = Waiting \<longrightarrow> \<not> pc_shut p)
     \<and> (pc_main p = Draining \<longrightarrow> pc_shut p)"

lemma inv_launched: "process_inv launched"
  by (simp add: process_inv_def launched_def)

lemma inv_main: "main_step p q \<Longrightarrow> process_inv p \<Longrightarrow> process_inv q"
  by (induction rule: main_step.induct) (auto simp: process_inv_def process_defs Let_def)

lemma inv_other: "other_step p q \<Longrightarrow> process_inv p \<Longrightarrow> process_inv q"
  by (induction rule: other_step.induct) (auto simp: process_inv_def process_defs)

lemma run_inv: "process_run p n q \<Longrightarrow> process_inv p \<Longrightarrow> process_inv q"
  by (induction rule: process_run.induct) (auto intro: inv_main inv_other)

lemma stored_closed:
  "process_inv p \<Longrightarrow> \<not> pc_store_open p \<Longrightarrow> pc_shut p \<Longrightarrow> drain_error \<notin> set (pc_log p) \<Longrightarrow>
     pc_inflight p = 0 \<and> (\<forall>q. other_step p q \<longrightarrow> pc_inflight q = 0)"
  by (auto simp: process_inv_def elim!: other_step.cases) (simp_all add: process_defs)

text \<open>The race: the signal comes before \<open>Start\<close> has assigned the server, which then goes on to listen.\<close>

definition raced :: process where
  "raced = accept (ListenAndServe None (Start_assign (main_close None (main_signal (launched\<lparr>pc_signalled := True\<rparr>)))))"

lemma raced_run: "process_run launched 2 raced"
proof -
  note ev = launched_def process_defs Let_def
  have "process_run launched 0 (launched\<lparr>pc_signalled := True\<rparr>)"
    by (rule process_run.other[OF process_run.here], rule other_step.sigterm) (simp add: ev)
  then have "process_run launched (Suc 0) (main_signal (launched\<lparr>pc_signalled := True\<rparr>))"
    by (rule process_run.main, intro main_step.signal) (simp_all add: ev)
  then have "process_run launched (Suc (Suc 0)) (main_close None (main_signal (launched\<lparr>pc_signalled := True\<rparr>)))"
    by (rule process_run.main, intro main_step.closed) (simp add: ev)
  then have "process_run launched (Suc (Suc 0)) (Start_assign (main_close None (main_signal (launched\<lparr>pc_signalled := True\<rparr>))))"
    by (rule process_run.other, intro other_step.assign) (simp_all add: ev)
  then have "process_run launched (Suc (Suc 0)) (ListenAndServe None (Start_assign (main_close None (main_signal (launched\<lparr>pc_signalled := True\<rparr>)))))"
    by (rule process_run.other, intro other_step.listen) (simp_all add: ev)
  then have "process_run launched (Suc (Suc 0)) raced"
    unfolding raced_def by (rule process_run.other, intro other_step.accept) (simp_all add: ev)
  then show ?thesis by (simp only: numeral_2_eq_2)
qed

text \<open>
  C5. The end of the program. Whatever the other goroutines do, the main thread takes at most four
  more steps, and once the signal has come one of them is always enabled until it has returned;
  without a signal none is, so a listener that could not open its port leaves a program behind that
  serves nothing. The store stays open until the drain is over; if that ended without the error
  message and the server existed when the signal came, no request is in flight any more and none
  begins. The proviso is needed: \<open>Shutdown\<close> does nothing while \<open>Start\<close> has not yet assigned the
  server, and then a request may be served on the closed store without any message. And every
  listener that has returned, the one of an orderly shutdown too, has logged an error.
\<close>

theorem shutdown_ends:
  assumes "process_run launched n p"
  shows "n + main_rank (pc_main p) \<le> 4
    \<and> (pc_main p \<noteq> Stopped \<longrightarrow> (\<exists>q. main_step p q) = (pc_signalled p \<or> pc_main p \<noteq> Waiting))
    \<and> (pc_store_open p \<longleftrightarrow> pc_main p \<notin> {Closed_Store, Stopped})
    \<and> (\<not> pc_store_open p \<and> pc_shut p \<and> drain_error \<notin> set (pc_log p) \<longrightarrow>
         pc_inflight p = 0 \<and> (\<forall>q. other_step p q \<longrightarrow> pc_inflight q = 0))
    \<and> (pc_http p = Exited \<longrightarrow> exited_log \<in> set (pc_log p))
    \<and> (\<exists>r. process_run launched 2 r \<and> \<not> pc_store_open r \<and> pc_inflight r = 1 \<and> drain_error \<notin> set (pc_log r))"
proof (intro conjI)
  have inv: "process_inv p" by (rule run_inv[OF assms inv_launched])
  show "n + main_rank (pc_main p) \<le> 4" using run_rank[OF assms] by (simp add: launched_def)
  show "pc_main p \<noteq> Stopped \<longrightarrow> (\<exists>q. main_step p q) = (pc_signalled p \<or> pc_main p \<noteq> Waiting)"
    using inv main_progress[of p] by (auto simp: process_inv_def elim: main_step.cases)
  show "pc_store_open p \<longleftrightarrow> pc_main p \<notin> {Closed_Store, Stopped}" "pc_http p = Exited \<longrightarrow> exited_log \<in> set (pc_log p)"
    using inv by (simp_all add: process_inv_def)
  show "\<not> pc_store_open p \<and> pc_shut p \<and> drain_error \<notin> set (pc_log p) \<longrightarrow>
      pc_inflight p = 0 \<and> (\<forall>q. other_step p q \<longrightarrow> pc_inflight q = 0)"
    using stored_closed[OF inv] by blast
  have "\<not> pc_store_open raced \<and> pc_inflight raced = 1 \<and> drain_error \<notin> set (pc_log raced)"
    by (simp add: raced_def launched_def process_defs Let_def drain_error_def)
  with raced_run show "\<exists>r. process_run launched 2 r \<and> \<not> pc_store_open r \<and> pc_inflight r = 1
      \<and> drain_error \<notin> set (pc_log r)" by blast
qed

theorem shutdown_ends_witness:
  "process_run launched 2 raced \<and> 2 + main_rank (pc_main raced) \<le> 4 \<and> (\<exists>q. main_step raced q)"
  using shutdown_ends[OF raced_run] raced_run by (auto simp: raced_def launched_def process_defs Let_def)

end
