(* ===== verification/Log_Path.thy ===== *)
theory Log_Path
  imports Api_Props
begin

text \<open>
  The way of a log line through the program: the bytes Kubernetes sends, the streamer, the store,
  the download. The pieces are those of \<open>Log_Stream\<close>, \<open>Store_Query\<close> and \<open>Api\<close>; new here are
  that the streamer keeps the store's invariant and touches the lines of no other run.
\<close>

section \<open>The streamer keeps the store's invariant\<close>

lemma keep_wf: "db_wf db \<Longrightarrow> (\<And>db'. r = Inr db' \<Longrightarrow> db_wf db') \<Longrightarrow> db_wf (keep_on_error db r)"
  by (cases r) simp_all

lemma flush_wf: "db_wf (st_db s) \<Longrightarrow> flush now run s = Inr s' \<Longrightarrow> db_wf (st_db s')"
  by (auto simp: flush_def Let_def split: if_splits sum.splits
      intro!: keep_wf dest: BatchInsertLogLines_wf[rotated] elim!: AddLogSize_wf[rotated])

lemma flush_flag_wf: "db_wf (st_db s) \<Longrightarrow> map_sum id (\<lambda>u. (u, b)) (flush now run s) = Inr (s', k) \<Longrightarrow> db_wf (st_db s')"
  using flush_wf[of s now run] by (cases "flush now run s") auto

lemma step_wf: "db_wf (st_db s) \<Longrightarrow> stream_step now run s e = Inr (s', k) \<Longrightarrow> db_wf (st_db s')"
  by (cases e) (auto simp: stream_step_def Let_def split: if_splits elim!: flush_flag_wf[rotated])

lemma loop_wf: "db_wf (st_db s) \<Longrightarrow> stream_loop run s es = Inr s' \<Longrightarrow> db_wf (st_db s')"
  by (induction run s es rule: stream_loop.induct) (auto split: sum.splits bool.splits dest: step_wf)

section \<open>The download\<close>

lemma fold_body_out: "x_out (fold (\<lambda>e. write_body (f e)) es x) = x_out x @ map (\<lambda>e. Body (f e)) es"
  by (induction es arbitrary: x) simp_all

lemma download_out:
  assumes "db_wf (store_of x)" and "all_up (store_of x)"
  shows "x_out (DownloadLogs r x)
    = x_out x @ map (\<lambda>l. Body (ll_line l @ [LF])) (logs_of (store_of x) (path_value r 0))"
  using assms by (simp add: DownloadLogs_def Let_def GetLogLines_eq all_up_def sql_rows_def exec_sql_up fold_body_out)

section \<open>Properties\<close>

text \<open>C18. A log line reaches the reader as the container wrote it. The bytes of a pod, each line
  of the container stamped by Kubernetes (the last one possibly without its newline), are cut,
  cleaned, batched in whatever interleaving with the flush timer, stored and downloaded. For a
  recorded run and a working store, the download of the run is what it was before, then exactly
  one line for each line of the container, blank ones included, in order: the line without its
  escape sequences and without the carriage returns at its end; the lines of other runs are what
  they were. The second half says what that is, for a line put together from text and terminal
  escape sequences and any number of carriage returns: its text.\<close>

theorem log_line_path:
  assumes pod: "pod_lines ls" and bytes: "bytes = stamped ls \<or> bytes @ [newline] = stamped ls"
    and lines: "got es = read_lines bytes" and run: "run \<in> set (jr_ids db)"
    and up: "all_up db" and wf: "db_wf db" and bc: "bc_ok bc" and going: "\<forall>x \<in> set es. before_end x"
  shows "(\<exists>s. streamLogs run db bc (es @ [(now, Reader_Closed)]) = Inr s \<and> st_batch s = []
    \<and> (\<forall>r x. path_value r 0 = run \<and> store_of x = st_db s \<longrightarrow>
         x_out (DownloadLogs r x) = x_out (DownloadLogs r (x\<lparr>x_app := (x_app x)\<lparr>ap_db := db\<rparr>\<rparr>))
           @ map (\<lambda>(ts, l). Body (strip_ansi (trim_right_crlf l) @ [LF])) ls)
    \<and> (\<forall>j. j \<noteq> run \<longrightarrow> GetLogLines (st_db s) j = GetLogLines db j))
   \<and> (\<forall>qs n. (\<forall>q \<in> set qs. piece_ok q)
        \<and> (concat (map piece_bytes qs) = [] \<or> last (concat (map piece_bytes qs)) \<notin> {newline, carriage}) \<longrightarrow>
        strip_ansi (trim_right_crlf (concat (map piece_bytes qs) @ replicate n carriage)) = concat (map piece_text qs))"
proof -
  let ?s = "\<lparr>st_db = db, st_bc = bc, st_batch = [], st_size = 0\<rparr>"
  have "stream_inv db bc run [] ?s" using up bc by (simp add: stream_inv_def)
  from loop_inv[OF this run going, of now] obtain s where
    s: "stream_loop run ?s (es @ [(now, Reader_Closed)]) = Inr s" "stream_inv db bc run (got es) s" "st_batch s = []"
    by auto
  then obtain new where new: "db_logs (st_db s) = db_logs db @ new" "\<forall>l \<in> set new. ll_run l = run"
    "map ll_line new = map cleanLine (got es)" and up': "all_up (st_db s)"
    by (auto simp: stream_inv_def)
  have wf': "db_wf (st_db s)" using loop_wf[OF _ s(1)] wf by simp
  have "map ll_line new = map (\<lambda>(ts, l). strip_ansi (trim_right_crlf l)) ls"
    using new(3) lines read_clean_stamped[OF pod bytes] by simp
  then have "map (\<lambda>l. Body (l @ [LF])) (map ll_line new)
      = map (\<lambda>l. Body (l @ [LF])) (map (\<lambda>(ts, l). strip_ansi (trim_right_crlf l)) ls)" by simp
  then have out: "map (\<lambda>l. Body (ll_line l @ [LF])) new = map (\<lambda>(ts, l). Body (strip_ansi (trim_right_crlf l) @ [LF])) ls"
    by (simp add: comp_def case_prod_beta)
  have logs: "logs_of (st_db s) run = logs_of db run @ new" "j \<noteq> run \<Longrightarrow> logs_of (st_db s) j = logs_of db j" for j
    using new(1,2) by (auto simp: logs_of_def filter_empty_conv)
  show ?thesis
  proof (intro conjI allI impI)
    show "\<exists>s. streamLogs run db bc (es @ [(now, Reader_Closed)]) = Inr s \<and> st_batch s = []
      \<and> (\<forall>r x. path_value r 0 = run \<and> store_of x = st_db s \<longrightarrow>
           x_out (DownloadLogs r x) = x_out (DownloadLogs r (x\<lparr>x_app := (x_app x)\<lparr>ap_db := db\<rparr>\<rparr>))
             @ map (\<lambda>(ts, l). Body (strip_ansi (trim_right_crlf l) @ [LF])) ls)
      \<and> (\<forall>j. j \<noteq> run \<longrightarrow> GetLogLines (st_db s) j = GetLogLines db j)"
      using s(1,3) out logs wf wf' up up'
      by (intro exI[of _ s])
        (auto simp: streamLogs_def download_out GetLogLines_eq all_up_def sql_rows_def exec_sql_up)
  qed (simp add: trim_right_carriages strip_ansi_pieces)
qed

text \<open>Three lines, one of them blank and one coloured and ended by a carriage return, the last without
  its newline, with a tick of the timer between them, for a run that has a line already.\<close>

definition demo_output :: "(string \<times> string) list" where
  "demo_output = [(''2026-09-30T10:00:00.5Z '', ''hello''), (''2026-09-30T10:00:01Z '', []),
     (''2026-09-30T10:00:02Z '', esc_byte # ''[1;31mbye'' @ [carriage])]"

definition demo_events :: "(gotime \<times> stream_event) list" where
  "demo_events = [(1, Got ''2026-09-30T10:00:00.5Z hello''), (2, Flush_Tick), (3, Got ''2026-09-30T10:00:01Z ''),
     (4, Got (''2026-09-30T10:00:02Z '' @ esc_byte # ''[1;31mbye''))]"

theorem log_line_path_witness:
  "\<exists>s. streamLogs ''r1'' demo_db new_broadcaster (demo_events @ [(5, Reader_Closed)]) = Inr s
    \<and> x_out (DownloadLogs (demo_get [] [''r1'']) (demo_state (st_db s)))
      = [Body (''a'' @ [LF]), Body (''hello'' @ [LF]), Body [LF], Body (''bye'' @ [LF])]"
proof -
  have pod: "pod_lines demo_output" by code_simp
  have nl: "butlast (stamped demo_output) @ [newline] = stamped demo_output"
    by (simp add: stamped_def demo_output_def)
  have lines: "got demo_events = read_lines (butlast (stamped demo_output))" by code_simp
  have going: "\<forall>x \<in> set demo_events. before_end x" by (simp add: before_end_def demo_events_def)
  have out: "map (\<lambda>(ts, l). Body (strip_ansi (trim_right_crlf l) @ [LF])) demo_output
      = [Body (''hello'' @ [LF]), Body [LF], Body (''bye'' @ [LF])]" by code_simp
  have before: "x_out (DownloadLogs (demo_get [] [''r1'']) (demo_state demo_db)) = [Body (''a'' @ [LF])]"
    using download_out[of "demo_state demo_db" "demo_get [] [''r1'']"] demo_wf demo_all_up
    by (simp add: demo_state_def demo_get_def path_value_def) (simp add: logs_of_def demo_defs)
  from log_line_path[OF pod disjI2[OF nl] lines demo_r1 demo_all_up demo_wf bc_ok_new going, of 5, unfolded out] obtain s where
    s: "streamLogs ''r1'' demo_db new_broadcaster (demo_events @ [(5, Reader_Closed)]) = Inr s"
    and down: "\<forall>r (x :: unit app_state exchange). path_value r 0 = ''r1'' \<and> store_of x = st_db s \<longrightarrow>
         x_out (DownloadLogs r x) = x_out (DownloadLogs r (x\<lparr>x_app := (x_app x)\<lparr>ap_db := demo_db\<rparr>\<rparr>))
           @ [Body (''hello'' @ [LF]), Body [LF], Body (''bye'' @ [LF])]" by blast
  have same: "(demo_state (st_db s))\<lparr>x_app := (x_app (demo_state (st_db s)))\<lparr>ap_db := demo_db\<rparr>\<rparr> = demo_state demo_db"
    by (simp add: demo_state_def)
  have here: "path_value (demo_get [] [''r1'']) 0 = ''r1'' \<and> store_of (demo_state (st_db s)) = st_db s"
    by (simp add: demo_state_def demo_get_def path_value_def)
  show ?thesis using s down[rule_format, OF here] unfolding same before by auto
qed

end
