(* ===== verification/Spec2Isabelle.thy ===== *)
theory Spec2Isabelle
  imports Schedule_Spec Broadcaster Migrations Store_Props Live_Tail Watch_Props Run_Lifecycle Guard_Props Sampler
    Api_Props Control_Props Html_Props App_Props Startup_Props Heatmap_Props Shutdown Log_Path
begin

text \<open>
  A verification development for KubeCron, the monitor and controller of Kubernetes CronJobs
  whose Go sources are under src/. This theory imports all others and documents them.

  \<^bold>\<open>The program.\<close> One process watches any number of clusters. For each cluster three informers
  (CronJobs, Jobs, pods) call handlers that write to one SQLite database: CronJobs are mirrored
  and soft-deleted, a Job opens a run, the end of its pod closes it. While a pod runs, a log
  streamer stores its lines and hands them to a broadcaster for the browsers that follow the
  run, and a sampler stores its CPU and memory use. An HTTP server answers from the database: in
  UI mode the dashboard with its controls (suspend, resume, trigger) behind OIDC, in both modes
  the read-only collector API, in server mode behind a bearer token. Beside them run the
  retention loop and a collector that republishes stored state as Prometheus gauges.

  \<^bold>\<open>Conventions.\<close> A Go struct is a record, an enumeration or an interface with known dynamic types
  a datatype. Instants and durations are integers of nanoseconds, and \<open>time_sub\<close>
  saturates at 64 bits as Time.Sub does; a string is the list of its bytes. A
  function that returns an error is one into \<open>string + 'a\<close> (\<open>'a result\<close>), a possible panic is a
  value of its own, and code that goes on after an error is \<open>keep_on_error\<close>. Clock readings,
  random bytes and the remote address are arguments or fields of the request. A mutex-protected
  method is one step. Logging is left out everywhere.

  \<^bold>\<open>Theories and the code they model.\<close>

  \<^item> \<open>Kube_Prelude\<close>: Go values, string functions, stable sorting as ORDER BY does it, lemmas on lists
    updated in place, the locale \<open>event_refinement\<close>. \<open>Go_Text\<close>, \<open>Go_Http\<close>: what the source uses of strconv,
    fmt, html, encoding/json, base64, net/url, net/http. \<open>Keyed_Table\<close>: the locale of the two
    mutex-protected maps, interpreted on watcher/run_index.go and cluster/registry.go.
  \<^item> \<open>Schedule\<close> (schedule/next.go): resolving expressions, NextRun, PrevRun with its growing windows,
    IsMissed. \<open>Schedule_Spec\<close>: the search against the set of occurrences of a schedule.
  \<^item> \<open>Store_Types\<close>, \<open>Store_Write\<close>, \<open>Store_Query\<close>, \<open>Store_Fleet\<close> (storage/models.go, queries.go and the
    tables of migrations/): a database is a record of tables, a statement a function with the
    constraints, cascades and orders of its SQL text; \<open>db_down\<close> says which statements fail.
    \<open>Store_Inv\<close>: every statement keeps the invariant \<open>db_wf\<close>. \<open>Store_Props\<close>: what the store promises.
    \<open>Migrations\<close> (db.go, runMigrations), \<open>Retention\<close> (retention.go).
  \<^item> \<open>Broadcaster\<close> (streamer/broadcaster.go): channels with their buffers in a heap, the locale
    \<open>fanout\<close> that the streamer relies on. \<open>Log_Stream\<close> (logstream.go): cutting, cleaning, batching,
    storing and publishing. \<open>Sse\<close>, \<open>Live_Tail\<close> (api/handlers_sse.go): the event stream as a browser
    reads it, and the race between replay and live lines: the statements of the flush and of the
    handler as two programs, interleaved in any way with statements the driver refuses.
    \<open>Log_Path\<close>: a line's way from the pod to the download.
  \<^item> \<open>Watcher\<close> (watcher/cronjob.go, job.go, pod.go): the handlers, on a state of store, registry, run
    index and calls into streamer and sampler. \<open>Controller\<close> (controller.go): registration, delivery,
    readiness, reconciliation. \<open>Watch_Props\<close>: the end of a run, restarts, reconciliation.
    \<open>Run_Lifecycle\<close>: a machine of verdicts, tracked runs and recorded CronJobs with an exact, guarded
    step for each event, and the proof that the watcher implements it event by event.
  \<^item> \<open>Kube_Metrics\<close> (metrics/metrics.go, collector.go): the Prometheus registry as three maps.
    \<open>Cluster_Manager\<close> (cluster/manager.go, sampler/metrics_probe.go), \<open>Sampler\<close>
    (sampler/resource_sampler.go): a transition system of sampling goroutines.
  \<^item> \<open>Auth\<close> (auth/auth.go), \<open>Http_Guards\<close> (rate_limiter.go, csrf.go, bearer.go, middleware.go) with the
    locale \<open>guard\<close> and its four interpretations, \<open>Modes\<close> (mode.go), \<open>Server\<close> (server.go): routes, the
    choice of a route, the chain. \<open>Auth_Props\<close>, \<open>Guard_Props\<close>, \<open>Server_Props\<close>: their lemmas.
  \<^item> \<open>Html_Text\<close>, \<open>Html\<close>, \<open>Heatmap\<close> (html.go, html_components.go, html_overview.go, html_log.go,
    html_chart.go): the templates, byte for byte. \<open>Html_Props\<close>: how a browser reads them.
    \<open>Calendar\<close>: the dates of the heatmap are in order, and so are their texts; \<open>Heatmap_Props\<close>: the
    picture against the store.
  \<^item> \<open>Api\<close> (handlers_v1.go and the JSON handlers of handlers_runs.go, handlers_cronjob.go,
    handlers_cluster.go), \<open>Pages\<close>, \<open>Run_Pages\<close> (the HTML pages), \<open>Controls\<close> (the three controls),
    \<open>App\<close> (the handlers behind the routes), \<open>Api_Props\<close>, \<open>Control_Props\<close>, \<open>App_Props\<close>.
  \<^item> \<open>Startup\<close> (main.go, and Open of db.go): from the configuration to the listening server;
    \<open>Startup_Props\<close>: its outcomes. \<open>Shutdown\<close> (main.go and server.go, Start and Shutdown): the end of the
    program as a transition system of the main thread, the listener and the requests in flight.

  \<^bold>\<open>What is proved.\<close> The properties are numbered C1 to C40 in the text before each theorem.

  \<^item> Schedules (C1, C3, C4): PrevRun returns, and answers the last occurrence; IsMissed raises no false
    alarm for cron expressions, and what it says for periodic and interval schedules.
  \<^item> The heatmap (C2): its cells are the days of the run list, each once.
  \<^item> Streams (C6, C7, C17, C18, C20, C21): no panic of the broadcaster in any execution; every line is
    stored, in order, whatever the interleaving with the flush timer, and downloaded as the container
    wrote it, without escape sequences and trailing carriage returns; what a follower sees, and that
    it misses nothing while its buffer has room, the history can be read and has at most 5000 lines;
    what a browser decodes.
  \<^item> Store (C9 to C16): the invariant over any sequence of statements, permanence of history, soft
    deletion, migrations that may die half-way, retention, logs read back, the fleet's numbers;
    the start of the program with its recovery and its failures, and its orderly end (C5).
  \<^item> Watcher (C8, C24 to C26, C28, C39): the refinement of the abstract machine, and how long it
    keeps a success; the life of a scheduled and of a triggered run; reconciliation.
  \<^item> API (C19, C22, C23, C27): answers against the store, the agreement of contract, dashboard and
    gauges, paging.
  \<^item> Security (C29 to C36, C40): session cookies, login, redirects, the operator gate over the whole
    server, the front door, limiters, headers, label bounds, and that stored data cannot add
    markup to a page.
  \<^item> Clusters (C37, C38): loading, and sampling as a transition system that comes to rest and
    whose goroutines never go back.

  Several theorems also state where the code falls short (C4, C5, C19, C21, C25, C27, C31, C35, C36,
  C39): the statement is then about what the code does.

  \<^bold>\<open>Arguments for code that is not under src/.\<close> The cron parser and time zones (\<open>cron_lib\<close>; C1 and C4
  assume, where they need it, that Next answers the first occurrence after its argument, \<open>next_ok\<close>), the text a driver
  writes for an instant (\<open>tx\<close>; where SQL compares texts, that their order is that of the instants
  compared, and in C2 that it starts with the UTC date), SQLite's reading of today's date (\<open>dn\<close>), executing a migration, the provider of OIDC
  and the hash (\<open>provider\<close>, \<open>crypto\<close>), client-go (\<open>kube_lib\<close>, \<open>kube_api\<close>, the informers' events), the
  printing and parsing of instants (fields of \<open>api_env\<close>), the file server and the Prometheus
  handler (\<open>library\<close>), env.Parse and the order of map iteration (\<open>outside\<close>). Each property that
  assumes something of them has a witness with a concrete instance.

  \<^bold>\<open>Bounds and fuel.\<close> Counters are the code's: 2000 probes and 400 days in PrevRun, 64 lines per
  channel, ten retries of a pod, the page sizes. PrevRun's endless loop is a
  \<open>partial_function (option)\<close> and C1 proves that it returns. The client that follows cursors in C27
  has a number of requests as fuel, and the theorem says how many are enough. Loops over byte
  strings have termination proofs.

  \<^bold>\<open>Not modelled.\<close> The embedded files, log output (except in \<open>Shutdown\<close>, where it is the only trace
  of an error), what the background goroutines do while the program ends, and the scheduling of
  goroutines inside a handler: a handler's
  database statements are one step of the watcher, except where a handler pauses (C8) and where
  interleaving is the subject (Live_Tail, Log_Stream, Sampler, Broadcaster, Shutdown). The gauges
  and the observed durations are rationals (the pages' float64 values are rounded at each
  operation, in \<open>Go_Text\<close>); the buckets of a histogram are the Prometheus library's. The scripts
  inside the pages are constants of the templates.
\<close>

end
